(* ===== verification/Py_Prelude.thy ===== *)
theory Py_Prelude
  imports Main "HOL-Library.Sublist"
begin

text \<open>
  The part of Python's runtime that every component shares.  A Python \<open>str\<close> is a
  sequence of code points, so it is modelled as \<open>pstr = nat list\<close>; \<open>lit ''abc''\<close> is
  an ASCII literal of the source.  The string methods below (\<open>isspace\<close>, \<open>rstrip\<close>,
  \<open>strip\<close>, \<open>split\<close>, \<open>splitlines\<close>, \<open>replace\<close>, \<open>join\<close>, \<open>lower\<close>) are the ones the
  source calls, with the Unicode whitespace and line-boundary sets of the language.
  \<open>None\<close> and the empty string are falsy, which \<open>str_or\<close> and \<open>opt_truthy\<close> write out.
\<close>

named_theorems py_simps \<open>rewrite rules for Python string and list operations\<close>

type_synonym pstr = "nat list"

definition lit :: "string \<Rightarrow> pstr" where
  "lit s = map of_char s"

lemma lit_Nil [simp]: "lit [] = []"
  by (simp add: lit_def)

lemma lit_eq_iff [simp]: "lit s = lit t \<longleftrightarrow> s = t"
  unfolding lit_def by (rule inj_map_eq_map) (simp add: inj_def)

lemma lit_eq_Nil_iff [simp]: "lit s = [] \<longleftrightarrow> s = []" "[] = lit s \<longleftrightarrow> s = []"
  by (simp_all add: lit_def)

lemma length_lit [simp]: "length (lit s) = length s"
  by (simp add: lit_def)

section \<open>Truth values of strings and options\<close>

definition str_or :: "pstr \<Rightarrow> pstr \<Rightarrow> pstr" where
  "str_or a b = (if a \<noteq> [] then a else b)"

fun opt_truthy :: "pstr option \<Rightarrow> bool" where
  "opt_truthy None = False"
| "opt_truthy (Some s) = (s \<noteq> [])"

lemma opt_truthy_iff: "opt_truthy x \<longleftrightarrow> (\<exists>s. x = Some s \<and> s \<noteq> [])"
  by (cases x) auto

section \<open>Whitespace\<close>

definition py_isspace :: "nat \<Rightarrow> bool" where
  "py_isspace c \<longleftrightarrow>
     9 \<le> c \<and> c \<le> 13 \<or> 28 \<le> c \<and> c \<le> 32 \<or> c = 133 \<or> c = 160 \<or> c = 5760 \<or>
     8192 \<le> c \<and> c \<le> 8202 \<or> c = 8232 \<or> c = 8233 \<or> c = 8239 \<or> c = 8287 \<or> c = 12288"

lemma py_isspace_newline [simp]: "py_isspace 10" "py_isspace 13" "py_isspace 32"
  by (simp_all add: py_isspace_def)

definition py_lstrip :: "pstr \<Rightarrow> pstr" where
  "py_lstrip s = dropWhile py_isspace s"

definition py_rstrip :: "pstr \<Rightarrow> pstr" where
  "py_rstrip s = rev (dropWhile py_isspace (rev s))"

definition py_strip :: "pstr \<Rightarrow> pstr" where
  "py_strip s = py_rstrip (py_lstrip s)"

lemma py_rstrip_Nil [simp]: "py_rstrip [] = []"
  by (simp add: py_rstrip_def)

lemma py_rstrip_snoc: "py_rstrip (s @ [c]) = (if py_isspace c then py_rstrip s else s @ [c])"
  by (simp add: py_rstrip_def)

lemma py_rstrip_idem [simp]: "py_rstrip (py_rstrip s) = py_rstrip s"
  by (simp add: py_rstrip_def dropWhile_idem)

lemma set_py_rstrip: "set (py_rstrip s) \<subseteq> set s"
  by (auto simp: py_rstrip_def dest: set_dropWhileD)

text \<open>\<open>str.split()\<close>: maximal runs of non-whitespace; \<open>cur\<close> is the token being read.\<close>

fun split_ws_from :: "pstr \<Rightarrow> pstr \<Rightarrow> pstr list" where
  "split_ws_from cur [] = (if cur = [] then [] else [cur])"
| "split_ws_from cur (c # cs) =
     (if py_isspace c
      then (if cur = [] then split_ws_from [] cs else cur # split_ws_from [] cs)
      else split_ws_from (cur @ [c]) cs)"

definition split_ws :: "pstr \<Rightarrow> pstr list" where
  "split_ws s = split_ws_from [] s"

lemma split_ws_Nil [simp]: "split_ws [] = []"
  by (simp add: split_ws_def)

lemma split_ws_from_sep:
  "py_isspace w \<Longrightarrow> split_ws_from cur (a @ w # b) = split_ws_from cur a @ split_ws b"
  by (induction a arbitrary: cur) (auto simp: split_ws_def)

lemma split_ws_sep [py_simps]: "py_isspace w \<Longrightarrow> split_ws (a @ w # b) = split_ws a @ split_ws b"
  by (simp add: split_ws_def split_ws_from_sep)

lemma split_ws_space_Cons: "py_isspace w \<Longrightarrow> split_ws (w # b) = split_ws b"
  using split_ws_sep [of w "[]" b] by simp

lemma split_ws_space_snoc: "py_isspace w \<Longrightarrow> split_ws (a @ [w]) = split_ws a"
  using split_ws_sep [of w a "[]"] by simp

lemma split_ws_rstrip [simp]: "split_ws (py_rstrip s) = split_ws s"
  by (induction s rule: rev_induct) (auto simp: py_rstrip_snoc split_ws_space_snoc)

text \<open>What a token of \<open>split()\<close> looks like: non-empty, no whitespace.\<close>

definition is_token :: "pstr \<Rightarrow> bool" where
  "is_token t \<longleftrightarrow> t \<noteq> [] \<and> list_all (\<lambda>c. \<not> py_isspace c) t"

lemma split_ws_from_tokens:
  "list_all (\<lambda>c. \<not> py_isspace c) cur \<Longrightarrow> list_all is_token (split_ws_from cur s)"
  by (induction cur s rule: split_ws_from.induct) (simp_all add: is_token_def)

lemma split_ws_tokens: "list_all is_token (split_ws s)"
  by (simp add: split_ws_def split_ws_from_tokens)

lemma split_ws_from_word: "list_all (\<lambda>c. \<not> py_isspace c) t \<Longrightarrow>
  split_ws_from cur t = (if cur @ t = [] then [] else [cur @ t])"
  by (induction t arbitrary: cur) auto

lemma split_ws_word: "is_token t \<Longrightarrow> split_ws t = [t]"
  by (simp add: split_ws_def split_ws_from_word is_token_def)

section \<open>Splitting and joining\<close>

fun split_on :: "nat \<Rightarrow> pstr \<Rightarrow> pstr list" where
  "split_on d [] = [[]]"
| "split_on d (c # cs) =
     (if c = d then [] # split_on d cs
      else case split_on d cs of [] \<Rightarrow> [[c]] | l # ls \<Rightarrow> (c # l) # ls)"

fun py_join :: "pstr \<Rightarrow> pstr list \<Rightarrow> pstr" where
  "py_join sep [] = []"
| "py_join sep [x] = x"
| "py_join sep (x # y # ys) = x @ sep @ py_join sep (y # ys)"

lemma split_on_not_Nil [simp]: "split_on d s \<noteq> []"
  by (induction s) (auto split: list.splits)

lemma split_on_no_sep: "l \<in> set (split_on d s) \<Longrightarrow> d \<notin> set l"
  by (induction s arbitrary: l) (auto split: list.splits if_splits)

lemma set_split_on: "l \<in> set (split_on d s) \<Longrightarrow> set l \<subseteq> set s"
  by (induction s arbitrary: l) (fastforce split: list.splits if_splits)+

lemma py_join_Cons: "ls \<noteq> [] \<Longrightarrow> py_join sep (l # ls) = l @ sep @ py_join sep ls"
  by (cases ls) auto

lemma py_join_split_on [simp]: "py_join [d] (split_on d s) = s"
proof (induction s)
  case Nil
  then show ?case by simp
next
  case (Cons c s)
  obtain l ls where "split_on d s = l # ls" by (cases "split_on d s") auto
  with Cons show ?case by (cases ls) auto
qed

lemma split_on_append_sep: "d \<notin> set l \<Longrightarrow> split_on d (l @ d # s) = l # split_on d s"
  by (induction l) auto

lemma split_on_word: "d \<notin> set l \<Longrightarrow> split_on d l = [l]"
  by (induction l) auto

lemma split_on_py_join:
  "ls \<noteq> [] \<Longrightarrow> \<forall>l \<in> set ls. d \<notin> set l \<Longrightarrow> split_on d (py_join [d] ls) = ls"
  by (induction "[d]" ls rule: py_join.induct) (auto simp: split_on_word split_on_append_sep)

lemma set_py_join: "set (py_join sep ls) \<subseteq> set sep \<union> (\<Union>l \<in> set ls. set l)"
  by (induction sep ls rule: py_join.induct) auto

lemma split_ws_py_join:
  "py_isspace d \<Longrightarrow> split_ws (py_join [d] ls) = concat (map split_ws ls)"
  by (induction "[d]" ls rule: py_join.induct) (auto simp: split_ws_sep)

lemma split_ws_join_tokens: "list_all is_token ts \<Longrightarrow> split_ws (py_join [32] ts) = ts"
  by (simp add: split_ws_py_join) (induction ts; simp add: split_ws_word)

text \<open>The line boundaries of \<open>str.splitlines\<close>; a CR LF pair is one boundary.\<close>

definition is_linebreak :: "nat \<Rightarrow> bool" where
  "is_linebreak c \<longleftrightarrow> c \<in> {10, 11, 12, 13, 28, 29, 30, 133, 8232, 8233}"

fun splitlines_keep_from :: "pstr \<Rightarrow> pstr \<Rightarrow> pstr list" where
  "splitlines_keep_from cur [] = (if cur = [] then [] else [cur])"
| "splitlines_keep_from cur (c # cs) =
     (if c = 13 \<and> cs \<noteq> [] \<and> hd cs = 10 then (cur @ [13, 10]) # splitlines_keep_from [] (tl cs)
      else if is_linebreak c then (cur @ [c]) # splitlines_keep_from [] cs
      else splitlines_keep_from (cur @ [c]) cs)"

definition splitlines_keep :: "pstr \<Rightarrow> pstr list" where
  "splitlines_keep s = splitlines_keep_from [] s"

lemma concat_splitlines_keep_from: "concat (splitlines_keep_from cur s) = cur @ s"
proof (induction cur s rule: splitlines_keep_from.induct)
  case (1 cur)
  then show ?case by simp
next
  case (2 cur c cs)
  then show ?case by (cases cs) auto
qed

lemma concat_splitlines_keep [simp]: "concat (splitlines_keep s) = s"
  by (simp add: splitlines_keep_def concat_splitlines_keep_from)

text \<open>\<open>s.replace(CR LF, LF)\<close> and \<open>s.replace(CR, LF)\<close>.\<close>

fun replace_crlf :: "pstr \<Rightarrow> pstr" where
  "replace_crlf [] = []"
| "replace_crlf [c] = [c]"
| "replace_crlf (c # d # cs) =
     (if c = 13 \<and> d = 10 then 10 # replace_crlf cs else c # replace_crlf (d # cs))"

definition replace_cr :: "pstr \<Rightarrow> pstr" where
  "replace_cr s = map (\<lambda>c. if c = 13 then 10 else c) s"

definition normalize_newlines :: "pstr \<Rightarrow> pstr" where
  "normalize_newlines s = replace_cr (replace_crlf s)"

lemma replace_crlf_no_cr: "13 \<notin> set s \<Longrightarrow> replace_crlf s = s"
  by (induction s rule: replace_crlf.induct) auto

lemma replace_cr_no_cr: "13 \<notin> set s \<Longrightarrow> replace_cr s = s"
  unfolding replace_cr_def by (rule map_idI) auto

lemma normalize_newlines_no_cr [simp]: "13 \<notin> set (normalize_newlines s)"
  by (auto simp: normalize_newlines_def replace_cr_def)

lemma normalize_newlines_id: "13 \<notin> set s \<Longrightarrow> normalize_newlines s = s"
  by (simp add: normalize_newlines_def replace_crlf_no_cr replace_cr_no_cr)

lemma split_ws_from_replace_cr: "split_ws_from cur (replace_cr s) = split_ws_from cur s"
  by (induction cur s rule: split_ws_from.induct) (auto simp: replace_cr_def)

lemma split_ws_from_crlf: "split_ws_from cur (replace_crlf s) = split_ws_from cur s"
  by (induction s arbitrary: cur rule: replace_crlf.induct) auto

lemma split_ws_normalize_newlines [simp]: "split_ws (normalize_newlines s) = split_ws s"
  by (simp add: split_ws_def normalize_newlines_def split_ws_from_replace_cr split_ws_from_crlf)

section \<open>Case folding\<close>

text \<open>
  \<open>str.lower()\<close>.  ASCII letters, the Kelvin sign and the dotted capital I are written
  out: they are the only code points whose lower case contains an ASCII character.  Every
  other non-ASCII code point keeps the place it has; the source only compares the result
  with ASCII words, for which one non-ASCII code point is as good as another.
\<close>

definition lower_char :: "nat \<Rightarrow> pstr" where
  "lower_char c =
     (if 65 \<le> c \<and> c \<le> 90 then [c + 32]
      else if c = 8490 then [107]
      else if c = 304 then [105, 775]
      else [c])"

definition py_lower :: "pstr \<Rightarrow> pstr" where
  "py_lower s = concat (map lower_char s)"

lemma py_lower_idem [simp]: "py_lower (py_lower s) = py_lower s"
proof -
  have "py_lower (lower_char c) = lower_char c" for c
    by (simp add: py_lower_def lower_char_def)
  then show ?thesis by (induction s) (auto simp: py_lower_def)
qed

section \<open>Decimal numbers\<close>

fun show_nat :: "nat \<Rightarrow> pstr" where
  "show_nat n = (if n < 10 then [48 + n] else show_nat (n div 10) @ [48 + n mod 10])"

declare show_nat.simps [simp del]

definition show_int :: "int \<Rightarrow> pstr" where
  "show_int i = (if i < 0 then 45 # show_nat (nat (- i)) else show_nat (nat i))"

lemma show_nat_not_Nil [simp]: "show_nat n \<noteq> []"
  by (subst show_nat.simps) simp

lemma show_nat_digits: "c \<in> set (show_nat n) \<Longrightarrow> 48 \<le> c \<and> c \<le> 57"
proof (induction n rule: show_nat.induct)
  case (1 n)
  then show ?case by (cases "n < 10") (auto simp: show_nat.simps [of n])
qed

section \<open>Dictionaries with insertion order\<close>

text \<open>
  A Python \<open>dict\<close> keeps insertion order; assigning an existing key keeps its place.
\<close>

fun dict_set :: "'k \<Rightarrow> 'v \<Rightarrow> ('k \<times> 'v) list \<Rightarrow> ('k \<times> 'v) list" where
  "dict_set k v [] = [(k, v)]"
| "dict_set k v ((k', v') # d) = (if k' = k then (k, v) # d else (k', v') # dict_set k v d)"

lemma map_of_dict_set [simp]: "map_of (dict_set k v d) = (map_of d)(k \<mapsto> v)"
  by (induction k v d rule: dict_set.induct) auto

lemma keys_dict_set:
  "map fst (dict_set k v d) = (if k \<in> fst ` set d then map fst d else map fst d @ [k])"
  by (induction k v d rule: dict_set.induct) auto

lemma distinct_dict_set: "distinct (map fst d) \<Longrightarrow> distinct (map fst (dict_set k v d))"
  by (simp add: keys_dict_set)

end
