(* ===== verification/Utf8.thy ===== *)
theory Utf8
  imports Py_Prelude
begin

text \<open>
  \<open>str.encode("utf-8")\<close> and \<open>bytes.decode("utf-8", errors=...)\<close> as the sandboxes use
  them.  Bytes are naturals below 256.  The decoder reports one error for each maximal
  ill-formed part, which \<open>errors="replace"\<close> turns into U+FFFD and \<open>errors="ignore"\<close>
  drops.  The main result is about a byte slice of an encoded string: decoded with
  \<open>ignore\<close>, it is the longest prefix of whole characters that fits in the slice.
\<close>

type_synonym bytes = "nat list"

definition is_surrogate :: "nat \<Rightarrow> bool" where
  "is_surrogate c \<longleftrightarrow> 55296 \<le> c \<and> c \<le> 57343"

definition scalar :: "nat \<Rightarrow> bool" where
  "scalar c \<longleftrightarrow> c < 1114112 \<and> \<not> is_surrogate c"

text \<open>Text that can be encoded: every code point is a Unicode scalar value.\<close>

definition utf8_text :: "pstr \<Rightarrow> bool" where
  "utf8_text s \<longleftrightarrow> list_all scalar s"

lemma utf8_text_simps [simp]:
  "utf8_text []" "utf8_text (c # s) \<longleftrightarrow> scalar c \<and> utf8_text s"
  "utf8_text (s @ t) \<longleftrightarrow> utf8_text s \<and> utf8_text t"
  by (simp_all add: utf8_text_def)

lemma utf8_text_take: "utf8_text s \<Longrightarrow> utf8_text (take n s)"
  using utf8_text_simps(3) [of "take n s" "drop n s"] by simp

lemma utf8_text_concat: "utf8_text (concat ss) \<longleftrightarrow> list_all utf8_text ss"
  by (induction ss) simp_all

definition enc_char :: "nat \<Rightarrow> bytes" where
  "enc_char c =
     (if c < 128 then [c]
      else if c < 2048 then [192 + c div 64, 128 + c mod 64]
      else if c < 65536 then [224 + c div 4096, 128 + c div 64 mod 64, 128 + c mod 64]
      else [240 + c div 262144, 128 + c div 4096 mod 64, 128 + c div 64 mod 64, 128 + c mod 64])"

definition utf8_encode :: "pstr \<Rightarrow> bytes" where
  "utf8_encode s = concat (map enc_char s)"

abbreviation utf8_len :: "pstr \<Rightarrow> nat" where
  "utf8_len s \<equiv> length (utf8_encode s)"

lemma utf8_encode_simps [simp]:
  "utf8_encode [] = []" "utf8_encode (c # s) = enc_char c @ utf8_encode s"
  "utf8_encode (s @ t) = utf8_encode s @ utf8_encode t"
  by (simp_all add: utf8_encode_def)

lemma enc_char_length: "1 \<le> length (enc_char c)" "length (enc_char c) \<le> 4"
  by (simp_all add: enc_char_def)

lemma enc_char_not_Nil [simp]: "enc_char c \<noteq> []"
  by (simp add: enc_char_def)

definition is_cont :: "nat \<Rightarrow> bool" where
  "is_cont b \<longleftrightarrow> 128 \<le> b \<and> b \<le> 191"

text \<open>The range of the second byte after a three or four byte lead.\<close>

definition second_ok :: "nat \<Rightarrow> nat \<Rightarrow> bool" where
  "second_ok b0 b1 \<longleftrightarrow>
     is_cont b1 \<and> (b0 = 224 \<longrightarrow> 160 \<le> b1) \<and> (b0 = 237 \<longrightarrow> b1 \<le> 159) \<and>
     (b0 = 240 \<longrightarrow> 144 \<le> b1) \<and> (b0 = 244 \<longrightarrow> b1 \<le> 143)"

text \<open>
  One step: the code point read, or \<open>None\<close> for an ill-formed part, and the number of
  bytes used up (at least one).
\<close>

definition decode_step :: "nat \<Rightarrow> bytes \<Rightarrow> nat option \<times> nat" where
  "decode_step b0 bs =
     (if b0 < 128 then (Some b0, 1)
      else if 194 \<le> b0 \<and> b0 \<le> 223 then
        (case bs of
           b1 # _ \<Rightarrow> if is_cont b1 then (Some ((b0 - 192) * 64 + (b1 - 128)), 2) else (None, 1)
         | [] \<Rightarrow> (None, 1))
      else if 224 \<le> b0 \<and> b0 \<le> 239 then
        (case bs of
           b1 # bs' \<Rightarrow>
             if second_ok b0 b1 then
               (case bs' of
                  b2 # _ \<Rightarrow>
                    if is_cont b2
                    then (Some ((b0 - 224) * 4096 + (b1 - 128) * 64 + (b2 - 128)), 3)
                    else (None, 2)
                | [] \<Rightarrow> (None, 2))
             else (None, 1)
         | [] \<Rightarrow> (None, 1))
      else if 240 \<le> b0 \<and> b0 \<le> 244 then
        (case bs of
           b1 # bs' \<Rightarrow>
             if second_ok b0 b1 then
               (case bs' of
                  b2 # bs'' \<Rightarrow>
                    if is_cont b2 then
                      (case bs'' of
                         b3 # _ \<Rightarrow>
                           if is_cont b3
                           then (Some ((b0 - 240) * 262144 + (b1 - 128) * 4096
                                       + (b2 - 128) * 64 + (b3 - 128)), 4)
                           else (None, 3)
                       | [] \<Rightarrow> (None, 3))
                    else (None, 2)
                | [] \<Rightarrow> (None, 2))
             else (None, 1)
         | [] \<Rightarrow> (None, 1))
      else (None, 1))"

datatype decode_errors = Ignore_Errors | Replace_Errors

fun emit :: "decode_errors \<Rightarrow> nat option \<Rightarrow> pstr" where
  "emit m (Some c) = [c]"
| "emit Replace_Errors None = [65533]"
| "emit Ignore_Errors None = []"

function utf8_decode :: "decode_errors \<Rightarrow> bytes \<Rightarrow> pstr" where
  "utf8_decode m [] = []"
| "utf8_decode m (b # bs) =
     (let (r, n) = decode_step b bs in emit m r @ utf8_decode m (drop (n - 1) bs))"
  by pat_completeness auto
termination
  by (relation "measure (\<lambda>(m, bs). length bs)") auto

section \<open>Decoding an encoded character\<close>

lemma split_64: "(n::nat) div 64 * 64 + n mod 64 = n"
  by simp

lemma div_64: "(n::nat) div 4096 = n div 64 div 64" "(n::nat) div 262144 = n div 64 div 64 div 64"
  by (simp_all add: div_mult2_eq [symmetric])

lemma enc3_second_ok:
  assumes "scalar c" "2048 \<le> c" "c < 65536"
  shows "second_ok (224 + c div 4096) (128 + c div 64 mod 64)"
proof -
  have ns: "c < 55296 \<or> 57344 \<le> c" using assms(1) by (auto simp: scalar_def is_surrogate_def)
  define x y z where "x = c div 4096" and "y = c div 64 mod 64" and "z = c mod 64"
  have c_eq: "x * 4096 + y * 64 + z = c"
    unfolding x_def y_def z_def div_64
    using split_64 [of c] split_64 [of "c div 64"] by linarith
  have b: "x \<le> 15" "y < 64" "z < 64" using assms by (auto simp: x_def y_def z_def)
  have "x = 0 \<Longrightarrow> 32 \<le> y" "x = 13 \<Longrightarrow> y \<le> 31" using c_eq b assms ns by linarith+
  with b show ?thesis
    by (auto simp: second_ok_def is_cont_def x_def [symmetric] y_def [symmetric])
qed

lemma enc4_second_ok:
  assumes "scalar c" "65536 \<le> c"
  shows "second_ok (240 + c div 262144) (128 + c div 4096 mod 64) \<and> c div 262144 \<le> 4"
proof -
  have c: "c < 1114112" using assms(1) by (simp add: scalar_def)
  define w x y z where "w = c div 262144" and "x = c div 4096 mod 64"
    and "y = c div 64 mod 64" and "z = c mod 64"
  have c_eq: "w * 262144 + x * 4096 + y * 64 + z = c"
    unfolding w_def x_def y_def z_def div_64
    using split_64 [of c] split_64 [of "c div 64"] split_64 [of "c div 64 div 64"] by linarith
  have b: "w \<le> 4" "x < 64" "y < 64" "z < 64" using c by (auto simp: w_def x_def y_def z_def)
  have "w = 0 \<Longrightarrow> 16 \<le> x" "w = 4 \<Longrightarrow> x \<le> 15" using c_eq b assms c by linarith+
  with b show ?thesis
    by (auto simp: second_ok_def is_cont_def w_def [symmetric] x_def [symmetric])
qed

lemma enc_char_cases [consumes 1, case_names one two three four]:
  assumes "scalar c"
  obtains "c < 128" "enc_char c = [c]"
  | "128 \<le> c" "c < 2048" "enc_char c = [192 + c div 64, 128 + c mod 64]"
      "2 \<le> c div 64" "c div 64 \<le> 31"
  | "2048 \<le> c" "c < 65536"
      "enc_char c = [224 + c div 4096, 128 + c div 64 mod 64, 128 + c mod 64]"
      "c div 4096 \<le> 15" "second_ok (224 + c div 4096) (128 + c div 64 mod 64)"
  | "65536 \<le> c"
      "enc_char c = [240 + c div 262144, 128 + c div 4096 mod 64, 128 + c div 64 mod 64,
                     128 + c mod 64]"
      "c div 262144 \<le> 4" "second_ok (240 + c div 262144) (128 + c div 4096 mod 64)"
proof -
  consider "c < 128" | "128 \<le> c" "c < 2048" | "2048 \<le> c" "c < 65536" | "65536 \<le> c"
    by linarith
  then show ?thesis
    by cases (use that enc3_second_ok [OF assms] enc4_second_ok [OF assms]
        in \<open>auto simp: enc_char_def\<close>)
qed

lemma is_cont_low [simp]: "is_cont (128 + n mod 64)"
  by (simp add: is_cont_def)

lemma decode_step_enc:
  assumes "scalar c" and "enc_char c = b # bs"
  shows "decode_step b (bs @ rest) = (Some c, length (enc_char c))"
  using assms(1)
proof (cases rule: enc_char_cases)
  case three
  have "c div 4096 * 4096 + c div 64 mod 64 * 64 + c mod 64 = c"
    unfolding div_64 using split_64 [of c] split_64 [of "c div 64"] by linarith
  with three assms(2) show ?thesis by (auto simp: decode_step_def)
next
  case four
  have "c div 262144 * 262144 + c div 4096 mod 64 * 4096 + c div 64 mod 64 * 64 + c mod 64 = c"
    unfolding div_64
    using split_64 [of c] split_64 [of "c div 64"] split_64 [of "c div 64 div 64"] by linarith
  with four assms(2) show ?thesis by (auto simp: decode_step_def)
qed (use assms(2) in \<open>auto simp: decode_step_def\<close>)

lemma decode_step_cut:
  assumes "scalar c" and "0 < k" and "k < length (enc_char c)"
    and "take k (enc_char c) = b # bs"
  shows "decode_step b bs = (None, k)"
  using assms(1)
proof (cases rule: enc_char_cases)
  case two
  then have "k = 1" using assms(2,3) by auto
  with two assms(4) show ?thesis by (auto simp: decode_step_def)
next
  case three
  then have "k = 1 \<or> k = 2" using assms(2,3) by auto
  with three assms(4) show ?thesis by (auto simp: decode_step_def)
next
  case four
  then have "k = 1 \<or> k = 2 \<or> k = 3" using assms(2,3) by auto
  with four assms(4) show ?thesis by (auto simp: decode_step_def numeral_3_eq_3)
qed (use assms in \<open>auto simp: decode_step_def\<close>)

lemma utf8_decode_enc_char:
  assumes "scalar c"
  shows "utf8_decode m (enc_char c @ rest) = c # utf8_decode m rest"
proof -
  obtain b bs where e: "enc_char c = b # bs" by (cases "enc_char c") auto
  from decode_step_enc [OF assms e] have "decode_step b (bs @ rest) = (Some c, Suc (length bs))"
    using e by simp
  then show ?thesis by (simp add: e)
qed

lemma utf8_roundtrip: "utf8_text s \<Longrightarrow> utf8_decode m (utf8_encode s) = s"
proof (induction s)
  case Nil
  then show ?case by simp
next
  case (Cons c s)
  then show ?case using utf8_decode_enc_char [of c m "utf8_encode s"] by simp
qed

section \<open>Decoding a byte slice\<close>

text \<open>The longest prefix of whole characters that fits in \<open>k\<close> bytes.\<close>

fun fit_bytes :: "nat \<Rightarrow> pstr \<Rightarrow> pstr" where
  "fit_bytes k [] = []"
| "fit_bytes k (c # cs) =
     (if length (enc_char c) \<le> k then c # fit_bytes (k - length (enc_char c)) cs else [])"

lemma fit_bytes_prefix: "prefix (fit_bytes k s) s"
  by (induction k s rule: fit_bytes.induct) auto

lemma fit_bytes_len: "utf8_len (fit_bytes k s) \<le> k"
  by (induction k s rule: fit_bytes.induct) auto

lemma fit_bytes_maximal: "prefix p s \<Longrightarrow> utf8_len p \<le> k \<Longrightarrow> prefix p (fit_bytes k s)"
proof (induction k s arbitrary: p rule: fit_bytes.induct)
  case (1 k)
  then show ?case by simp
next
  case (2 k c cs)
  show ?case
  proof (cases p)
    case (Cons d q)
    with 2 show ?thesis by auto
  qed simp
qed

lemma utf8_decode_cut_char:
  assumes "scalar c" and "k < length (enc_char c)"
  shows "utf8_decode Ignore_Errors (take k (enc_char c)) = []"
proof (cases "k = 0")
  case False
  then obtain b bs where t: "take k (enc_char c) = b # bs"
    by (cases "take k (enc_char c)") auto
  have "length (b # bs) = k" using assms(2) t by (metis length_take min.absorb4)
  moreover have "decode_step b bs = (None, k)"
    using decode_step_cut [OF assms(1) _ assms(2) t] False by simp
  ultimately show ?thesis using t by auto
qed simp

lemma utf8_decode_slice:
  "utf8_text s \<Longrightarrow> utf8_decode Ignore_Errors (take k (utf8_encode s)) = fit_bytes k s"
proof (induction k s rule: fit_bytes.induct)
  case (2 k c cs)
  show ?case
  proof (cases "length (enc_char c) \<le> k")
    case True
    with 2 show ?thesis by (simp add: utf8_decode_enc_char)
  next
    case False
    with 2 show ?thesis by (simp add: utf8_decode_cut_char)
  qed
qed simp

text \<open>Whatever the bytes, the decoded text can be encoded again.\<close>

lemma scalar_dec2: "194 \<le> b \<Longrightarrow> b \<le> 223 \<Longrightarrow> is_cont b1 \<Longrightarrow> scalar ((b - 192) * 64 + (b1 - 128))"
  by (auto simp: scalar_def is_surrogate_def is_cont_def)

lemma scalar_dec3:
  assumes "224 \<le> b" "b \<le> 239" "second_ok b b1" "is_cont b2"
  shows "scalar ((b - 224) * 4096 + (b1 - 128) * 64 + (b2 - 128))"
proof -
  obtain i j k where e: "b = 224 + i" "b1 = 128 + j" "b2 = 128 + k"
    using assms by (auto simp: second_ok_def is_cont_def le_iff_add)
  with assms have b: "i \<le> 15" "j \<le> 63" "k \<le> 63" "i \<noteq> 13 \<or> j \<le> 31"
    by (auto simp: second_ok_def is_cont_def)
  consider "i \<le> 12" | "i = 13" "j \<le> 31" | "14 \<le> i" using b(4) by linarith
  then have "i * 4096 + j * 64 + k < 65536 \<and>
      (i * 4096 + j * 64 + k < 55296 \<or> 57344 \<le> i * 4096 + j * 64 + k)"
    by cases (use b(1-3) in linarith)+
  then have "scalar (i * 4096 + j * 64 + k)"
    unfolding scalar_def is_surrogate_def by linarith
  then show ?thesis by (simp add: e)
qed

lemma scalar_dec4:
  assumes "240 \<le> b" "b \<le> 244" "second_ok b b1" "is_cont b2" "is_cont b3"
  shows "scalar ((b - 240) * 262144 + (b1 - 128) * 4096 + (b2 - 128) * 64 + (b3 - 128))"
proof -
  obtain h i j k where e: "b = 240 + h" "b1 = 128 + i" "b2 = 128 + j" "b3 = 128 + k"
    using assms by (auto simp: second_ok_def is_cont_def le_iff_add)
  with assms have b: "h \<le> 4" "i \<le> 63" "j \<le> 63" "k \<le> 63" "h \<noteq> 4 \<or> i \<le> 15" "h \<noteq> 0 \<or> 16 \<le> i"
    by (auto simp: second_ok_def is_cont_def)
  consider "h = 0" "16 \<le> i" | "h = 4" "i \<le> 15" | "1 \<le> h" "h \<le> 3" using b(1,5,6) by linarith
  then have "h * 262144 + i * 4096 + j * 64 + k < 1114112 \<and>
      65536 \<le> h * 262144 + i * 4096 + j * 64 + k"
    by cases (use b(2-4) in linarith)+
  then have "scalar (h * 262144 + i * 4096 + j * 64 + k)"
    unfolding scalar_def is_surrogate_def by linarith
  then show ?thesis by (simp add: e)
qed

lemma decode_step_scalar: "decode_step b bs = (Some c, n) \<Longrightarrow> scalar c"
  unfolding decode_step_def
  using scalar_dec2 scalar_dec3 scalar_dec4
  by (auto split: if_splits list.splits) (simp add: scalar_def is_surrogate_def)

lemma emit_text: "(\<And>c. r = Some c \<Longrightarrow> scalar c) \<Longrightarrow> utf8_text (emit m r)"
  by (cases r; cases m) (auto simp: scalar_def is_surrogate_def)

lemma utf8_decode_text: "utf8_text (utf8_decode m bs)"
proof (induction m bs rule: utf8_decode.induct)
  case (2 m b bs)
  obtain r n where d: "decode_step b bs = (r, n)" by (cases "decode_step b bs")
  then have "utf8_text (utf8_decode m (drop (n - 1) bs))" using "2.IH" by simp
  moreover have "utf8_text (emit m r)" using decode_step_scalar d by (intro emit_text) auto
  ultimately show ?case using d by simp
qed simp

end
