(* ===== verification/Binary64.thy ===== *)
theory Binary64
  imports Complex_Main "HOL-Library.Log_Nat" Py_Prelude
begin

text \<open>
  Python's \<open>float\<close>: IEEE 754 binary64 with round-to-nearest-even, written over the
  rationals.  \<open>fl x\<close> rounds an exact value to the nearest double, with subnormals and
  overflow to infinity; an arithmetic operation is the exact operation followed by
  \<open>fl\<close>.  The two zeros are not told apart: nothing in the source does.  \<open>py_float\<close> is
  \<open>float(token)\<close> on a token without whitespace.
\<close>

datatype pyfloat = Fin rat | PInf | NInf | NaN

section \<open>Rounding\<close>

definition rnd_even :: "rat \<Rightarrow> int" where
  "rnd_even x =
     (let f = \<lfloor>x\<rfloor>; d = x - of_int f
      in if d < 1 / 2 then f else if 1 / 2 < d then f + 1 else if even f then f else f + 1)"

lemma rnd_even_of_int [simp]: "rnd_even (of_int n) = n"
  by (simp add: rnd_even_def)

lemma rnd_even_floor: "\<lfloor>x\<rfloor> \<le> rnd_even x" "rnd_even x \<le> \<lfloor>x\<rfloor> + 1"
  by (auto simp: rnd_even_def Let_def)

lemma rnd_even_le: "x \<le> of_int n \<Longrightarrow> rnd_even x \<le> n"
proof -
  assume le: "x \<le> of_int n"
  then have "\<lfloor>x\<rfloor> \<le> n" using floor_mono [OF le] by simp
  then consider "\<lfloor>x\<rfloor> < n" | "\<lfloor>x\<rfloor> = n" by linarith
  then show ?thesis
  proof cases
    case 1
    then show ?thesis using rnd_even_floor(2) [of x] by linarith
  next
    case 2
    then have "x = of_int n" using le by linarith
    then show ?thesis by simp
  qed
qed

lemma rnd_even_ge: "of_int n \<le> x \<Longrightarrow> n \<le> rnd_even x"
  using rnd_even_floor(1) [of x] by (simp add: le_floor_iff [symmetric])

definition ilog2 :: "rat \<Rightarrow> int" where
  "ilog2 a =
     (let (n, d) = quotient_of a; e = bitlen n - bitlen d
      in if 2 powi e \<le> a then e else e - 1)"

lemma ilog2_upper: "0 < a \<Longrightarrow> a < 2 powi (ilog2 a + 1)"
proof -
  assume a: "0 < a"
  obtain n d where q: "quotient_of a = (n, d)" by (cases "quotient_of a")
  have d: "0 < d" using quotient_of_denom_pos [OF q] .
  have a_eq: "a = of_int n / of_int d" using quotient_of_div [OF q] .
  have n: "0 < n" using a a_eq d by (simp add: zero_less_divide_iff)
  have "n < 2 ^ nat (bitlen n)" using bitlen_bounds [OF n] by simp
  then have n_lt: "(of_int n :: rat) < 2 powi bitlen n"
    using bitlen_nonneg [of n] by (simp add: power_int_def)
  have "2 ^ nat (bitlen d - 1) \<le> d" using bitlen_bounds [OF d] by simp
  moreover have "0 \<le> bitlen d - 1" using bitlen_eq_zero_iff [of d] bitlen_nonneg [of d] d by linarith
  ultimately have d_ge: "(2::rat) powi (bitlen d - 1) \<le> of_int d"
    by (simp add: power_int_def)
  have "a < 2 powi bitlen n / 2 powi (bitlen d - 1)"
    unfolding a_eq using n_lt d_ge d n by (intro frac_less) auto
  also have "\<dots> = 2 powi (bitlen n - bitlen d + 1)"
    by (simp add: power_int_diff [symmetric] algebra_simps)
  finally show ?thesis by (auto simp: ilog2_def q Let_def)
qed

lemma ilog2_less: "0 < a \<Longrightarrow> a < 2 powi k \<Longrightarrow> ilog2 a < k"
proof -
  assume a: "0 < a" "a < 2 powi k"
  have "(2::rat) powi ilog2 a \<le> a"
  proof -
    obtain n d where q: "quotient_of a = (n, d)" by (cases "quotient_of a")
    have d: "0 < d" using quotient_of_denom_pos [OF q] .
    have a_eq: "a = of_int n / of_int d" using quotient_of_div [OF q] .
    have n: "0 < n" using a a_eq d by (simp add: zero_less_divide_iff)
    have "d < 2 ^ nat (bitlen d)" using bitlen_bounds [OF d] by simp
    then have d_lt: "(of_int d :: rat) < 2 powi bitlen d"
      using bitlen_nonneg [of d] by (simp add: power_int_def)
    have "2 ^ nat (bitlen n - 1) \<le> n" using bitlen_bounds [OF n] by simp
    moreover have "0 \<le> bitlen n - 1" using bitlen_eq_zero_iff [of n] bitlen_nonneg [of n] n by linarith
    ultimately have n_ge: "(2::rat) powi (bitlen n - 1) \<le> of_int n"
      by (simp add: power_int_def)
    have "2 powi (bitlen n - bitlen d - 1) = 2 powi (bitlen n - 1) / (2::rat) powi bitlen d"
      by (simp add: power_int_diff [symmetric] algebra_simps)
    also have "\<dots> \<le> a"
      unfolding a_eq using n_ge d_lt d n by (intro frac_le) auto
    finally show ?thesis by (auto simp: ilog2_def q Let_def)
  qed
  then have "(2::rat) powi ilog2 a < 2 powi k" using a by simp
  then show ?thesis using power_int_increasing [of k "ilog2 a" "2::rat"] by (cases "k \<le> ilog2 a") auto
qed

definition fl :: "rat \<Rightarrow> pyfloat" where
  "fl x =
     (if x = 0 then Fin 0
      else let e = max (- 1074) (ilog2 \<bar>x\<bar> - 52);
               v = of_int (rnd_even (\<bar>x\<bar> / 2 powi e)) * 2 powi e
           in if 2 ^ 1024 \<le> v then (if x < 0 then NInf else PInf)
              else Fin (if x < 0 then - v else v))"

lemma fl_0 [simp]: "fl 0 = Fin 0"
  by (simp add: fl_def)

lemma fl_nonzero:
  assumes "x \<noteq> 0" "e = max (- 1074) (ilog2 \<bar>x\<bar> - 52)"
    and "v = of_int (rnd_even (\<bar>x\<bar> / 2 powi e)) * 2 powi e" "v < 2 ^ 1024"
  shows "fl x = Fin (if x < 0 then - v else v)"
  using assms(1,4) unfolding fl_def Let_def assms(2,3) [symmetric] by (simp split del: if_split)

text \<open>Below \<open>2 ^ 52\<close> the rounding unit divides every integer, so integer bounds survive.\<close>

lemma fl_unit_int:
  assumes "e \<le> (0::int)"
  shows "\<exists>m :: int. (of_int n :: rat) / 2 powi e = of_int m"
proof -
  have "(2::rat) powi e = inverse (2 ^ nat (- e))"
    using assms power_int_minus [of "2::rat" "- e"] by (simp add: power_int_nonneg_exp)
  then have "(of_int n :: rat) / 2 powi e = of_int (n * 2 ^ nat (- e))"
    by (simp add: divide_inverse)
  then show ?thesis by blast
qed

lemma fl_int_bound:
  assumes "0 \<le> x" "x \<le> of_int B" "B < 2 ^ 52"
  obtains y where "fl x = Fin y" "0 \<le> y" "y \<le> of_int B"
proof (cases "x = 0")
  case True
  then show ?thesis using that [of 0] assms by simp
next
  case False
  then have x: "0 < x" using assms(1) by simp
  define e where "e = max (- 1074) (ilog2 \<bar>x\<bar> - 52)"
  define v where "v = of_int (rnd_even (\<bar>x\<bar> / 2 powi e)) * (2::rat) powi e"
  have "(of_int B :: rat) < 2 powi 52" using assms(3) by (simp add: power_int_def)
  with assms(2) have "x < 2 powi 52" by (rule le_less_trans)
  then have e: "e \<le> 0" using ilog2_less [OF x] x by (fastforce simp: e_def)
  obtain m :: int where m: "(of_int B :: rat) / 2 powi e = of_int m" using fl_unit_int [OF e] by blast
  have p: "(0::rat) < 2 powi e" by simp
  have "\<bar>x\<bar> / 2 powi e \<le> of_int m" using assms(2) x p m [symmetric] by (simp add: divide_right_mono)
  then have "rnd_even (\<bar>x\<bar> / 2 powi e) \<le> m" by (rule rnd_even_le)
  then have "v \<le> of_int m * 2 powi e" using p by (simp add: v_def)
  also have "\<dots> = of_int B" using m p by (simp add: field_simps)
  finally have vB: "v \<le> of_int B" .
  have "0 \<le> rnd_even (\<bar>x\<bar> / 2 powi e)" using p by (intro rnd_even_ge) simp
  then have v0: "0 \<le> v" using p by (simp add: v_def)
  have "(of_int B :: rat) < 2 ^ 1024"
  proof -
    have "B < 2 ^ 1024" using assms(3) by (rule less_le_trans) simp
    then show ?thesis by (metis of_int_less_iff of_int_numeral of_int_power)
  qed
  then have "fl x = Fin (if x < 0 then - v else v)"
    using x vB by (intro fl_nonzero) (simp_all add: e_def v_def)
  then have "fl x = Fin v" using x by simp
  then show ?thesis using that vB v0 by blast
qed

lemma fl_of_int:
  assumes "\<bar>n\<bar> < 2 ^ 52"
  shows "fl (of_int n) = Fin (of_int n)"
proof (cases "n = 0")
  case False
  define e where "e = max (- 1074) (ilog2 \<bar>of_int n\<bar> - 52)"
  have n: "0 < \<bar>of_int n :: rat\<bar>" using False by simp
  have n52: "\<bar>of_int n :: rat\<bar> < 2 powi 52"
    using assms by (simp add: power_int_def)
  then have e: "e \<le> 0" using ilog2_less [OF n] by (fastforce simp: e_def)
  obtain m :: int where m: "(of_int \<bar>n\<bar> :: rat) / 2 powi e = of_int m" using fl_unit_int [OF e] by blast
  define v where "v = of_int (rnd_even (\<bar>of_int n\<bar> / 2 powi e)) * (2::rat) powi e"
  have v: "v = \<bar>of_int n\<bar>" using m by (simp add: v_def field_simps)
  have "v < 2 ^ 1024"
    unfolding v using n52 by (rule less_le_trans) (simp add: power_int_def)
  then have "fl (of_int n) = Fin (if (of_int n :: rat) < 0 then - v else v)"
    using False
    by (intro fl_nonzero) (simp_all add: e_def v_def)
  then show ?thesis by (simp add: v)
qed simp

section \<open>Operations\<close>

fun float_abs :: "pyfloat \<Rightarrow> pyfloat" where
  "float_abs (Fin a) = Fin \<bar>a\<bar>"
| "float_abs NaN = NaN"
| "float_abs _ = PInf"

fun float_sub :: "pyfloat \<Rightarrow> pyfloat \<Rightarrow> pyfloat" where
  "float_sub NaN _ = NaN"
| "float_sub _ NaN = NaN"
| "float_sub (Fin a) (Fin b) = fl (a - b)"
| "float_sub (Fin a) PInf = NInf"
| "float_sub (Fin a) NInf = PInf"
| "float_sub PInf PInf = NaN"
| "float_sub NInf NInf = NaN"
| "float_sub PInf _ = PInf"
| "float_sub NInf _ = NInf"

text \<open>Division of a float by a positive one (the only divisors of the source).\<close>

fun float_div :: "pyfloat \<Rightarrow> pyfloat \<Rightarrow> pyfloat" where
  "float_div (Fin a) (Fin b) = (if b = 0 then NaN else fl (a / b))"
| "float_div (Fin a) PInf = Fin 0"
| "float_div PInf (Fin b) = PInf"
| "float_div NInf (Fin b) = NInf"
| "float_div _ _ = NaN"

fun float_less :: "pyfloat \<Rightarrow> pyfloat \<Rightarrow> bool" where
  "float_less NaN _ = False"
| "float_less _ NaN = False"
| "float_less (Fin a) (Fin b) = (a < b)"
| "float_less (Fin _) PInf = True"
| "float_less (Fin _) NInf = False"
| "float_less PInf _ = False"
| "float_less NInf y = (y \<noteq> NInf)"

fun float_le :: "pyfloat \<Rightarrow> pyfloat \<Rightarrow> bool" where
  "float_le NaN _ = False"
| "float_le _ NaN = False"
| "float_le (Fin a) (Fin b) = (a \<le> b)"
| "float_le (Fin _) PInf = True"
| "float_le (Fin _) NInf = False"
| "float_le PInf y = (y = PInf)"
| "float_le NInf _ = True"

text \<open>\<open>max(a, b)\<close> keeps \<open>a\<close> unless \<open>b\<close> is greater.\<close>

definition float_max :: "pyfloat \<Rightarrow> pyfloat \<Rightarrow> pyfloat" where
  "float_max a b = (if float_less a b then b else a)"

definition is_finite :: "pyfloat \<Rightarrow> bool" where
  "is_finite x \<longleftrightarrow> (case x of Fin _ \<Rightarrow> True | _ \<Rightarrow> False)"

text \<open>\<open>round(x, 1)\<close>: the exact value to one decimal, ties to even, then to a float.\<close>

fun float_round1 :: "pyfloat \<Rightarrow> pyfloat" where
  "float_round1 (Fin a) = fl (of_int (rnd_even (a * 10)) / 10)"
| "float_round1 x = x"

lemma float_sub_self: "is_finite x \<Longrightarrow> float_sub x x = Fin 0"
  by (cases x) (simp_all add: is_finite_def)

section \<open>Parsing\<close>

text \<open>The zeros of Unicode's decimal digits (category Nd), which \<open>float()\<close> accepts.\<close>

definition decimal_zeros :: "nat list" where
  "decimal_zeros =
    [48, 1632, 1776, 1984, 2406, 2534, 2662, 2790, 2918, 3046, 3174, 3302, 3430, 3558, 3664,
     3792, 3872, 4160, 4240, 6112, 6160, 6470, 6608, 6784, 6800, 6992, 7088, 7232, 7248,
     42528, 43216, 43264, 43472, 43504, 43600, 44016, 65296, 66720, 68912, 69734, 69872,
     69942, 70096, 70384, 70736, 70864, 71248, 71360, 71472, 71904, 72016, 72784, 73040,
     73120, 73552, 92768, 92864, 93008, 120782, 120792, 120802, 120812, 120822, 123200,
     123632, 124144, 125264, 130032]"

definition to_ascii_decimal :: "nat \<Rightarrow> nat" where
  "to_ascii_decimal c =
     (if c < 128 then c
      else case find (\<lambda>z. z \<le> c \<and> c < z + 10) decimal_zeros of
             Some z \<Rightarrow> 48 + (c - z)
           | None \<Rightarrow> 63)"

definition is_digit :: "nat \<Rightarrow> bool" where
  "is_digit c \<longleftrightarrow> 48 \<le> c \<and> c \<le> 57"

text \<open>An underscore is allowed between two digits only.\<close>

fun drop_underscores :: "nat \<Rightarrow> pstr \<Rightarrow> pstr option" where
  "drop_underscores prev [] = (if prev = 95 then None else Some [])"
| "drop_underscores prev (c # cs) =
     (if c = 95 then (if is_digit prev then drop_underscores c cs else None)
      else if prev = 95 \<and> \<not> is_digit c then None
      else map_option (Cons c) (drop_underscores c cs))"

definition digits_value :: "pstr \<Rightarrow> int" where
  "digits_value ds = foldl (\<lambda>v d. v * 10 + (int d - 48)) 0 ds"

text \<open>A leading sign: whether it is a minus, and the rest.\<close>

fun read_sign :: "pstr \<Rightarrow> bool \<times> pstr" where
  "read_sign [] = (False, [])"
| "read_sign (c # cs) = (if c = 45 then (True, cs) else if c = 43 then (False, cs) else (False, c # cs))"

definition read_exponent :: "pstr \<Rightarrow> int option" where
  "read_exponent s =
     (case s of
        [] \<Rightarrow> Some 0
      | c # cs \<Rightarrow>
          if c = 69 \<or> c = 101 then
            (let (neg, ds) = read_sign cs
             in if ds \<noteq> [] \<and> list_all is_digit ds
                then Some (if neg then - digits_value ds else digits_value ds) else None)
          else None)"

definition read_decimal :: "pstr \<Rightarrow> rat option" where
  "read_decimal s =
     (let ip = takeWhile is_digit s; r = dropWhile is_digit s;
          has_point = (r \<noteq> [] \<and> hd r = 46);
          fp = (if has_point then takeWhile is_digit (tl r) else []);
          r' = (if has_point then dropWhile is_digit (tl r) else r)
      in if ip = [] \<and> fp = [] then None
         else map_option
                (\<lambda>e. of_int (digits_value (ip @ fp)) * 10 powi (e - int (length fp)))
                (read_exponent r'))"

text \<open>\<open>float(tok)\<close>; \<open>None\<close> is the \<open>ValueError\<close>.\<close>

definition py_float :: "pstr \<Rightarrow> pyfloat option" where
  "py_float tok =
     (case drop_underscores 0 (map to_ascii_decimal tok) of
        None \<Rightarrow> None
      | Some s \<Rightarrow>
          (let (neg, body) = read_sign s; word = py_lower body
           in if word = lit ''inf'' \<or> word = lit ''infinity'' then Some (if neg then NInf else PInf)
              else if word = lit ''nan'' then Some NaN
              else map_option (\<lambda>v. fl (if neg then - v else v)) (read_decimal body)))"

end
