(* ===== verification/Sandbox_Models.thy ===== *)
theory Sandbox_Models
  imports Py_Prelude Utf8 Binary64
begin

text \<open>
  The data of the execution engine (worker/sandbox/models.py): the status, driver and
  stream event enumerations, a streamed chunk, an execution request with the bounds
  pydantic checks when one is built, and an execution result.  A chunk's timestamp is a
  clock reading and is given to the multiplexer instead of being stored in the chunk.
\<close>

section \<open>Exceptions\<close>

text \<open>
  The exceptions the model tells apart.  pydantic's \<open>ValidationError\<close> is a subclass of
  \<open>ValueError\<close>; \<open>OtherError\<close> carries \<open>str(exc)\<close> of any other exception.
\<close>

datatype py_exn = ValueError pstr | ValidationError pstr | OverflowError | OtherError pstr

fun is_value_error :: "py_exn \<Rightarrow> bool" where
  "is_value_error (ValueError _) = True"
| "is_value_error (ValidationError _) = True"
| "is_value_error _ = False"

fun exn_str :: "py_exn \<Rightarrow> pstr" where
  "exn_str (ValueError m) = m"
| "exn_str (ValidationError m) = m"
| "exn_str OverflowError = lit ''int too large to convert to float''"
| "exn_str (OtherError m) = m"

section \<open>Enumerations\<close>

datatype execution_status =
    ES_COMPLETED | ES_COMPILE_ERROR | ES_TIME_LIMIT_EXCEEDED | ES_MEMORY_LIMIT_EXCEEDED
  | ES_OUTPUT_LIMIT_EXCEEDED | ES_RUNTIME_ERROR | ES_RESOURCE_LIMIT_EXCEEDED
  | ES_SECURITY_VIOLATION | ES_SYSTEM_ERROR

fun status_value :: "execution_status \<Rightarrow> pstr" where
  "status_value ES_COMPLETED = lit ''COMPLETED''"
| "status_value ES_COMPILE_ERROR = lit ''COMPILE_ERROR''"
| "status_value ES_TIME_LIMIT_EXCEEDED = lit ''TIME_LIMIT_EXCEEDED''"
| "status_value ES_MEMORY_LIMIT_EXCEEDED = lit ''MEMORY_LIMIT_EXCEEDED''"
| "status_value ES_OUTPUT_LIMIT_EXCEEDED = lit ''OUTPUT_LIMIT_EXCEEDED''"
| "status_value ES_RUNTIME_ERROR = lit ''RUNTIME_ERROR''"
| "status_value ES_RESOURCE_LIMIT_EXCEEDED = lit ''RESOURCE_LIMIT_EXCEEDED''"
| "status_value ES_SECURITY_VIOLATION = lit ''SECURITY_VIOLATION''"
| "status_value ES_SYSTEM_ERROR = lit ''SYSTEM_ERROR''"

lemma status_value_inject [simp]: "status_value a = status_value b \<longleftrightarrow> a = b"
  by (cases a; cases b) simp_all

datatype sandbox_driver_type = DT_PROCESS | DT_DOCKER | DT_MICROVM | DT_AUTO

fun driver_value :: "sandbox_driver_type \<Rightarrow> pstr" where
  "driver_value DT_PROCESS = lit ''process''"
| "driver_value DT_DOCKER = lit ''docker''"
| "driver_value DT_MICROVM = lit ''microvm''"
| "driver_value DT_AUTO = lit ''auto''"

datatype stream_event_type = STDOUT | STDERR | STATUS | ERROR | COMPLETE

fun event_value :: "stream_event_type \<Rightarrow> pstr" where
  "event_value STDOUT = lit ''stdout''"
| "event_value STDERR = lit ''stderr''"
| "event_value STATUS = lit ''status''"
| "event_value ERROR = lit ''error''"
| "event_value COMPLETE = lit ''complete''"

lemma event_value_inject [simp]: "event_value a = event_value b \<longleftrightarrow> a = b"
  by (cases a; cases b) simp_all

section \<open>Chunks, requests and results\<close>

record stream_chunk =
  ck_event :: stream_event_type
  ck_data :: pstr

abbreviation chunk :: "stream_event_type \<Rightarrow> pstr \<Rightarrow> stream_chunk" where
  "chunk e d \<equiv> \<lparr>ck_event = e, ck_data = d\<rparr>"

record execution_request =
  rq_source_code :: pstr
  rq_language :: pstr
  rq_stdin_data :: "pstr option"
  rq_timeout_seconds :: pyfloat
  rq_memory_limit :: pstr
  rq_cpu_quota :: int
  rq_max_pids :: int
  rq_max_output_bytes :: int

text \<open>The bounds on the fields: \<open>max_length=65536\<close>, \<open>ge=0.5\<close>, \<open>le=120.0\<close>.\<close>

definition request_valid :: "execution_request \<Rightarrow> bool" where
  "request_valid r \<longleftrightarrow>
     length (rq_source_code r) \<le> 65536 \<and>
     float_le (Fin (1 / 2)) (rq_timeout_seconds r) \<and> float_le (rq_timeout_seconds r) (Fin 120)"

text \<open>\<open>ExecutionRequest(...)\<close>: the record, or the validation error.\<close>

definition build_request :: "execution_request \<Rightarrow> py_exn + execution_request" where
  "build_request r =
     (if request_valid r then Inr r else Inl (ValidationError (lit ''ExecutionRequest'')))"

text \<open>The defaults of the fields a caller leaves out.\<close>

definition default_request :: "pstr \<Rightarrow> execution_request" where
  "default_request src =
     \<lparr>rq_source_code = src, rq_language = lit ''python'', rq_stdin_data = None,
      rq_timeout_seconds = Fin 5, rq_memory_limit = lit ''128m'', rq_cpu_quota = 50000,
      rq_max_pids = 64, rq_max_output_bytes = 1048576\<rparr>"

record execution_result =
  rs_status :: execution_status
  rs_exit_code :: "int option"
  rs_stdout :: pstr
  rs_stderr :: pstr
  rs_execution_time_ms :: int
  rs_peak_memory_bytes :: "int option"
  rs_error_message :: "pstr option"
  rs_compile_output :: pstr

text \<open>A result with the default of every field but the status.\<close>

definition default_result :: "execution_status \<Rightarrow> execution_result" where
  "default_result st =
     \<lparr>rs_status = st, rs_exit_code = None, rs_stdout = [], rs_stderr = [],
      rs_execution_time_ms = 0, rs_peak_memory_bytes = None, rs_error_message = None,
      rs_compile_output = []\<rparr>"

end
