(* ===== verification/Stream_Consumer.thy ===== *)
theory Stream_Consumer
  imports Sandbox_Models
begin

text \<open>
  The output stream consumer (worker/sandbox/stream_consumer.py): it counts the bytes of
  both streams against one ceiling, cuts the chunk of standard output that crosses it at
  a character boundary, drops the chunk of standard error that crosses it, and accepts
  nothing afterwards.  Every sandbox driver captures output through one, so its contract
  is the locale \<open>bounded_sink\<close>, interpreted below on the code's own operations.
\<close>

record stream_consumer =
  sc_max_bytes :: int
  sc_total_bytes :: int
  sc_limit_exceeded :: bool
  sc_stdout_buffer :: "pstr list"
  sc_stderr_buffer :: "pstr list"

definition new_consumer :: "int \<Rightarrow> stream_consumer" where
  "new_consumer m =
     \<lparr>sc_max_bytes = m, sc_total_bytes = 0, sc_limit_exceeded = False,
      sc_stdout_buffer = [], sc_stderr_buffer = []\<rparr>"

definition limit_notice :: "int \<Rightarrow> pstr" where
  "limit_notice m =
     [10, 10] @ lit ''[SYSTEM: Output limit of '' @ show_int m @
     lit '' bytes exceeded. Stream terminated.]''"

definition consume_stdout :: "pstr \<Rightarrow> stream_consumer \<Rightarrow> stream_chunk option \<times> stream_consumer" where
  "consume_stdout ch c =
     (if sc_limit_exceeded c then (None, c)
      else
        let chunk_bytes = int (utf8_len ch) in
        if sc_total_bytes c + chunk_bytes > sc_max_bytes c then
          let allowed_bytes = max 0 (sc_max_bytes c - sc_total_bytes c);
              truncated_chunk =
                utf8_decode Ignore_Errors (take (nat allowed_bytes) (utf8_encode ch))
          in (Some (chunk STDOUT (truncated_chunk @ limit_notice (sc_max_bytes c))),
              c\<lparr>sc_total_bytes := sc_total_bytes c + allowed_bytes,
                sc_limit_exceeded := True,
                sc_stdout_buffer := sc_stdout_buffer c @ [truncated_chunk]\<rparr>)
        else
          (Some (chunk STDOUT ch),
           c\<lparr>sc_total_bytes := sc_total_bytes c + chunk_bytes,
             sc_stdout_buffer := sc_stdout_buffer c @ [ch]\<rparr>))"

definition stderr_notice :: pstr where
  "stderr_notice = 10 # lit ''[SYSTEM: Output limit exceeded. Standard error stream truncated.]''"

definition consume_stderr :: "pstr \<Rightarrow> stream_consumer \<Rightarrow> stream_chunk option \<times> stream_consumer" where
  "consume_stderr ch c =
     (if sc_limit_exceeded c then (None, c)
      else
        let chunk_bytes = int (utf8_len ch) in
        if sc_total_bytes c + chunk_bytes > sc_max_bytes c then
          (Some (chunk STDERR stderr_notice), c\<lparr>sc_limit_exceeded := True\<rparr>)
        else
          (Some (chunk STDERR ch),
           c\<lparr>sc_total_bytes := sc_total_bytes c + chunk_bytes,
             sc_stderr_buffer := sc_stderr_buffer c @ [ch]\<rparr>))"

definition get_full_stdout :: "stream_consumer \<Rightarrow> pstr" where
  "get_full_stdout c = concat (sc_stdout_buffer c)"

definition get_full_stderr :: "stream_consumer \<Rightarrow> pstr" where
  "get_full_stderr c = concat (sc_stderr_buffer c)"

text \<open>A chunk read from one of the two streams, and the consumer's reaction to it.\<close>

datatype feed = Out pstr | Err pstr

fun consume :: "feed \<Rightarrow> stream_consumer \<Rightarrow> stream_chunk option \<times> stream_consumer" where
  "consume (Out s) c = consume_stdout s c"
| "consume (Err s) c = consume_stderr s c"

fun feed_text :: "feed \<Rightarrow> pstr" where
  "feed_text (Out s) = s"
| "feed_text (Err s) = s"

abbreviation feed_ok :: "feed \<Rightarrow> bool" where
  "feed_ok f \<equiv> utf8_text (feed_text f)"

text \<open>A run over a sequence of chunks: what is sent on, and the final state.\<close>

fun run_sink :: "('f \<Rightarrow> 's \<Rightarrow> 'o option \<times> 's) \<Rightarrow> 'f list \<Rightarrow> 's \<Rightarrow> 'o list \<times> 's" where
  "run_sink put [] s = ([], s)"
| "run_sink put (f # fs) s =
     (let r = put f s; rest = run_sink put fs (snd r)
      in ((case fst r of None \<Rightarrow> [] | Some x \<Rightarrow> [x]) @ fst rest, snd rest))"

lemma run_sink_append:
  "snd (run_sink put (fs @ gs) s) = snd (run_sink put gs (snd (run_sink put fs s)))"
  by (induction fs arbitrary: s) (simp_all add: Let_def)

section \<open>The interface: a sink with a byte ceiling\<close>

locale bounded_sink =
  fixes put :: "'f \<Rightarrow> 's \<Rightarrow> 'o option \<times> 's"
    and good :: "'f \<Rightarrow> bool"
    and inv :: "'s \<Rightarrow> bool"
    and kept :: "'s \<Rightarrow> nat"
    and cap :: "'s \<Rightarrow> nat"
    and closed :: "'s \<Rightarrow> bool"
  assumes put_inv: "inv s \<Longrightarrow> good f \<Longrightarrow> inv (snd (put f s))"
    and inv_kept: "inv s \<Longrightarrow> kept s \<le> cap s"
    and put_cap: "cap (snd (put f s)) = cap s"
    and put_closed: "closed s \<Longrightarrow> put f s = (None, s)"
begin

lemma run_inv: "inv s \<Longrightarrow> list_all good fs \<Longrightarrow> inv (snd (run_sink put fs s))"
proof (induction fs arbitrary: s)
  case (Cons f fs)
  then show ?case using put_inv by (simp add: Let_def)
qed simp

lemma run_cap: "cap (snd (run_sink put fs s)) = cap s"
  by (induction fs arbitrary: s) (simp_all add: put_cap Let_def)

lemma run_bounded: "inv s \<Longrightarrow> list_all good fs \<Longrightarrow> kept (snd (run_sink put fs s)) \<le> cap s"
  using inv_kept [OF run_inv] run_cap by metis

lemma run_closed: "closed s \<Longrightarrow> run_sink put fs s = ([], s)"
  by (induction fs) (simp_all add: put_closed)

end

section \<open>The consumer keeps the contract\<close>

definition kept_bytes :: "stream_consumer \<Rightarrow> nat" where
  "kept_bytes c = utf8_len (get_full_stdout c) + utf8_len (get_full_stderr c)"

definition consumer_inv :: "stream_consumer \<Rightarrow> bool" where
  "consumer_inv c \<longleftrightarrow>
     int (kept_bytes c) \<le> sc_total_bytes c \<and> sc_total_bytes c \<le> max 0 (sc_max_bytes c)"

lemma consumer_inv_new [simp]: "consumer_inv (new_consumer m)"
  by (simp add: consumer_inv_def new_consumer_def kept_bytes_def get_full_stdout_def
      get_full_stderr_def)

lemma truncated_chunk_eq:
  "utf8_text s \<Longrightarrow> utf8_decode Ignore_Errors (take k (utf8_encode s)) = fit_bytes k s"
  by (rule utf8_decode_slice)

lemma consume_stdout_inv:
  assumes "consumer_inv c" "utf8_text s"
  shows "consumer_inv (snd (consume_stdout s c))"
proof -
  have "int (utf8_len (fit_bytes k s)) \<le> int k" for k using fit_bytes_len [of k s] by simp
  from this [of "nat (max 0 (sc_max_bytes c - sc_total_bytes c))"] show ?thesis
    using assms
    by (auto simp: consume_stdout_def consumer_inv_def kept_bytes_def get_full_stdout_def
        get_full_stderr_def Let_def truncated_chunk_eq)
qed

lemma consume_stderr_inv: "consumer_inv c \<Longrightarrow> consumer_inv (snd (consume_stderr s c))"
  by (auto simp: consume_stderr_def consumer_inv_def kept_bytes_def get_full_stdout_def
      get_full_stderr_def Let_def)

lemma consume_inv: "consumer_inv c \<Longrightarrow> feed_ok f \<Longrightarrow> consumer_inv (snd (consume f c))"
  by (cases f) (simp_all add: consume_stdout_inv consume_stderr_inv)

lemma consume_max [simp]: "sc_max_bytes (snd (consume f c)) = sc_max_bytes c"
  by (cases f) (auto simp: consume_stdout_def consume_stderr_def Let_def)

lemma consume_closed: "sc_limit_exceeded c \<Longrightarrow> consume f c = (None, c)"
  by (cases f) (simp_all add: consume_stdout_def consume_stderr_def)

interpretation sink: bounded_sink consume feed_ok consumer_inv kept_bytes
  "\<lambda>c. nat (sc_max_bytes c)" sc_limit_exceeded
proof unfold_locales
  show "kept_bytes c \<le> nat (sc_max_bytes c)" if "consumer_inv c" for c
    using that by (auto simp: consumer_inv_def)
qed (simp_all add: consume_inv consume_closed)

section \<open>What the buffers hold\<close>

text \<open>The text offered on each stream.\<close>

fun offered_out :: "feed list \<Rightarrow> pstr" where
  "offered_out [] = []"
| "offered_out (Out s # fs) = s @ offered_out fs"
| "offered_out (Err s # fs) = offered_out fs"

fun offered_err :: "feed list \<Rightarrow> pstr" where
  "offered_err [] = []"
| "offered_err (Out s # fs) = offered_err fs"
| "offered_err (Err s # fs) = s @ offered_err fs"

abbreviation consumed :: "feed list \<Rightarrow> stream_consumer \<Rightarrow> stream_consumer" where
  "consumed fs c \<equiv> snd (run_sink consume fs c)"

lemma consumed_Cons: "consumed (f # fs) c = consumed fs (snd (consume f c))"
  by (simp add: Let_def)

lemmas consume_simps = consume_stdout_def consume_stderr_def get_full_stdout_def
  get_full_stderr_def Let_def

text \<open>Below the ceiling the consumer is the identity on both streams and counts exactly.\<close>

lemma consumed_open:
  "\<not> sc_limit_exceeded (consumed fs c) \<Longrightarrow>
     get_full_stdout (consumed fs c) = get_full_stdout c @ offered_out fs \<and>
     get_full_stderr (consumed fs c) = get_full_stderr c @ offered_err fs \<and>
     sc_total_bytes (consumed fs c) =
       sc_total_bytes c + int (utf8_len (offered_out fs) + utf8_len (offered_err fs))"
proof (induction fs arbitrary: c)
  case (Cons f fs)
  from Cons.prems have opn: "\<not> sc_limit_exceeded (snd (consume f c))"
    using sink.run_closed by (metis consumed_Cons snd_conv)
  then have "\<not> sc_limit_exceeded c" using consume_closed by fastforce
  with opn show ?case
    using Cons.IH [of "snd (consume f c)"] Cons.prems unfolding consumed_Cons
    by (cases f) (auto simp: consume_simps split: if_splits)
qed (simp_all add: get_full_stdout_def)

text \<open>The ceiling is respected exactly: it is exceeded only when the offer does not fit.\<close>

lemma consumed_fits:
  "sc_total_bytes c + int (utf8_len (offered_out fs) + utf8_len (offered_err fs)) \<le> sc_max_bytes c
     \<Longrightarrow> \<not> sc_limit_exceeded c \<Longrightarrow> \<not> sc_limit_exceeded (consumed fs c)"
proof (induction fs arbitrary: c)
  case (Cons f fs)
  then show ?case unfolding consumed_Cons
    by (cases f) (fastforce simp: consume_simps)+
qed simp

lemma consumed_prefix:
  "list_all feed_ok fs \<Longrightarrow> prefix (get_full_stdout c) x \<Longrightarrow> sc_limit_exceeded c \<or> get_full_stdout c = x \<Longrightarrow>
   prefix (get_full_stdout (consumed fs c)) (x @ offered_out fs)"
proof (induction fs arbitrary: c x)
  case (Cons f fs)
  show ?case
  proof (cases "sc_limit_exceeded c")
    case True
    then have "consumed (f # fs) c = c" using sink.run_closed [OF True, of "f # fs"] by simp
    with Cons.prems(2) show ?thesis by (simp add: prefix_prefix)
  next
    case False
    then have x: "get_full_stdout c = x" using Cons.prems by simp
    show ?thesis
    proof (cases f)
      case (Out s)
      have "prefix (get_full_stdout (snd (consume f c))) (x @ s)"
        "sc_limit_exceeded (snd (consume f c)) \<or> get_full_stdout (snd (consume f c)) = x @ s"
        using Cons.prems(1) False x fit_bytes_prefix
        by (auto simp: Out consume_simps truncated_chunk_eq)
      then show ?thesis using Cons.IH [of "snd (consume f c)" "x @ s"] Cons.prems(1)
        unfolding consumed_Cons by (simp add: Out)
    next
      case (Err s)
      have "prefix (get_full_stdout (snd (consume f c))) x"
        "sc_limit_exceeded (snd (consume f c)) \<or> get_full_stdout (snd (consume f c)) = x"
        using False x by (auto simp: Err consume_simps)
      then show ?thesis using Cons.IH [of "snd (consume f c)" x] Cons.prems(1)
        unfolding consumed_Cons by (simp add: Err)
    qed
  qed
qed (use prefix_append in auto)

lemma consumed_max: "sc_max_bytes (consumed fs c) = sc_max_bytes c"
  by (induction fs arbitrary: c) (simp_all add: Let_def)

section \<open>Properties\<close>

text \<open>C22. Whatever the two streams of a program print, in any interleaving, the bytes a
  consumer keeps of standard output and standard error together never exceed the ceiling
  it was created with, and it is closed for good once the ceiling is crossed.\<close>

theorem captured_output_bounded:
  assumes "list_all feed_ok fs"
  shows "utf8_len (get_full_stdout (consumed fs (new_consumer m))) +
         utf8_len (get_full_stderr (consumed fs (new_consumer m))) \<le> nat m \<and>
         (sc_limit_exceeded (consumed fs (new_consumer m)) \<longrightarrow>
          consumed (fs @ gs) (new_consumer m) = consumed fs (new_consumer m))"
proof
  show "utf8_len (get_full_stdout (consumed fs (new_consumer m))) +
        utf8_len (get_full_stderr (consumed fs (new_consumer m))) \<le> nat m"
    using sink.run_bounded [OF consumer_inv_new assms, of m]
    by (simp add: kept_bytes_def) (simp add: new_consumer_def)
  show "sc_limit_exceeded (consumed fs (new_consumer m)) \<longrightarrow>
        consumed (fs @ gs) (new_consumer m) = consumed fs (new_consumer m)"
    by (simp add: run_sink_append sink.run_closed)
qed

theorem captured_output_bounded_witness:
  "utf8_len (get_full_stdout (consumed [Out [233, 233], Err [65]] (new_consumer 3))) +
   utf8_len (get_full_stderr (consumed [Out [233, 233], Err [65]] (new_consumer 3))) \<le> 3"
proof -
  have "list_all feed_ok [Out [233, 233], Err [65]]"
    by (simp add: scalar_def is_surrogate_def)
  from captured_output_bounded [OF this, of 3 "[]"] show ?thesis by simp
qed

text \<open>C21. With a ceiling that is not negative, a consumer reports an exceeded limit exactly
  when the program printed more bytes than the ceiling.  If it did not, both captured
  streams are the printed ones, unchanged; if it did, the captured standard output is
  still a prefix of the printed one.\<close>

theorem captured_output_exact:
  assumes "list_all feed_ok fs" and "0 \<le> m"
  shows "(sc_limit_exceeded (consumed fs (new_consumer m)) \<longleftrightarrow>
            m < int (utf8_len (offered_out fs) + utf8_len (offered_err fs))) \<and>
         (sc_limit_exceeded (consumed fs (new_consumer m)) \<or>
            get_full_stdout (consumed fs (new_consumer m)) = offered_out fs \<and>
            get_full_stderr (consumed fs (new_consumer m)) = offered_err fs) \<and>
         prefix (get_full_stdout (consumed fs (new_consumer m))) (offered_out fs)"
proof (intro conjI)
  let ?c = "consumed fs (new_consumer m)"
  have new: "sc_total_bytes (new_consumer m) = 0" "sc_max_bytes (new_consumer m) = m"
    "\<not> sc_limit_exceeded (new_consumer m)" "get_full_stdout (new_consumer m) = []"
    "get_full_stderr (new_consumer m) = []"
    by (simp_all add: new_consumer_def get_full_stdout_def get_full_stderr_def)
  have "sc_total_bytes ?c \<le> m"
    using sink.run_inv [OF consumer_inv_new assms(1), of m] assms(2) new
    by (simp add: consumer_inv_def consumed_max)
  then show "sc_limit_exceeded ?c \<longleftrightarrow>
      m < int (utf8_len (offered_out fs) + utf8_len (offered_err fs))"
    using consumed_open [of fs "new_consumer m"] consumed_fits [of "new_consumer m" fs] new
    by fastforce
  show "sc_limit_exceeded ?c \<or>
      get_full_stdout ?c = offered_out fs \<and> get_full_stderr ?c = offered_err fs"
    using consumed_open [of fs "new_consumer m"] new by auto
  show "prefix (get_full_stdout ?c) (offered_out fs)"
    using consumed_prefix [OF assms(1), of "new_consumer m" "[]"] new by simp
qed

theorem captured_output_exact_witness:
  "sc_limit_exceeded (consumed [Out [233, 233], Err [65]] (new_consumer 4)) \<and>
   get_full_stdout (consumed [Out [233]] (new_consumer 4)) = [233]"
proof -
  have ok: "list_all feed_ok [Out [233, 233], Err [65]]" "list_all feed_ok [Out [233]]"
    by (simp_all add: scalar_def is_surrogate_def)
  have len: "utf8_len [233, 233] = 4" "utf8_len [65] = 1" "utf8_len [233] = 2"
    by (simp_all add: enc_char_def)
  have m: "(0::int) \<le> 4" by simp
  show ?thesis
    using captured_output_exact [OF ok(1) m] captured_output_exact [OF ok(2) m] len
    by (auto simp del: run_sink.simps)
qed

text \<open>When a chunk of standard output crosses the ceiling, the part of it that is kept
  is the longest run of whole characters that still fits: the cut never splits a
  character, and keeping one more character would exceed the ceiling.\<close>

lemma truncation_is_maximal:
  assumes "utf8_text s" and "\<not> sc_limit_exceeded c"
    and "sc_max_bytes c < sc_total_bytes c + int (utf8_len s)"
    and "prefix p s" and "int (utf8_len p) \<le> sc_max_bytes c - sc_total_bytes c"
  shows "\<exists>q. get_full_stdout (snd (consume_stdout s c)) = get_full_stdout c @ q \<and>
             prefix q s \<and> prefix p q \<and> int (utf8_len q) \<le> sc_max_bytes c - sc_total_bytes c"
proof -
  define k where "k = nat (max 0 (sc_max_bytes c - sc_total_bytes c))"
  have "get_full_stdout (snd (consume_stdout s c)) = get_full_stdout c @ fit_bytes k s"
    using assms(1-3) by (simp add: consume_simps truncated_chunk_eq k_def)
  moreover have "prefix (fit_bytes k s) s" by (rule fit_bytes_prefix)
  moreover have "prefix p (fit_bytes k s)"
    using assms(4,5) by (intro fit_bytes_maximal) (auto simp: k_def)
  moreover have "int (utf8_len (fit_bytes k s)) \<le> sc_max_bytes c - sc_total_bytes c"
    using fit_bytes_len [of k s] assms(5) by (simp add: k_def)
  ultimately show ?thesis by blast
qed

lemma truncation_is_maximal_witness:
  "\<exists>q. get_full_stdout (snd (consume_stdout [65, 8364] (new_consumer 3))) = q \<and> prefix [65] q"
proof -
  have "utf8_text [65, 8364]" by (simp add: scalar_def is_surrogate_def)
  moreover have "\<not> sc_limit_exceeded (new_consumer 3)" by (simp add: new_consumer_def)
  moreover have "sc_max_bytes (new_consumer 3) <
      sc_total_bytes (new_consumer 3) + int (utf8_len [65, 8364])"
    by (simp add: new_consumer_def enc_char_def)
  moreover have "prefix [65] [65, 8364 :: nat]" by simp
  moreover have "int (utf8_len [65]) \<le> sc_max_bytes (new_consumer 3) - sc_total_bytes (new_consumer 3)"
    by (simp add: new_consumer_def enc_char_def)
  ultimately show ?thesis
    using truncation_is_maximal [of "[65, 8364]" "new_consumer 3" "[65]"]
    by (auto simp: new_consumer_def get_full_stdout_def)
qed

end
