(* ===== verification/Sandbox_Driver.thy ===== *)
theory Sandbox_Driver
  imports Stream_Consumer
begin

text \<open>
  The execution contract of a sandbox driver (worker/sandbox/base.py).  \<open>BaseSandbox\<close>
  declares \<open>execute\<close> and \<open>stream_execute\<close> abstractly and gives the interactive operations
  a default that does nothing.  The locale states what a caller of \<open>execute\<close> relies on;
  the drivers of the repository interpret it in their own theories, and the autograder
  proves its facts once against it.
\<close>

text \<open>The execution interface: a request changes the world and gives an exception or a result.\<close>

type_synonym 'w driver = "'w \<Rightarrow> execution_request \<Rightarrow> (py_exn + execution_result) \<times> 'w"

text \<open>The defaults of \<open>BaseSandbox\<close> for a driver without an interactive process.\<close>

definition base_write_stdin :: "pstr \<Rightarrow> 's \<Rightarrow> 's" where
  "base_write_stdin data s = s"

definition base_resize_terminal :: "int \<Rightarrow> int \<Rightarrow> 's \<Rightarrow> bool \<times> 's" where
  "base_resize_terminal cols rows s = (False, s)"

definition base_send_signal :: "int \<Rightarrow> 's \<Rightarrow> bool \<times> 's" where
  "base_send_signal sig s = (False, s)"

definition output_ok :: "execution_request \<Rightarrow> execution_result \<Rightarrow> bool" where
  "output_ok rq r \<longleftrightarrow> utf8_len (rs_stdout r) \<le> nat (rq_max_output_bytes rq)"

text \<open>The exit code agrees with the status.\<close>

definition exit_ok :: "execution_result \<Rightarrow> bool" where
  "exit_ok r \<longleftrightarrow>
     (rs_status r = ES_COMPLETED \<longrightarrow> rs_exit_code r = Some 0) \<and>
     (rs_status r = ES_RUNTIME_ERROR \<longrightarrow> rs_exit_code r \<notin> {None, Some 0}) \<and>
     (rs_status r = ES_TIME_LIMIT_EXCEEDED \<longrightarrow> rs_exit_code r = Some (- 9)) \<and>
     (rs_status r = ES_SYSTEM_ERROR \<longrightarrow> rs_exit_code r = None \<and> rs_stdout r = [])"

text \<open>What every driver promises: captured standard output respects the request's ceiling.\<close>

locale sandbox_driver =
  fixes exec :: "'w driver"
  assumes output_cap: "fst (exec w rq) = Inr r \<Longrightarrow> output_ok rq r"
begin

lemma output_bounded:
  "fst (exec w rq) = Inr r \<Longrightarrow> utf8_len (rs_stdout r) \<le> nat (rq_max_output_bytes rq)"
  using output_cap by (simp add: output_ok_def)

end

text \<open>What a driver promises that also reports how the program ended.\<close>

locale reporting_driver = sandbox_driver +
  assumes exit: "fst (exec w rq) = Inr r \<Longrightarrow> exit_ok r"
begin

lemma completed_exit:
  "fst (exec w rq) = Inr r \<Longrightarrow> rs_status r = ES_COMPLETED \<Longrightarrow> rs_exit_code r = Some 0"
  using exit by (simp add: exit_ok_def)

lemma nonzero_exit_status:
  "fst (exec w rq) = Inr r \<Longrightarrow> rs_exit_code r = Some k \<Longrightarrow> k \<noteq> 0 \<Longrightarrow>
   rs_status r \<notin> {ES_COMPLETED, ES_SYSTEM_ERROR}"
  using exit by (auto simp: exit_ok_def)

end

end
