(* ===== verification/Output_Verifier.thy ===== *)
theory Output_Verifier
  imports Binary64
begin

text \<open>
  Output normalisation and the oracle comparator (worker/grading/normalizer.py and
  worker/grading/verifier.py).  \<open>difflib.unified_diff\<close> and the formatting of a float in
  a message are arguments (\<open>unified_diff\<close>, \<open>show_float\<close>, \<open>show_float_e\<close>); no property
  assumes anything about them.  The lemmas give each comparison mode an abstract meaning
  and order the modes by what they accept.
\<close>

section \<open>Normalisation\<close>

function pop_trailing :: "pstr list \<Rightarrow> pstr list" where
  "pop_trailing ls = (if ls \<noteq> [] \<and> last ls = [] then pop_trailing (butlast ls) else ls)"
  by pat_completeness auto
termination
  by (relation "measure length") auto

declare pop_trailing.simps [simp del]

definition normalize_text :: "pstr \<Rightarrow> pstr" where
  "normalize_text text =
     (if text = [] then []
      else py_join [10] (pop_trailing (map py_rstrip (split_on 10 (normalize_newlines text)))))"

definition tokenize :: "pstr \<Rightarrow> pstr list" where
  "tokenize text = split_ws text"

definition generate_diff ::
  "(pstr list \<Rightarrow> pstr list \<Rightarrow> pstr list) \<Rightarrow> pstr \<Rightarrow> pstr \<Rightarrow> nat \<Rightarrow> pstr" where
  "generate_diff unified_diff expected actual max_lines =
     (let diff = unified_diff (splitlines_keep (normalize_text expected))
                              (splitlines_keep (normalize_text actual))
      in if diff = [] then []
         else if length diff > max_lines then
           py_join [10] (take max_lines diff @
             [lit ''... ('' @ show_nat (length diff - max_lines) @
              lit '' more diff lines truncated)''])
         else py_join [10] diff)"

section \<open>Verification\<close>

datatype comparison_mode = NORMALIZED | STRICT | TOKEN | EPSILON

fun mode_value :: "comparison_mode \<Rightarrow> pstr" where
  "mode_value NORMALIZED = lit ''NORMALIZED''"
| "mode_value STRICT = lit ''STRICT''"
| "mode_value TOKEN = lit ''TOKEN''"
| "mode_value EPSILON = lit ''EPSILON''"

text \<open>\<open>ComparisonMode(s) if s in ComparisonMode.__members__ else NORMALIZED\<close>.\<close>

definition mode_of_str :: "pstr \<Rightarrow> comparison_mode" where
  "mode_of_str s =
     (if s = lit ''STRICT'' then STRICT
      else if s = lit ''TOKEN'' then TOKEN
      else if s = lit ''EPSILON'' then EPSILON
      else NORMALIZED)"

record formatting =
  unified_diff :: "pstr list \<Rightarrow> pstr list \<Rightarrow> pstr list"
  show_float :: "pyfloat \<Rightarrow> pstr"
  show_float_e :: "pyfloat \<Rightarrow> pstr"

text \<open>A formatting that prints nothing, for concrete runs.\<close>

definition plain_fmt :: formatting where
  "plain_fmt = \<lparr>unified_diff = (\<lambda>_ _. []), show_float = (\<lambda>_. []), show_float_e = (\<lambda>_. [])\<rparr>"

abbreviation diff20 :: "formatting \<Rightarrow> pstr \<Rightarrow> pstr \<Rightarrow> pstr" where
  "diff20 fmt expected actual \<equiv> generate_diff (unified_diff fmt) expected actual 20"

type_synonym verdict_triple = "bool \<times> pstr option \<times> pstr option"

definition epsilon_default :: pyfloat where
  "epsilon_default = fl (1 / 1000000)"

text \<open>The test inside the \<open>if not (...)\<close> of the token loop.\<close>

definition close_enough :: "pyfloat \<Rightarrow> pyfloat \<Rightarrow> pyfloat \<Rightarrow> bool" where
  "close_enough eps val_act val_exp =
     (let diff_val = float_abs (float_sub val_act val_exp)
      in float_le diff_val eps \<or>
         float_le (float_div diff_val (float_max (Fin 1) (float_abs val_exp))) eps \<and> diff_val \<noteq> NaN)"

text \<open>
  The loop over the zipped tokens: \<open>None\<close> when every pair agrees, otherwise the reason of
  the first pair that does not.
\<close>

fun epsilon_loop :: "formatting \<Rightarrow> pyfloat \<Rightarrow> nat \<Rightarrow> (pstr \<times> pstr) list \<Rightarrow> pstr option" where
  "epsilon_loop fmt eps idx [] = None"
| "epsilon_loop fmt eps idx ((tok_act, tok_exp) # rest) =
     (case (py_float tok_act, py_float tok_exp) of
        (Some val_act, Some val_exp) \<Rightarrow>
          if close_enough eps val_act val_exp then epsilon_loop fmt eps (Suc idx) rest
          else Some (lit ''Floating point divergence at token index '' @ show_nat idx @ lit '': '' @
                     show_float fmt val_act @ lit '' vs '' @ show_float fmt val_exp @
                     lit '' (diff='' @
                     show_float_e fmt (float_abs (float_sub val_act val_exp)) @
                     lit '' > eps='' @ show_float fmt eps @ lit '')'')
      | _ \<Rightarrow>
          if tok_act = tok_exp then epsilon_loop fmt eps (Suc idx) rest
          else Some (lit ''String mismatch at token index '' @ show_nat idx @ 58 # 32 # 39 #
                     tok_act @ 39 # lit '' vs '' @ 39 # tok_exp @ [39]))"

definition count_mismatch :: "nat \<Rightarrow> nat \<Rightarrow> pstr" where
  "count_mismatch n m =
     lit ''Token count mismatch ('' @ show_nat n @ lit '' vs '' @ show_nat m @ lit '')''"

definition verify ::
  "formatting \<Rightarrow> pstr \<Rightarrow> pstr \<Rightarrow> comparison_mode \<Rightarrow> pyfloat \<Rightarrow> verdict_triple" where
  "verify fmt actual expected mode epsilon =
     (case mode of
        STRICT \<Rightarrow>
          if actual = expected then (True, None, None)
          else (False, Some (diff20 fmt expected actual), Some (lit ''Strict byte-for-byte mismatch''))
      | NORMALIZED \<Rightarrow>
          let norm_actual = normalize_text actual; norm_expected = normalize_text expected
          in if norm_actual = norm_expected then (True, None, None)
             else (False, Some (diff20 fmt norm_expected norm_actual),
                   Some (lit ''Output mismatch after whitespace normalization''))
      | TOKEN \<Rightarrow>
          let tokens_actual = tokenize actual; tokens_expected = tokenize expected
          in if tokens_actual = tokens_expected then (True, None, None)
             else (False,
                   Some (diff20 fmt (py_join [32] tokens_expected) (py_join [32] tokens_actual)),
                   Some (if length tokens_actual \<noteq> length tokens_expected
                         then count_mismatch (length tokens_actual) (length tokens_expected)
                         else lit ''Token value mismatch''))
      | EPSILON \<Rightarrow>
          let tokens_actual = tokenize actual; tokens_expected = tokenize expected
          in if length tokens_actual \<noteq> length tokens_expected then
               (False,
                Some (diff20 fmt (py_join [32] tokens_expected) (py_join [32] tokens_actual)),
                Some (count_mismatch (length tokens_actual) (length tokens_expected)))
             else
               (case epsilon_loop fmt epsilon 0 (zip tokens_actual tokens_expected) of
                  None \<Rightarrow> (True, None, None)
                | Some reason \<Rightarrow> (False, Some (diff20 fmt expected actual), Some reason)))"

abbreviation accepts :: "comparison_mode \<Rightarrow> pyfloat \<Rightarrow> formatting \<Rightarrow> pstr \<Rightarrow> pstr \<Rightarrow> bool" where
  "accepts mode eps fmt actual expected \<equiv> fst (verify fmt actual expected mode eps)"

section \<open>The lines a reader sees\<close>

text \<open>
  The abstract meaning of normalisation: the lines of the text, without trailing
  whitespace and without trailing blank lines.
\<close>

definition visible_lines :: "pstr \<Rightarrow> pstr list" where
  "visible_lines t = pop_trailing (map py_rstrip (split_on 10 (normalize_newlines t)))"

lemma pop_trailing_Nil [simp]: "pop_trailing [] = []"
  by (simp add: pop_trailing.simps)

lemma pop_trailing_snoc [simp]:
  "pop_trailing (ls @ [l]) = (if l = [] then pop_trailing ls else ls @ [l])"
  by (subst pop_trailing.simps) simp

lemma pop_trailing_single [simp]: "pop_trailing [l] = (if l = [] then [] else [l])"
  using pop_trailing_snoc [of "[]" l] by simp

lemma pop_trailing_last: "pop_trailing ls \<noteq> [] \<Longrightarrow> last (pop_trailing ls) \<noteq> []"
  by (induction ls rule: rev_induct) auto

lemma pop_trailing_id: "ls = [] \<or> last ls \<noteq> [] \<Longrightarrow> pop_trailing ls = ls"
  by (subst pop_trailing.simps) auto

lemma set_pop_trailing: "set (pop_trailing ls) \<subseteq> set ls"
  by (induction ls rule: rev_induct) auto

lemma visible_lines_last: "visible_lines t \<noteq> [] \<Longrightarrow> last (visible_lines t) \<noteq> []"
  by (simp add: visible_lines_def pop_trailing_last)

text \<open>What a visible line looks like: no line feed, no carriage return, stripped on the right.\<close>

definition clean_line :: "pstr \<Rightarrow> bool" where
  "clean_line l \<longleftrightarrow> 10 \<notin> set l \<and> 13 \<notin> set l \<and> py_rstrip l = l"

lemma visible_lines_clean: "list_all clean_line (visible_lines t)"
proof -
  have "clean_line (py_rstrip l)" if "l \<in> set (split_on 10 (normalize_newlines t))" for l
    using set_py_rstrip [of l] split_on_no_sep [OF that] set_split_on [OF that]
      normalize_newlines_no_cr [of t]
    by (auto simp: clean_line_def)
  then show ?thesis
    using set_pop_trailing by (fastforce simp: visible_lines_def list_all_iff)
qed

lemma normalize_text_lines: "normalize_text t = py_join [10] (visible_lines t)"
  by (simp add: normalize_text_def visible_lines_def normalize_newlines_def replace_cr_def)

text \<open>Joining visible lines and splitting again gives them back.\<close>

lemma visible_lines_join:
  assumes "list_all clean_line ls" and "ls = [] \<or> last ls \<noteq> []"
  shows "visible_lines (py_join [10] ls) = ls"
proof (cases "ls = []")
  case True
  then show ?thesis by (simp add: visible_lines_def normalize_newlines_def replace_cr_def
        pop_trailing.simps)
next
  case False
  have "13 \<notin> set (py_join [10] ls)"
    using set_py_join [of "[10]" ls] assms(1) by (auto simp: list_all_iff clean_line_def)
  moreover have "split_on 10 (py_join [10] ls) = ls"
    using split_on_py_join [OF False] assms(1) by (simp add: list_all_iff clean_line_def)
  moreover have "map py_rstrip ls = ls"
    using assms(1) by (intro map_idI) (simp add: list_all_iff clean_line_def)
  ultimately show ?thesis
    using assms(2) by (simp add: visible_lines_def normalize_newlines_id pop_trailing_id)
qed

lemma visible_lines_normalize [simp]: "visible_lines (normalize_text t) = visible_lines t"
  unfolding normalize_text_lines
  using visible_lines_join [OF visible_lines_clean] visible_lines_last by blast

lemma normalize_text_eq_iff:
  "normalize_text s = normalize_text t \<longleftrightarrow> visible_lines s = visible_lines t"
  by (metis normalize_text_lines visible_lines_normalize)

lemma concat_split_ws_pop: "concat (map split_ws (pop_trailing ls)) = concat (map split_ws ls)"
  by (induction ls rule: rev_induct) auto

lemma split_ws_normalize [simp]: "split_ws (normalize_text t) = split_ws t"
proof -
  have "split_ws (normalize_text t) = concat (map split_ws (split_on 10 (normalize_newlines t)))"
    by (simp add: normalize_text_lines visible_lines_def split_ws_py_join concat_split_ws_pop
        comp_def)
  then show ?thesis
    using split_ws_py_join [of 10 "split_on 10 (normalize_newlines t)"] by simp
qed

lemma epsilon_loop_None:
  "epsilon_loop fmt eps i ps = None \<longleftrightarrow>
     list_all (\<lambda>(a, e). case (py_float a, py_float e) of
        (Some x, Some y) \<Rightarrow> close_enough eps x y | _ \<Rightarrow> a = e) ps"
  by (induction fmt eps i ps rule: epsilon_loop.induct) (auto split: option.splits)

section \<open>When each mode accepts\<close>

definition tokens_agree :: "pyfloat \<Rightarrow> pstr \<Rightarrow> pstr \<Rightarrow> bool" where
  "tokens_agree eps a e =
     (case (py_float a, py_float e) of
        (Some x, Some y) \<Rightarrow> close_enough eps x y
      | _ \<Rightarrow> a = e)"

lemma epsilon_loop_agree:
  "length as = length es \<Longrightarrow>
   epsilon_loop fmt eps i (zip as es) = None \<longleftrightarrow> list_all2 (tokens_agree eps) as es"
  by (auto simp: epsilon_loop_None list_all2_iff list_all_iff tokens_agree_def)

lemma accepts_strict [simp]: "accepts STRICT eps fmt a e \<longleftrightarrow> a = e"
  by (simp add: verify_def)

lemma accepts_normalized [simp]: "accepts NORMALIZED eps fmt a e \<longleftrightarrow> visible_lines a = visible_lines e"
  by (simp add: verify_def Let_def normalize_text_eq_iff)

lemma accepts_token [simp]: "accepts TOKEN eps fmt a e \<longleftrightarrow> tokenize a = tokenize e"
  by (simp add: verify_def Let_def)

lemma accepts_epsilon [simp]:
  "accepts EPSILON eps fmt a e \<longleftrightarrow> list_all2 (tokens_agree eps) (tokenize a) (tokenize e)"
proof (cases "length (tokenize a) = length (tokenize e)")
  case True
  from epsilon_loop_agree [OF this, of fmt eps 0] True show ?thesis
    by (auto simp: verify_def Let_def split: option.split)
next
  case False
  then have "\<not> list_all2 (tokens_agree eps) (tokenize a) (tokenize e)"
    using list_all2_lengthD by blast
  with False show ?thesis by (simp add: verify_def Let_def)
qed

lemma verify_shape:
  "verify fmt a e mode eps = (True, None, None) \<or>
   (\<exists>d r. verify fmt a e mode eps = (False, Some d, Some r))"
  by (cases mode) (auto simp: verify_def Let_def split: option.splits)

lemma visible_lines_tokens: "visible_lines a = visible_lines e \<Longrightarrow> tokenize a = tokenize e"
  unfolding tokenize_def by (metis normalize_text_eq_iff split_ws_normalize)

lemma epsilon_default_nonneg: "float_le (Fin 0) epsilon_default"
proof -
  have "0 \<le> (1 / 1000000 :: rat)" "(1 / 1000000 :: rat) \<le> of_int 1" "(1::int) < 2 ^ 52" by simp_all
  from fl_int_bound [OF this] show ?thesis by (metis epsilon_default_def float_le.simps(5))
qed

lemma close_enough_self: "close_enough epsilon_default x x \<longleftrightarrow> is_finite x"
  using epsilon_default_nonneg
  by (cases x) (auto simp: close_enough_def is_finite_def Let_def)

lemma tokens_agree_self:
  "tokens_agree epsilon_default tok tok \<longleftrightarrow> pred_option is_finite (py_float tok)"
  by (simp add: tokens_agree_def close_enough_self split: option.splits)

lemma tokens_agree_all:
  "list_all2 (tokens_agree epsilon_default) ts ts \<longleftrightarrow>
     list_all (\<lambda>t. pred_option is_finite (py_float t)) ts"
  by (simp add: list_all2_same tokens_agree_self list_all_iff)

section \<open>Properties\<close>

text \<open>Normalisation keeps exactly the lines a reader sees: two outputs normalise to the
  same text when, and only when, their lines agree once trailing whitespace, trailing blank
  lines and the choice of line ending are ignored, and normalising twice changes nothing.\<close>

lemma normalization_meaning:
  "(normalize_text s = normalize_text t \<longleftrightarrow> visible_lines s = visible_lines t) \<and>
   normalize_text (normalize_text t) = normalize_text t \<and>
   split_on 10 (py_join [10] (visible_lines t @ [[]])) = visible_lines t @ [[]] \<and>
   list_all clean_line (visible_lines t)"
proof (intro conjI)
  show "split_on 10 (py_join [10] (visible_lines t @ [[]])) = visible_lines t @ [[]]"
    using visible_lines_clean [of t]
    by (intro split_on_py_join) (auto simp: list_all_iff clean_line_def)
qed (simp_all add: normalize_text_eq_iff visible_lines_clean)

text \<open>The comparison modes are ordered.  An output that passes the byte-for-byte check
  passes the normalised one, and one that passes the normalised check passes the token
  check.  It then also passes the tolerance check when no token of it reads as an infinity
  or a NaN.\<close>

lemma mode_hierarchy:
  "(accepts STRICT eps fmt a e \<longrightarrow> accepts NORMALIZED eps fmt a e) \<and>
   (accepts NORMALIZED eps fmt a e \<longrightarrow> accepts TOKEN eps fmt a e) \<and>
   (accepts TOKEN eps fmt a e \<and> list_all (\<lambda>t. pred_option is_finite (py_float t)) (tokenize e) \<longrightarrow>
    accepts EPSILON epsilon_default fmt a e)"
proof (intro conjI impI)
  assume "accepts TOKEN eps fmt a e \<and>
    list_all (\<lambda>t. pred_option is_finite (py_float t)) (tokenize e)"
  then show "accepts EPSILON epsilon_default fmt a e" by (simp add: tokens_agree_all)
qed (auto dest: visible_lines_tokens)

lemma mode_hierarchy_witness:
  "accepts TOKEN epsilon_default plain_fmt (lit ''ok'') (lit ''ok'') \<and>
   accepts EPSILON epsilon_default plain_fmt (lit ''ok'') (lit ''ok'')"
proof -
  have t: "tokenize (lit ''ok'') = [lit ''ok'']"
    by (simp add: tokenize_def split_ws_def lit_def py_isspace_def)
  have "py_float (lit ''ok'') = None"
    by (simp add: py_float_def lit_def to_ascii_decimal_def py_lower_def lower_char_def
        read_decimal_def is_digit_def Let_def)
  then have f: "list_all (\<lambda>t. pred_option is_finite (py_float t)) (tokenize (lit ''ok''))"
    by (simp add: t)
  show ?thesis
    using mode_hierarchy [where eps = epsilon_default and fmt = plain_fmt and a = "lit ''ok''" and e = "lit ''ok''"]
      f by (simp only: t accepts_token simp_thms)
qed

text \<open>Under the tolerance mode a program that prints exactly the expected output is
  accepted if and only if no token of that output reads as an infinity or a NaN: for
  instance the output \<open>inf\<close> is rejected against itself.\<close>

lemma epsilon_reflexive_iff_finite:
  "(accepts EPSILON epsilon_default fmt t t \<longleftrightarrow>
      list_all (\<lambda>tok. pred_option is_finite (py_float tok)) (tokenize t)) \<and>
   \<not> accepts EPSILON epsilon_default fmt (lit ''inf'') (lit ''inf'')"
proof -
  have "py_float (lit ''inf'') = Some PInf"
    by (simp add: py_float_def lit_def to_ascii_decimal_def py_lower_def lower_char_def Let_def)
  moreover have "tokenize (lit ''inf'') = [lit ''inf'']"
    by (simp add: tokenize_def split_ws_def lit_def py_isspace_def)
  ultimately show ?thesis by (simp add: tokens_agree_all tokens_agree_self is_finite_def)
qed

text \<open>A verdict and its explanation never disagree: an accepted output comes with no
  diff and no reason, a rejected one with both, and the tolerance loop looks at every pair
  of tokens, so acceptance means that each pair agrees.\<close>

lemma verify_explains:
  "(accepts mode eps fmt a e \<longleftrightarrow> verify fmt a e mode eps = (True, None, None)) \<and>
   (\<not> accepts mode eps fmt a e \<longleftrightarrow> (\<exists>d r. verify fmt a e mode eps = (False, Some d, Some r))) \<and>
   (accepts EPSILON eps fmt a e \<longleftrightarrow>
      list_all2 (tokens_agree eps) (tokenize a) (tokenize e))"
  using verify_shape [of fmt a e mode eps] by auto

end
