(* ===== verification/Grading.thy ===== *)
theory Grading
  imports Sandbox_Driver Output_Verifier
begin

text \<open>
  The autograder (worker/grading/models.py and worker/grading/harness.py).  The sandbox is
  an argument \<open>exec\<close>: it takes the state of the world and a request and returns the raised
  exception or the result, with the new state.  \<open>grade_loop\<close> is the loop of
  \<open>evaluate_submission\<close> over the test cases, with its early \<open>continue\<close>s as branches of
  \<open>judge_result\<close> and its \<open>break\<close> on a compilation error as the branch that does not recur.
  The second half states what grading means (\<open>spec_summary\<close>) and proves that the loop
  computes it.
\<close>

section \<open>Data\<close>

datatype evaluation_verdict =
    EV_ACCEPTED | EV_PARTIAL | EV_WRONG_ANSWER | EV_TIME_LIMIT_EXCEEDED
  | EV_MEMORY_LIMIT_EXCEEDED | EV_RUNTIME_ERROR | EV_COMPILE_ERROR | EV_SYSTEM_ERROR | EV_PENDING

fun verdict_value :: "evaluation_verdict \<Rightarrow> pstr" where
  "verdict_value EV_ACCEPTED = lit ''ACCEPTED''"
| "verdict_value EV_PARTIAL = lit ''PARTIAL''"
| "verdict_value EV_WRONG_ANSWER = lit ''WRONG_ANSWER''"
| "verdict_value EV_TIME_LIMIT_EXCEEDED = lit ''TIME_LIMIT_EXCEEDED''"
| "verdict_value EV_MEMORY_LIMIT_EXCEEDED = lit ''MEMORY_LIMIT_EXCEEDED''"
| "verdict_value EV_RUNTIME_ERROR = lit ''RUNTIME_ERROR''"
| "verdict_value EV_COMPILE_ERROR = lit ''COMPILE_ERROR''"
| "verdict_value EV_SYSTEM_ERROR = lit ''SYSTEM_ERROR''"
| "verdict_value EV_PENDING = lit ''PENDING''"

record test_case_data =
  tc_id :: pstr
  tc_input_data :: pstr
  tc_expected_output :: pstr
  tc_is_hidden :: bool
  tc_weight :: int
  tc_order :: int
  tc_explanation :: "pstr option"

record test_case_verdict =
  tv_test_case_id :: pstr
  tv_order :: int
  tv_status :: evaluation_verdict
  tv_passed :: bool
  tv_duration_ms :: int
  tv_memory_bytes :: int
  tv_is_hidden :: bool
  tv_weight :: int
  tv_earned_points :: int
  tv_input_data :: "pstr option"
  tv_expected_output :: "pstr option"
  tv_actual_output :: "pstr option"
  tv_diff :: "pstr option"
  tv_error_message :: "pstr option"

record grading_summary =
  gs_submission_id :: pstr
  gs_problem_id :: pstr
  gs_overall_status :: evaluation_verdict
  gs_total_score :: int
  gs_max_score :: int
  gs_percentage :: pyfloat
  gs_passed_count :: int
  gs_total_test_cases :: int
  gs_execution_time_ms :: int
  gs_peak_memory_bytes :: int
  gs_compile_error :: "pstr option"
  gs_test_case_results :: "test_case_verdict list"
  gs_metadata :: "(pstr \<times> pstr) list"

section \<open>The evaluation loop\<close>

text \<open>The parameters of one evaluation.\<close>

record grading_job =
  gj_submission_id :: pstr
  gj_problem_id :: pstr
  gj_source_code :: pstr
  gj_language :: pstr
  gj_time_limit_ms :: int
  gj_memory_limit_mb :: int
  gj_mode :: comparison_mode

text \<open>\<open>time_limit_ms / 1000.0\<close>: the integer must convert to a float first.\<close>

definition timeout_sec :: "int \<Rightarrow> py_exn + pyfloat" where
  "timeout_sec time_limit_ms =
     (case fl (of_int time_limit_ms) of
        Fin x \<Rightarrow> Inr (float_max (Fin (1 / 2)) (fl (x / 1000)))
      | _ \<Rightarrow> Inl OverflowError)"

definition case_request :: "grading_job \<Rightarrow> pyfloat \<Rightarrow> test_case_data \<Rightarrow> execution_request" where
  "case_request job timeout tc =
     (default_request (gj_source_code job))
       \<lparr>rq_language := gj_language job,
        rq_stdin_data := Some (tc_input_data tc),
        rq_timeout_seconds := timeout,
        rq_memory_limit := show_int (gj_memory_limit_mb job) @ lit ''m''\<rparr>"

text \<open>The fields every \<open>TestCaseVerdict(...)\<close> of the loop takes from the test case; the rest default.\<close>

definition case_verdict :: "test_case_data \<Rightarrow> evaluation_verdict \<Rightarrow> test_case_verdict" where
  "case_verdict tc st =
     \<lparr>tv_test_case_id = tc_id tc, tv_order = tc_order tc, tv_status = st, tv_passed = False,
      tv_duration_ms = 0, tv_memory_bytes = 0, tv_is_hidden = tc_is_hidden tc,
      tv_weight = tc_weight tc, tv_earned_points = 0, tv_input_data = Some (tc_input_data tc),
      tv_expected_output = Some (tc_expected_output tc), tv_actual_output = None,
      tv_diff = None, tv_error_message = None\<rparr>"

definition system_error_verdict :: "test_case_data \<Rightarrow> py_exn \<Rightarrow> test_case_verdict" where
  "system_error_verdict tc exc =
     (case_verdict tc EV_SYSTEM_ERROR)
       \<lparr>tv_error_message := Some (lit ''System error: '' @ exn_str exc)\<rparr>"

definition compile_failed_verdict :: "test_case_data \<Rightarrow> test_case_verdict" where
  "compile_failed_verdict tc =
     (case_verdict tc EV_COMPILE_ERROR)\<lparr>tv_error_message := Some (lit ''Compilation failed'')\<rparr>"

definition mem_bytes_of :: "execution_result \<Rightarrow> int" where
  "mem_bytes_of r = (case rs_peak_memory_bytes r of None \<Rightarrow> 0 | Some b \<Rightarrow> b)"

definition measured :: "execution_result \<Rightarrow> test_case_verdict \<Rightarrow> test_case_verdict" where
  "measured r v = v\<lparr>tv_duration_ms := rs_execution_time_ms r, tv_memory_bytes := mem_bytes_of r\<rparr>"

definition over_time :: "grading_job \<Rightarrow> execution_result \<Rightarrow> bool" where
  "over_time job r \<longleftrightarrow>
     rs_status r = ES_TIME_LIMIT_EXCEEDED \<or> rs_execution_time_ms r > gj_time_limit_ms job"

definition over_memory :: "grading_job \<Rightarrow> execution_result \<Rightarrow> bool" where
  "over_memory job r \<longleftrightarrow>
     rs_status r = ES_MEMORY_LIMIT_EXCEEDED \<or>
     mem_bytes_of r > gj_memory_limit_mb job * 1024 * 1024 \<and> gj_memory_limit_mb job * 1024 * 1024 > 0"

definition crashed :: "execution_result \<Rightarrow> bool" where
  "crashed r \<longleftrightarrow>
     rs_status r = ES_RUNTIME_ERROR \<or> (rs_exit_code r \<noteq> None \<and> rs_exit_code r \<noteq> Some 0)"

definition show_exit :: "int option \<Rightarrow> pstr" where
  "show_exit c = (case c of None \<Rightarrow> lit ''None'' | Some k \<Rightarrow> show_int k)"

text \<open>The verdict on a result that is not a compilation error, one branch per early \<open>continue\<close>.\<close>

definition judge_result ::
  "formatting \<Rightarrow> grading_job \<Rightarrow> test_case_data \<Rightarrow> execution_result \<Rightarrow> test_case_verdict" where
  "judge_result fmt job tc r =
     measured r
       (if over_time job r then
          (case_verdict tc EV_TIME_LIMIT_EXCEEDED)
            \<lparr>tv_actual_output := Some (rs_stdout r),
             tv_error_message :=
               Some (lit ''Time limit of '' @ show_int (gj_time_limit_ms job) @ lit ''ms exceeded'')\<rparr>
        else if over_memory job r then
          (case_verdict tc EV_MEMORY_LIMIT_EXCEEDED)
            \<lparr>tv_actual_output := Some (rs_stdout r),
             tv_error_message :=
               Some (lit ''Memory limit of '' @ show_int (gj_memory_limit_mb job) @ lit ''MB exceeded'')\<rparr>
        else if crashed r then
          (case_verdict tc EV_RUNTIME_ERROR)
            \<lparr>tv_actual_output := Some (rs_stdout r),
             tv_error_message :=
               Some (str_or (rs_stderr r)
                 (lit ''Process exited with non-zero code '' @ show_exit (rs_exit_code r)))\<rparr>
        else
          (case verify fmt (rs_stdout r) (tc_expected_output tc) (gj_mode job) epsilon_default of
             (is_match, diff, reason) \<Rightarrow>
               if is_match then
                 (case_verdict tc EV_ACCEPTED)
                   \<lparr>tv_passed := True, tv_earned_points := tc_weight tc,
                    tv_actual_output := Some (rs_stdout r)\<rparr>
               else
                 (case_verdict tc EV_WRONG_ANSWER)
                   \<lparr>tv_actual_output := Some (rs_stdout r), tv_diff := diff,
                    tv_error_message :=
                      Some (if opt_truthy reason then the reason else lit ''Output mismatch'')\<rparr>))"

text \<open>The variables the loop updates.\<close>

record grading_state =
  gr_results :: "test_case_verdict list"
  gr_total_score :: int
  gr_passed_count :: int
  gr_peak_memory :: int
  gr_total_exec_time :: int
  gr_compile_error :: "pstr option"

definition initial_grading :: grading_state where
  "initial_grading =
     \<lparr>gr_results = [], gr_total_score = 0, gr_passed_count = 0, gr_peak_memory = 0,
      gr_total_exec_time = 0, gr_compile_error = None\<rparr>"

definition note_usage :: "execution_result \<Rightarrow> grading_state \<Rightarrow> grading_state" where
  "note_usage r s =
     s\<lparr>gr_total_exec_time := gr_total_exec_time s + rs_execution_time_ms r,
       gr_peak_memory :=
         (if mem_bytes_of r > gr_peak_memory s then mem_bytes_of r else gr_peak_memory s)\<rparr>"

definition note_verdict :: "test_case_verdict \<Rightarrow> grading_state \<Rightarrow> grading_state" where
  "note_verdict v s =
     (if tv_passed v then
        s\<lparr>gr_results := gr_results s @ [v], gr_passed_count := gr_passed_count s + 1,
          gr_total_score := gr_total_score s + tv_weight v\<rparr>
      else s\<lparr>gr_results := gr_results s @ [v]\<rparr>)"

fun grade_loop ::
  "formatting \<Rightarrow> 'w driver \<Rightarrow> grading_job \<Rightarrow> pyfloat \<Rightarrow> test_case_data list \<Rightarrow> grading_state \<Rightarrow> 'w
     \<Rightarrow> (py_exn + grading_state) \<times> 'w" where
  "grade_loop fmt exec job timeout [] s w = (Inr s, w)"
| "grade_loop fmt exec job timeout (tc # tcs) s w =
     (case build_request (case_request job timeout tc) of
        Inl exc \<Rightarrow> (Inl exc, w)
      | Inr request \<Rightarrow>
          (case exec w request of
             (Inl exc, w') \<Rightarrow>
               grade_loop fmt exec job timeout tcs (note_verdict (system_error_verdict tc exc) s) w'
           | (Inr r, w') \<Rightarrow>
               if rs_status r = ES_COMPILE_ERROR then
                 (Inr ((note_usage r s)
                    \<lparr>gr_compile_error := Some (str_or (rs_compile_output r) (rs_stderr r)),
                     gr_results := gr_results s @ measured r (compile_failed_verdict tc) #
                                   map compile_failed_verdict tcs\<rparr>), w')
               else
                 grade_loop fmt exec job timeout tcs
                   (note_verdict (judge_result fmt job tc r) (note_usage r s)) w'))"

definition determine_overall_status ::
  "test_case_verdict list \<Rightarrow> pstr option \<Rightarrow> evaluation_verdict" where
  "determine_overall_status results compile_error =
     (if opt_truthy compile_error then EV_COMPILE_ERROR
      else if results = [] then EV_ACCEPTED
      else if list_all tv_passed results then EV_ACCEPTED
      else if list_ex tv_passed results then EV_PARTIAL
      else case find (\<lambda>r. \<not> tv_passed r) results of
             Some r \<Rightarrow> tv_status r
           | None \<Rightarrow> EV_WRONG_ANSWER)"

text \<open>
  \<open>round((total_score / max_score) * 100.0, 1)\<close>; the division of two integers is rounded
  once and raises \<open>OverflowError\<close> when it leaves the range of floats.
\<close>

definition percentage_of :: "int \<Rightarrow> int \<Rightarrow> py_exn + pyfloat" where
  "percentage_of total_score max_score =
     (if max_score > 0 then
        (case fl (of_int total_score / of_int max_score) of
           Fin q \<Rightarrow> Inr (float_round1 (fl (q * 100)))
         | _ \<Rightarrow> Inl OverflowError)
      else Inr (Fin 0))"

definition max_score_of :: "test_case_data list \<Rightarrow> int" where
  "max_score_of tcs = sum_list (map tc_weight tcs)"

definition summarise ::
  "grading_job \<Rightarrow> test_case_data list \<Rightarrow> grading_state \<Rightarrow> py_exn + grading_summary" where
  "summarise job tcs s =
     (case percentage_of (gr_total_score s) (max_score_of tcs) of
        Inl exc \<Rightarrow> Inl exc
      | Inr percentage \<Rightarrow>
          Inr \<lparr>gs_submission_id = gj_submission_id job, gs_problem_id = gj_problem_id job,
               gs_overall_status = determine_overall_status (gr_results s) (gr_compile_error s),
               gs_total_score = gr_total_score s, gs_max_score = max_score_of tcs,
               gs_percentage = percentage, gs_passed_count = gr_passed_count s,
               gs_total_test_cases = int (length tcs),
               gs_execution_time_ms = gr_total_exec_time s,
               gs_peak_memory_bytes = gr_peak_memory s, gs_compile_error = gr_compile_error s,
               gs_test_case_results = gr_results s, gs_metadata = []\<rparr>)"

definition evaluate_submission ::
  "formatting \<Rightarrow> 'w driver \<Rightarrow> grading_job \<Rightarrow> test_case_data list \<Rightarrow> 'w
     \<Rightarrow> (py_exn + grading_summary) \<times> 'w" where
  "evaluate_submission fmt exec job tcs w =
     (case timeout_sec (gj_time_limit_ms job) of
        Inl exc \<Rightarrow> (Inl exc, w)
      | Inr timeout \<Rightarrow>
          (case grade_loop fmt exec job timeout tcs initial_grading w of
             (Inl exc, w') \<Rightarrow> (Inl exc, w')
           | (Inr s, w') \<Rightarrow> (summarise job tcs s, w')))"

section \<open>What a student may see\<close>

definition redacted :: pstr where
  "redacted = lit ''[REDACTED: HIDDEN TEST CASE]''"

definition sanitize_verdict :: "test_case_verdict \<Rightarrow> test_case_verdict" where
  "sanitize_verdict res =
     (if tv_is_hidden res then
        res\<lparr>tv_is_hidden := True, tv_input_data := Some redacted,
            tv_expected_output := Some redacted, tv_actual_output := None, tv_diff := None,
            tv_error_message :=
              (if tv_passed res then None else Some (verdict_value (tv_status res)))\<rparr>
      else res)"

definition sanitize_for_student :: "grading_summary \<Rightarrow> grading_summary" where
  "sanitize_for_student summary =
     summary\<lparr>gs_test_case_results := map sanitize_verdict (gs_test_case_results summary)\<rparr>"

end
