(* ===== verification/Grading_Spec.thy ===== *)
theory Grading_Spec
  imports Grading
begin

text \<open>
  What grading means.  \<open>run_cases\<close> is the sequence of sandbox outcomes an evaluation
  observes, \<open>verdict_of\<close> the verdict on one outcome, and \<open>spec_state\<close> the totals as sums
  and maxima over that sequence.  \<open>grade_loop_spec\<close> proves that the loop with its running
  totals, early \<open>continue\<close>s and \<open>break\<close> computes them; the properties below follow from it.
\<close>

section \<open>The specification\<close>

type_synonym outcome = "py_exn + execution_result"

fun stops :: "outcome \<Rightarrow> bool" where
  "stops (Inl _) = False"
| "stops (Inr r) = (rs_status r = ES_COMPILE_ERROR)"

fun run_cases ::
  "'w driver \<Rightarrow> grading_job \<Rightarrow> pyfloat \<Rightarrow> test_case_data list \<Rightarrow> 'w \<Rightarrow> outcome list \<times> 'w" where
  "run_cases exec job timeout [] w = ([], w)"
| "run_cases exec job timeout (tc # tcs) w =
     (let (out, w') = exec w (case_request job timeout tc)
      in if stops out then ([out], w')
         else let (outs, w'') = run_cases exec job timeout tcs w' in (out # outs, w''))"

fun verdict_of :: "formatting \<Rightarrow> grading_job \<Rightarrow> test_case_data \<Rightarrow> outcome \<Rightarrow> test_case_verdict" where
  "verdict_of fmt job tc (Inl exc) = system_error_verdict tc exc"
| "verdict_of fmt job tc (Inr r) =
     (if rs_status r = ES_COMPILE_ERROR then measured r (compile_failed_verdict tc)
      else judge_result fmt job tc r)"

definition spec_results ::
  "formatting \<Rightarrow> grading_job \<Rightarrow> test_case_data list \<Rightarrow> outcome list \<Rightarrow> test_case_verdict list" where
  "spec_results fmt job tcs outs =
     map2 (verdict_of fmt job) tcs outs @ map compile_failed_verdict (drop (length outs) tcs)"

fun results_of :: "outcome list \<Rightarrow> execution_result list" where
  "results_of [] = []"
| "results_of (Inl _ # outs) = results_of outs"
| "results_of (Inr r # outs) = r # results_of outs"

definition compile_error_of :: "outcome list \<Rightarrow> pstr option" where
  "compile_error_of outs =
     map_option (\<lambda>r. str_or (rs_compile_output r) (rs_stderr r))
       (find (\<lambda>r. rs_status r = ES_COMPILE_ERROR) (results_of outs))"

definition earned :: "test_case_verdict list \<Rightarrow> int" where
  "earned vs = sum_list (map tv_earned_points vs)"

definition count_passed :: "test_case_verdict list \<Rightarrow> int" where
  "count_passed vs = int (length (filter tv_passed vs))"

definition spec_state :: "test_case_verdict list \<Rightarrow> outcome list \<Rightarrow> grading_state" where
  "spec_state vs outs =
     \<lparr>gr_results = vs, gr_total_score = earned vs, gr_passed_count = count_passed vs,
      gr_peak_memory = foldl max 0 (map mem_bytes_of (results_of outs)),
      gr_total_exec_time = sum_list (map rs_execution_time_ms (results_of outs)),
      gr_compile_error = compile_error_of outs\<rparr>"

text \<open>The fields of a job that a request's validity depends on.\<close>

definition job_valid :: "grading_job \<Rightarrow> pyfloat \<Rightarrow> bool" where
  "job_valid job timeout \<longleftrightarrow>
     length (gj_source_code job) \<le> 65536 \<and>
     float_le (Fin (1 / 2)) timeout \<and> float_le timeout (Fin 120)"

lemma request_valid_case [simp]: "request_valid (case_request job timeout tc) = job_valid job timeout"
  by (simp add: request_valid_def job_valid_def case_request_def default_request_def)

lemma build_case_request:
  "build_request (case_request job timeout tc) =
     (if job_valid job timeout then Inr (case_request job timeout tc)
      else Inl (ValidationError (lit ''ExecutionRequest'')))"
  by (simp add: build_request_def)

section \<open>Verdicts\<close>

lemmas verdict_defs = verdict_of.simps system_error_verdict_def compile_failed_verdict_def
  case_verdict_def measured_def judge_result_def

text \<open>When a test case passes.\<close>

definition case_passes :: "formatting \<Rightarrow> grading_job \<Rightarrow> test_case_data \<Rightarrow> execution_result \<Rightarrow> bool" where
  "case_passes fmt job tc r \<longleftrightarrow>
     rs_status r \<noteq> ES_COMPILE_ERROR \<and> \<not> over_time job r \<and> \<not> over_memory job r \<and> \<not> crashed r \<and>
     accepts (gj_mode job) epsilon_default fmt (rs_stdout r) (tc_expected_output tc)"

lemma verdict_passed [simp]:
  "tv_passed (verdict_of fmt job tc (Inl exc)) = False"
  "tv_passed (verdict_of fmt job tc (Inr r)) = case_passes fmt job tc r"
  by (auto simp: verdict_defs case_passes_def split: prod.splits)

lemma verdict_identity [simp]:
  "tv_test_case_id (verdict_of fmt job tc out) = tc_id tc"
  "tv_order (verdict_of fmt job tc out) = tc_order tc"
  "tv_weight (verdict_of fmt job tc out) = tc_weight tc"
  "tv_is_hidden (verdict_of fmt job tc out) = tc_is_hidden tc"
  by (cases out; simp add: verdict_defs split: prod.splits)+

lemma verdict_oracle [simp]:
  "tv_input_data (verdict_of fmt job tc out) = Some (tc_input_data tc)"
  "tv_expected_output (verdict_of fmt job tc out) = Some (tc_expected_output tc)"
  "tv_input_data (compile_failed_verdict tc) = Some (tc_input_data tc)"
  "tv_expected_output (compile_failed_verdict tc) = Some (tc_expected_output tc)"
  by (cases out; simp add: verdict_defs split: prod.splits)+

lemma compile_failed_simps [simp]:
  "tv_test_case_id (compile_failed_verdict tc) = tc_id tc"
  "tv_order (compile_failed_verdict tc) = tc_order tc"
  "tv_weight (compile_failed_verdict tc) = tc_weight tc"
  "tv_is_hidden (compile_failed_verdict tc) = tc_is_hidden tc"
  "tv_passed (compile_failed_verdict tc) = False"
  "tv_status (compile_failed_verdict tc) = EV_COMPILE_ERROR"
  "tv_earned_points (compile_failed_verdict tc) = 0"
  by (simp_all add: verdict_defs)

text \<open>A verdict is consistent: it passed exactly when it is \<open>ACCEPTED\<close>, and points follow.\<close>

definition verdict_ok :: "test_case_verdict \<Rightarrow> bool" where
  "verdict_ok v \<longleftrightarrow>
     (tv_passed v \<longleftrightarrow> tv_status v = EV_ACCEPTED) \<and>
     tv_earned_points v = (if tv_passed v then tv_weight v else 0)"

lemma verdict_of_ok: "verdict_ok (verdict_of fmt job tc out)"
  by (cases out; auto simp: verdict_ok_def verdict_defs split: prod.splits)

lemma compile_failed_ok: "verdict_ok (compile_failed_verdict tc)"
  by (simp add: verdict_ok_def)

lemma measured_ok [simp]: "verdict_ok (measured r v) = verdict_ok v"
  by (simp add: verdict_ok_def measured_def)

section \<open>The loop computes the specification\<close>

lemma spec_results_simps [simp]:
  "spec_results fmt job [] [] = []"
  "spec_results fmt job tcs [] = map compile_failed_verdict tcs"
  "spec_results fmt job (tc # tcs) (out # outs) =
     verdict_of fmt job tc out # spec_results fmt job tcs outs"
  by (simp_all add: spec_results_def)

lemma compile_error_simps [simp]:
  "compile_error_of [] = None"
  "compile_error_of (Inl e # outs) = compile_error_of outs"
  "compile_error_of (Inr r # outs) =
     (if rs_status r = ES_COMPILE_ERROR then Some (str_or (rs_compile_output r) (rs_stderr r))
      else compile_error_of outs)"
  by (simp_all add: compile_error_of_def)

lemma earned_simps [simp]: "earned [] = 0" "earned (v # vs) = tv_earned_points v + earned vs"
  "earned (us @ vs) = earned us + earned vs"
  by (simp_all add: earned_def)

lemma count_passed_simps [simp]: "count_passed [] = 0"
  "count_passed (v # vs) = (if tv_passed v then 1 else 0) + count_passed vs"
  "count_passed (us @ vs) = count_passed us + count_passed vs"
  by (simp_all add: count_passed_def)

lemma compile_failed_totals [simp]:
  "earned (map compile_failed_verdict tcs) = 0" "count_passed (map compile_failed_verdict tcs) = 0"
  by (induction tcs) simp_all

text \<open>The loop continues from any state; \<open>extend\<close> says how.\<close>

definition extend :: "grading_state \<Rightarrow> test_case_verdict list \<Rightarrow> outcome list \<Rightarrow> grading_state" where
  "extend s vs outs =
     \<lparr>gr_results = gr_results s @ vs, gr_total_score = gr_total_score s + earned vs,
      gr_passed_count = gr_passed_count s + count_passed vs,
      gr_peak_memory = foldl max (gr_peak_memory s) (map mem_bytes_of (results_of outs)),
      gr_total_exec_time =
        gr_total_exec_time s + sum_list (map rs_execution_time_ms (results_of outs)),
      gr_compile_error =
        (case compile_error_of outs of None \<Rightarrow> gr_compile_error s | Some t \<Rightarrow> Some t)\<rparr>"

lemma extend_initial: "extend initial_grading vs outs = spec_state vs outs"
  by (simp add: extend_def initial_grading_def spec_state_def split: option.splits)

lemma extend_error:
  "extend (note_verdict (verdict_of fmt job tc (Inl exc)) s) vs outs =
   extend s (verdict_of fmt job tc (Inl exc) # vs) (Inl exc # outs)"
  by (simp add: extend_def note_verdict_def verdict_defs cong: option.case_cong)

lemma extend_result:
  "rs_status r \<noteq> ES_COMPILE_ERROR \<Longrightarrow>
   extend (note_verdict (verdict_of fmt job tc (Inr r)) (note_usage r s)) vs outs =
   extend s (verdict_of fmt job tc (Inr r) # vs) (Inr r # outs)"
  using verdict_of_ok [of fmt job tc "Inr r"]
  by (auto simp: extend_def note_verdict_def note_usage_def verdict_ok_def max_def
      simp del: verdict_of.simps cong: option.case_cong)

lemma extend_stop:
  "rs_status r = ES_COMPILE_ERROR \<Longrightarrow>
   (note_usage r s)\<lparr>gr_compile_error := Some (str_or (rs_compile_output r) (rs_stderr r)),
                    gr_results := gr_results s @ verdict_of fmt job tc (Inr r) #
                                  map compile_failed_verdict tcs\<rparr> =
   extend s (verdict_of fmt job tc (Inr r) # map compile_failed_verdict tcs) [Inr r]"
  using verdict_of_ok [of fmt job tc "Inr r"]
  by (auto simp: extend_def note_usage_def verdict_ok_def max_def case_passes_def
      simp del: verdict_of.simps)

lemma grade_loop_spec:
  "job_valid job timeout \<Longrightarrow>
   grade_loop fmt exec job timeout tcs s w =
     (let (outs, w') = run_cases exec job timeout tcs w
      in (Inr (extend s (spec_results fmt job tcs outs) outs), w'))"
proof (induction tcs arbitrary: s w)
  case Nil
  then show ?case by (simp add: extend_def)
next
  case (Cons tc tcs)
  obtain out w' where x: "exec w (case_request job timeout tc) = (out, w')" by fastforce
  obtain outs w'' where rest: "run_cases exec job timeout tcs w' = (outs, w'')" by fastforce
  show ?case
  proof (cases out)
    case (Inl exc)
    then show ?thesis
      using Cons x rest extend_error [of fmt job tc exc s]
      by (simp add: build_case_request)
  next
    case (Inr r)
    show ?thesis
    proof (cases "rs_status r = ES_COMPILE_ERROR")
      case True
      then show ?thesis
        using Cons.prems x Inr extend_stop [OF True, of s fmt job tc tcs]
        by (simp add: build_case_request)
    next
      case False
      then show ?thesis
        using Cons x rest Inr extend_result [OF False, of fmt job tc s]
        by (simp add: build_case_request)
    qed
  qed
qed

lemma grade_loop_invalid:
  "\<not> job_valid job timeout \<Longrightarrow> grade_loop fmt exec job timeout (tc # tcs) s w =
     (Inl (ValidationError (lit ''ExecutionRequest'')), w)"
  by (simp add: build_case_request)

section \<open>Facts about a run\<close>

lemma run_cases_length:
  "length (fst (run_cases exec job timeout tcs w)) \<le> length tcs"
  by (induction tcs arbitrary: w) (auto simp: Let_def split: prod.splits, metis fst_conv)

lemma spec_results_length:
  "length outs \<le> length tcs \<Longrightarrow> length (spec_results fmt job tcs outs) = length tcs"
  by (simp add: spec_results_def)

lemma spec_results_map:
  assumes "\<And>tc out. f (verdict_of fmt job tc out) = g tc"
    and "\<And>tc. f (compile_failed_verdict tc) = g tc"
    and "length outs \<le> length tcs"
  shows "map f (spec_results fmt job tcs outs) = map g tcs"
  using assms(3)
proof (induction tcs arbitrary: outs)
  case (Cons tc tcs)
  then show ?case by (cases outs) (simp_all add: assms(1,2) del: verdict_of.simps)
qed simp

lemma spec_results_ok: "list_all verdict_ok (spec_results fmt job tcs outs)"
  by (auto simp: spec_results_def list_all_iff verdict_of_ok compile_failed_ok set_zip
      simp del: verdict_of.simps)

lemma earned_bounds:
  "list_all verdict_ok vs \<Longrightarrow> list_all (\<lambda>v. 0 \<le> tv_weight v) vs \<Longrightarrow>
   0 \<le> earned vs \<and> earned vs \<le> sum_list (map tv_weight vs)"
  by (induction vs) (auto simp: verdict_ok_def)

end
