(* ===== verification/Grading_Claims.thy ===== *)
theory Grading_Claims
  imports Grading_Spec
begin

text \<open>
  The properties of the autograder: it computes the specification of \<open>Grading_Spec\<close>, its
  scores and percentage stay in range, its overall status means what it says, a test case
  passes exactly under the stated conditions, and sanitising a summary for a student
  forgets exactly the hidden oracle data.  The section on drivers is the client side of
  the locale \<open>sandbox_driver\<close>.
\<close>

section \<open>Percentages\<close>

lemma percentage_bounds:
  assumes "0 \<le> t" "t \<le> m"
  obtains p where "percentage_of t m = Inr (Fin p)" "0 \<le> p" "p \<le> 100"
proof (cases "0 < m")
  case False
  then show ?thesis using that [of 0] by (simp add: percentage_of_def)
next
  case True
  have "(0::rat) \<le> of_int t / of_int m" "(of_int t / of_int m :: rat) \<le> of_int 1" "(1::int) < 2 ^ 52"
    using assms True by (simp_all add: divide_simps)
  then obtain q where q: "fl (of_int t / of_int m) = Fin q" "0 \<le> q" "q \<le> of_int 1"
    by (rule fl_int_bound)
  have "0 \<le> q * 100" "q * 100 \<le> of_int 100" "(100::int) < 2 ^ 52" using q by simp_all
  then obtain r where r: "fl (q * 100) = Fin r" "0 \<le> r" "r \<le> of_int 100" by (rule fl_int_bound)
  have "rnd_even (r * 10) \<le> 1000" "0 \<le> rnd_even (r * 10)"
    using r by (auto intro: rnd_even_le rnd_even_ge)
  then have "(0::rat) \<le> of_int (rnd_even (r * 10)) / 10"
    "of_int (rnd_even (r * 10)) / 10 \<le> (of_int 100 :: rat)" "(100::int) < 2 ^ 52"
    by simp_all
  then obtain p where "fl (of_int (rnd_even (r * 10)) / 10) = Fin p" "0 \<le> p" "p \<le> of_int 100"
    by (rule fl_int_bound)
  with True q(1) r(1) show ?thesis using that [of p] by (simp add: percentage_of_def)
qed

lemma percentage_full: "0 < m \<Longrightarrow> percentage_of m m = Inr (Fin 100)"
proof -
  assume "0 < m"
  moreover have "fl 1 = Fin 1" "fl 100 = Fin 100"
    using fl_of_int [of 1] fl_of_int [of 100] by simp_all
  moreover have "rnd_even (100 * 10) = 1000" using rnd_even_of_int [of 1000] by simp
  ultimately show ?thesis by (simp add: percentage_of_def)
qed

section \<open>The time limit given to the sandbox\<close>

definition case_timeout :: "grading_job \<Rightarrow> pyfloat" where
  "case_timeout job = float_max (Fin (1 / 2)) (fl (of_int (gj_time_limit_ms job) / 1000))"

definition job_in_range :: "grading_job \<Rightarrow> bool" where
  "job_in_range job \<longleftrightarrow>
     length (gj_source_code job) \<le> 65536 \<and>
     0 \<le> gj_time_limit_ms job \<and> gj_time_limit_ms job \<le> 120000"

lemma job_in_range_valid:
  assumes "job_in_range job"
  shows "timeout_sec (gj_time_limit_ms job) = Inr (case_timeout job)"
    and "job_valid job (case_timeout job)"
proof -
  let ?ms = "gj_time_limit_ms job"
  have ms: "0 \<le> ?ms" "?ms \<le> 120000" using assms by (simp_all add: job_in_range_def)
  then have "fl (of_int ?ms) = Fin (of_int ?ms)" by (intro fl_of_int) simp
  then show "timeout_sec ?ms = Inr (case_timeout job)"
    by (simp add: timeout_sec_def case_timeout_def)
  have "(0::rat) \<le> of_int ?ms / 1000" "of_int ?ms / 1000 \<le> (of_int 120 :: rat)" "(120::int) < 2 ^ 52"
    using ms by simp_all
  then obtain y where "fl (of_int ?ms / 1000) = Fin y" "0 \<le> y" "y \<le> of_int 120"
    by (rule fl_int_bound)
  then show "job_valid job (case_timeout job)"
    using assms by (auto simp: job_valid_def case_timeout_def float_max_def job_in_range_def)
qed

section \<open>Evaluations and their summaries\<close>

definition spec_summary ::
  "grading_job \<Rightarrow> test_case_data list \<Rightarrow> test_case_verdict list \<Rightarrow> outcome list \<Rightarrow> rat
     \<Rightarrow> grading_summary" where
  "spec_summary job tcs vs outs p =
     \<lparr>gs_submission_id = gj_submission_id job, gs_problem_id = gj_problem_id job,
      gs_overall_status = determine_overall_status vs (compile_error_of outs),
      gs_total_score = earned vs, gs_max_score = max_score_of tcs, gs_percentage = Fin p,
      gs_passed_count = count_passed vs, gs_total_test_cases = int (length tcs),
      gs_execution_time_ms = sum_list (map rs_execution_time_ms (results_of outs)),
      gs_peak_memory_bytes = foldl max 0 (map mem_bytes_of (results_of outs)),
      gs_compile_error = compile_error_of outs, gs_test_case_results = vs, gs_metadata = []\<rparr>"

lemma evaluation_computes:
  "job_in_range job \<Longrightarrow> run_cases exec job (case_timeout job) tcs w = (outs, w') \<Longrightarrow>
   evaluate_submission fmt exec job tcs w =
     (summarise job tcs (spec_state (spec_results fmt job tcs outs) outs), w')"
  using job_in_range_valid [of job]
  by (simp add: evaluate_submission_def grade_loop_spec extend_initial)

text \<open>The other direction: what a returned summary was computed from.\<close>

lemma evaluation_inversion:
  assumes "evaluate_submission fmt exec job tcs w = (Inr sm, w')"
  obtains t outs where "run_cases exec job t tcs w = (outs, w')"
    and "summarise job tcs (spec_state (spec_results fmt job tcs outs) outs) = Inr sm"
proof -
  obtain t where t: "timeout_sec (gj_time_limit_ms job) = Inr t"
    using assms by (auto simp: evaluate_submission_def split: sum.splits)
  obtain outs v where run: "run_cases exec job t tcs w = (outs, v)" by fastforce
  have "grade_loop fmt exec job t tcs initial_grading w =
      (Inr (spec_state (spec_results fmt job tcs outs) outs), v)"
  proof (cases "job_valid job t")
    case True
    then show ?thesis by (simp add: grade_loop_spec run extend_initial)
  next
    case False
    then have "tcs = []"
      using assms t grade_loop_invalid [OF False, of fmt exec]
      by (cases tcs) (auto simp: evaluate_submission_def simp del: grade_loop.simps)
    then show ?thesis using run by (auto simp: spec_state_def initial_grading_def)
  qed
  then have "summarise job tcs (spec_state (spec_results fmt job tcs outs) outs) = Inr sm" "v = w'"
    using assms t by (auto simp: evaluate_submission_def split: sum.splits)
  with run that show ?thesis by blast
qed

text \<open>The results of a summary, and what the summary says about them.\<close>

lemma summary_facts:
  assumes "evaluate_submission fmt exec job tcs w = (Inr sm, w')"
  obtains t outs vs where "run_cases exec job t tcs w = (outs, w')"
    and "vs = spec_results fmt job tcs outs" and "gs_test_case_results sm = vs"
    and "length outs \<le> length tcs" and "list_all verdict_ok vs"
    and "gs_total_score sm = earned vs" and "gs_max_score sm = max_score_of tcs"
    and "gs_passed_count sm = count_passed vs" and "gs_total_test_cases sm = int (length tcs)"
    and "gs_compile_error sm = compile_error_of outs"
    and "gs_overall_status sm = determine_overall_status vs (compile_error_of outs)"
    and "percentage_of (earned vs) (max_score_of tcs) = Inr (gs_percentage sm)"
proof -
  from evaluation_inversion [OF assms] obtain t outs where
    run: "run_cases exec job t tcs w = (outs, w')" and
    sm: "summarise job tcs (spec_state (spec_results fmt job tcs outs) outs) = Inr sm" .
  have "length outs \<le> length tcs" using run_cases_length [of exec job t tcs w] run by simp
  with run sm that [of t outs "spec_results fmt job tcs outs"] spec_results_ok show ?thesis
    by (auto simp: summarise_def spec_state_def split: sum.splits)
qed

lemma weights_of_results:
  "length outs \<le> length tcs \<Longrightarrow> map tv_weight (spec_results fmt job tcs outs) = map tc_weight tcs"
  by (rule spec_results_map) simp_all

lemma list_all_weights:
  "list_all (\<lambda>v. 0 \<le> tv_weight v) vs \<longleftrightarrow> list_all (\<lambda>x. 0 \<le> x) (map tv_weight vs)"
  by (simp add: list_all_iff)

lemma earned_in_range:
  assumes "length outs \<le> length tcs" "list_all (\<lambda>tc. 0 \<le> tc_weight tc) tcs"
  shows "0 \<le> earned (spec_results fmt job tcs outs) \<and>
         earned (spec_results fmt job tcs outs) \<le> max_score_of tcs"
proof -
  let ?vs = "spec_results fmt job tcs outs"
  have "map tv_weight ?vs = map tc_weight tcs" by (rule weights_of_results [OF assms(1)])
  moreover from this have "list_all (\<lambda>v. 0 \<le> tv_weight v) ?vs"
    unfolding list_all_weights using assms(2) by (simp add: list_all_iff)
  ultimately show ?thesis
    using earned_bounds [OF spec_results_ok] by (metis max_score_of_def)
qed

section \<open>The overall status\<close>

lemma verdict_status_range:
  "tv_status (verdict_of fmt job tc out) \<noteq> EV_PARTIAL \<and>
   tv_status (verdict_of fmt job tc out) \<noteq> EV_PENDING"
  by (cases out; auto simp: verdict_defs split: prod.splits)

lemma spec_results_status:
  "v \<in> set (spec_results fmt job tcs outs) \<Longrightarrow>
   tv_status v \<noteq> EV_PARTIAL \<and> tv_status v \<noteq> EV_PENDING"
  using verdict_status_range
  by (auto simp: spec_results_def set_zip simp del: verdict_of.simps)

lemma compile_error_not_passed:
  "compile_error_of outs \<noteq> None \<Longrightarrow> length outs \<le> length tcs \<Longrightarrow>
   \<not> list_all tv_passed (spec_results fmt job tcs outs)"
proof (induction outs arbitrary: tcs)
  case (Cons out outs)
  then obtain tc tcs' where tcs: "tcs = tc # tcs'" by (cases tcs) auto
  with Cons show ?case
    by (cases out) (auto simp: case_passes_def simp del: verdict_of.simps split: if_splits)
qed simp

lemma find_not_passed:
  "\<not> list_all tv_passed vs \<Longrightarrow>
   \<exists>v. find (\<lambda>r. \<not> tv_passed r) vs = Some v \<and> v \<in> set vs \<and> \<not> tv_passed v"
  by (induction vs) auto

section \<open>What sanitising forgets\<close>

text \<open>An evaluation within the limits returns a summary.\<close>

lemma evaluation_returns:
  assumes "job_in_range job" and "list_all (\<lambda>tc. 0 \<le> tc_weight tc) tcs"
  shows "\<exists>sm w'. evaluate_submission fmt exec job tcs w = (Inr sm, w')"
proof -
  obtain outs w' where run: "run_cases exec job (case_timeout job) tcs w = (outs, w')" by fastforce
  have "length outs \<le> length tcs"
    using run_cases_length [of exec job "case_timeout job" tcs w] run by simp
  then obtain p where "percentage_of (earned (spec_results fmt job tcs outs)) (max_score_of tcs) = Inr (Fin p)"
    using percentage_bounds earned_in_range [OF _ assms(2)] by metis
  then show ?thesis
    using evaluation_computes [OF assms(1) run, of fmt]
    by (simp add: summarise_def spec_state_def)
qed

text \<open>An evaluation out of the limits raises before the first run.\<close>

lemma evaluation_out_of_range:
  assumes "65536 < length (gj_source_code job)" and "tcs \<noteq> []"
    and "timeout_sec (gj_time_limit_ms job) = Inr t"
  shows "evaluate_submission fmt exec job tcs w = (Inl (ValidationError (lit ''ExecutionRequest'')), w)"
  using assms grade_loop_invalid [of job t fmt exec]
  by (cases tcs) (auto simp: evaluate_submission_def job_valid_def simp del: grade_loop.simps)

text \<open>The results carry the oracles of their test cases.\<close>

lemma summary_oracles:
  assumes "evaluate_submission fmt exec job tcs w = (Inr sm, w')"
  shows "map (\<lambda>v. (tv_test_case_id v, tv_input_data v, tv_expected_output v)) (gs_test_case_results sm) =
    map (\<lambda>tc. (tc_id tc, Some (tc_input_data tc), Some (tc_expected_output tc))) tcs"
proof -
  from summary_facts [OF assms] obtain outs where
    vs: "gs_test_case_results sm = spec_results fmt job tcs outs" and len: "length outs \<le> length tcs" by metis
  show ?thesis unfolding vs by (rule spec_results_map [OF _ _ len]) (simp_all del: verdict_of.simps)
qed

text \<open>The part of a verdict that does not depend on the oracle data.\<close>

definition public_view :: "test_case_verdict \<Rightarrow> test_case_verdict" where
  "public_view v =
     v\<lparr>tv_input_data := None, tv_expected_output := None, tv_actual_output := None,
       tv_diff := None, tv_error_message := None\<rparr>"

definition same_to_student :: "test_case_verdict \<Rightarrow> test_case_verdict \<Rightarrow> bool" where
  "same_to_student v v' \<longleftrightarrow>
     (if tv_is_hidden v then public_view v = public_view v' else v = v')"

lemma sanitize_verdict_eq:
  "sanitize_verdict v = sanitize_verdict v' \<longleftrightarrow> same_to_student v v'"
  by (cases v; cases v')
    (auto simp: sanitize_verdict_def same_to_student_def public_view_def)

lemma map_eq_list_all2:
  "map f xs = map g ys \<longleftrightarrow> list_all2 (\<lambda>x y. f x = g y) xs ys"
  by (simp add: list_all2_conv_all_nth list_eq_iff_nth_eq) auto

lemma sanitize_for_student_eq:
  "sanitize_for_student sm = sanitize_for_student sm' \<longleftrightarrow>
     sm\<lparr>gs_test_case_results := []\<rparr> = sm'\<lparr>gs_test_case_results := []\<rparr> \<and>
     list_all2 same_to_student (gs_test_case_results sm) (gs_test_case_results sm')"
  by (cases sm; cases sm')
    (auto simp: sanitize_for_student_def map_eq_list_all2 sanitize_verdict_eq)

section \<open>Stopping at a compilation error\<close>

lemma run_cases_append:
  assumes "run_cases exec job t pre w = (outs, w1)" and "list_all (\<lambda>out. \<not> stops out) outs"
  shows "run_cases exec job t (pre @ post) w =
           (let (outs', w2) = run_cases exec job t post w1 in (outs @ outs', w2)) \<and>
         length outs = length pre"
  using assms
proof (induction pre arbitrary: w outs)
  case (Cons tc pre)
  obtain out w' where x: "exec w (case_request job t tc) = (out, w')" by fastforce
  obtain outs' w'' where r: "run_cases exec job t pre w' = (outs', w'')" by fastforce
  have "\<not> stops out" using Cons.prems x by (auto split: if_splits)
  then have "outs = out # outs'" "w'' = w1" "list_all (\<lambda>out. \<not> stops out) outs'"
    using Cons.prems x r by auto
  with Cons.IH [of w' outs'] x r \<open>\<not> stops out\<close> show ?case
    by (auto simp: Let_def split: prod.splits)
qed auto

lemma spec_results_append:
  "length outs = length pre \<Longrightarrow>
   spec_results fmt job (pre @ post) (outs @ outs') =
     spec_results fmt job pre outs @ spec_results fmt job post outs'"
  by (simp add: spec_results_def)

lemma compile_error_append:
  "list_all (\<lambda>out. \<not> stops out) outs \<Longrightarrow>
   compile_error_of (outs @ outs') = compile_error_of outs'"
proof (induction outs)
  case (Cons out outs)
  then show ?case by (cases out) auto
qed simp

section \<open>Grading with a driver that keeps its contract\<close>

definition output_within :: "nat \<Rightarrow> test_case_verdict \<Rightarrow> bool" where
  "output_within n v \<longleftrightarrow>
     (case tv_actual_output v of None \<Rightarrow> True | Some s \<Rightarrow> utf8_len s \<le> n)"

lemma compile_failed_within: "output_within n (compile_failed_verdict tc)"
  by (simp add: output_within_def verdict_defs)

lemma verdict_within:
  "(\<And>r. out = Inr r \<Longrightarrow> utf8_len (rs_stdout r) \<le> n) \<Longrightarrow>
   output_within n (verdict_of fmt job tc out)"
  by (cases out; auto simp: output_within_def verdict_defs split: prod.splits)

context reporting_driver
begin

text \<open>A case that passes ran to completion, hit the output ceiling, or the driver itself failed.\<close>

lemma passing_status:
  "fst (exec w rq) = Inr r \<Longrightarrow> case_passes fmt job tc r \<Longrightarrow>
   rs_status r = ES_COMPLETED \<and> rs_exit_code r = Some 0 \<or>
   rs_status r = ES_SYSTEM_ERROR \<and> rs_stdout r = [] \<or>
   rs_status r \<in> {ES_OUTPUT_LIMIT_EXCEEDED, ES_RESOURCE_LIMIT_EXCEEDED, ES_SECURITY_VIOLATION}"
  using exit [of w rq r]
  by (cases "rs_status r") (auto simp: exit_ok_def case_passes_def crashed_def over_time_def over_memory_def)

end

context sandbox_driver
begin

lemma outcomes_within:
  "run_cases exec job t tcs w = (outs, w') \<Longrightarrow>
   list_all (\<lambda>v. output_within 1048576 v) (spec_results fmt job tcs outs)"
proof (induction tcs arbitrary: w outs w')
  case (Cons tc tcs)
  obtain out w1 where x: "exec w (case_request job t tc) = (out, w1)" by fastforce
  obtain outs' w2 where r: "run_cases exec job t tcs w1 = (outs', w2)" by fastforce
  have "output_within 1048576 (verdict_of fmt job tc out)"
    using output_cap [of w "case_request job t tc"] x
    by (intro verdict_within) (auto simp: output_ok_def case_request_def default_request_def)
  moreover have "list_all (\<lambda>v. output_within 1048576 v) (map compile_failed_verdict tcs)"
    by (simp add: list_all_iff compile_failed_within)
  ultimately show ?case
    using Cons.prems Cons.IH [OF r] x r by (auto simp del: verdict_of.simps split: if_splits)
qed auto

lemma summary_within:
  assumes "evaluate_submission fmt exec job tcs w = (Inr sm, w')"
  shows "list_all (\<lambda>v. output_within 1048576 v) (gs_test_case_results sm)"
  using summary_facts [OF assms] outcomes_within by metis

end

section \<open>A concrete evaluation\<close>

text \<open>A driver that echoes its input and counts its calls; two cases, one of them hidden.\<close>

definition echo_driver :: "nat driver" where
  "echo_driver n rq =
     (Inr ((default_result ES_COMPLETED)
        \<lparr>rs_exit_code := Some 0,
         rs_stdout := (case rq_stdin_data rq of None \<Rightarrow> [] | Some s \<Rightarrow> s)\<rparr>), Suc n)"

definition demo_job :: grading_job where
  "demo_job =
     \<lparr>gj_submission_id = lit ''s1'', gj_problem_id = lit ''p1'', gj_source_code = lit ''x'',
      gj_language = lit ''python'', gj_time_limit_ms = 2000, gj_memory_limit_mb = 128,
      gj_mode = STRICT\<rparr>"

definition demo_cases :: "test_case_data list" where
  "demo_cases =
     [\<lparr>tc_id = lit ''a'', tc_input_data = lit ''1'', tc_expected_output = lit ''1'',
       tc_is_hidden = False, tc_weight = 10, tc_order = 1, tc_explanation = None\<rparr>,
      \<lparr>tc_id = lit ''b'', tc_input_data = lit ''2'', tc_expected_output = lit ''3'',
       tc_is_hidden = True, tc_weight = 20, tc_order = 2, tc_explanation = None\<rparr>]"

lemma demo_in_range: "job_in_range demo_job" "list_all (\<lambda>tc. 0 \<le> tc_weight tc) demo_cases"
  by (simp_all add: job_in_range_def demo_job_def demo_cases_def)

text \<open>A driver on which nothing compiles.\<close>

definition broken_driver :: "nat driver" where
  "broken_driver n rq =
     (Inr ((default_result ES_COMPILE_ERROR)\<lparr>rs_stderr := lit ''e''\<rparr>), Suc n)"

lemma demo_run:
  obtains outs where "run_cases echo_driver demo_job (case_timeout demo_job) demo_cases 0 = (outs, 2)"
  by (simp add: demo_cases_def echo_driver_def Let_def default_result_def)

lemma demo_evaluates:
  "\<exists>sm. evaluate_submission fmt echo_driver demo_job demo_cases 0 = (Inr sm, 2)"
proof -
  obtain outs where run: "run_cases echo_driver demo_job (case_timeout demo_job) demo_cases 0 = (outs, 2)"
    by (rule demo_run)
  have len: "length outs \<le> length demo_cases"
    using run_cases_length [of echo_driver demo_job "case_timeout demo_job" demo_cases 0] run by simp
  obtain p where "percentage_of (earned (spec_results fmt demo_job demo_cases outs))
      (max_score_of demo_cases) = Inr (Fin p)"
    using percentage_bounds earned_in_range [OF len demo_in_range(2)] by metis
  then show ?thesis
    using evaluation_computes [OF demo_in_range(1) run, of fmt]
    by (simp add: summarise_def spec_state_def)
qed

section \<open>Properties\<close>

text \<open>C7. Grading a submission computes its specification.  For a job within the limits of
  an execution request and non-negative weights, the evaluation returns a summary whatever
  the sandbox does, exceptions included: the sandbox runs the test cases in order up to
  the first compilation error, each case gets the verdict of its own outcome and the cases
  after a compilation error a failed one, the score is the sum of the points earned, the
  time the sum and the memory the maximum over the runs, and the percentage is between 0
  and 100, and 100 when every point is earned.\<close>

theorem evaluation_meets_spec:
  assumes "job_in_range job" and "list_all (\<lambda>tc. 0 \<le> tc_weight tc) tcs"
    and "run_cases exec job (case_timeout job) tcs w = (outs, w')"
  shows "\<exists>p. evaluate_submission fmt exec job tcs w =
               (Inr (spec_summary job tcs (spec_results fmt job tcs outs) outs p), w') \<and>
             0 \<le> p \<and> p \<le> 100 \<and>
             (0 < max_score_of tcs \<and>
              earned (spec_results fmt job tcs outs) = max_score_of tcs \<longrightarrow> p = 100)"
proof -
  let ?vs = "spec_results fmt job tcs outs"
  have len: "length outs \<le> length tcs"
    using run_cases_length [of exec job "case_timeout job" tcs w] assms(3) by simp
  obtain p where p: "percentage_of (earned ?vs) (max_score_of tcs) = Inr (Fin p)" "0 \<le> p" "p \<le> 100"
    using percentage_bounds earned_in_range [OF len assms(2)] by metis
  have "evaluate_submission fmt exec job tcs w = (summarise job tcs (spec_state ?vs outs), w')"
    by (rule evaluation_computes [OF assms(1,3)])
  also have "summarise job tcs (spec_state ?vs outs) = Inr (spec_summary job tcs ?vs outs p)"
    using p(1) by (simp add: summarise_def spec_state_def spec_summary_def)
  finally show ?thesis using p percentage_full [of "max_score_of tcs"] by auto
qed

theorem evaluation_meets_spec_witness:
  "\<exists>outs p. evaluate_submission plain_fmt echo_driver demo_job demo_cases 0 =
     (Inr (spec_summary demo_job demo_cases (spec_results plain_fmt demo_job demo_cases outs) outs p), 2) \<and>
     0 \<le> p \<and> p \<le> 100"
  using demo_run evaluation_meets_spec [OF demo_in_range] by metis

text \<open>C12. Scores add up.  In the summary of every evaluation there is one result per test
  case, in order and with the case's own identity and weight; the total score is the sum
  of the weights of the cases that passed; and with non-negative weights the score lies
  between 0 and the maximum score and the percentage between 0 and 100.\<close>

theorem score_accounting:
  assumes "evaluate_submission fmt exec job tcs w = (Inr sm, w')"
  shows "map tv_test_case_id (gs_test_case_results sm) = map tc_id tcs \<and>
         map tv_is_hidden (gs_test_case_results sm) = map tc_is_hidden tcs \<and>
         gs_total_score sm =
           sum_list (map tv_weight (filter tv_passed (gs_test_case_results sm))) \<and>
         gs_passed_count sm = int (length (filter tv_passed (gs_test_case_results sm))) \<and>
         gs_max_score sm = sum_list (map tc_weight tcs) \<and>
         (list_all (\<lambda>tc. 0 \<le> tc_weight tc) tcs \<longrightarrow>
            0 \<le> gs_total_score sm \<and> gs_total_score sm \<le> gs_max_score sm \<and>
            (\<exists>p. gs_percentage sm = Fin p \<and> 0 \<le> p \<and> p \<le> 100))"
proof -
  from summary_facts [OF assms] obtain outs vs where
    vs: "vs = spec_results fmt job tcs outs" "gs_test_case_results sm = vs" and
    len: "length outs \<le> length tcs" and ok: "list_all verdict_ok vs" and
    sm: "gs_total_score sm = earned vs" "gs_max_score sm = max_score_of tcs"
      "gs_passed_count sm = count_passed vs"
      "percentage_of (earned vs) (max_score_of tcs) = Inr (gs_percentage sm)" by metis
  have "map tv_test_case_id vs = map tc_id tcs" "map tv_is_hidden vs = map tc_is_hidden tcs"
    unfolding vs(1) by (rule spec_results_map [OF _ _ len]; simp)+
  moreover have "earned vs = sum_list (map tv_weight (filter tv_passed vs))"
    using ok by (induction vs) (auto simp: verdict_ok_def)
  moreover have "0 \<le> earned vs \<and> earned vs \<le> max_score_of tcs \<and>
      (\<exists>p. gs_percentage sm = Fin p \<and> 0 \<le> p \<and> p \<le> 100)"
    if "list_all (\<lambda>tc. 0 \<le> tc_weight tc) tcs"
    using percentage_bounds [of "earned vs" "max_score_of tcs"] sm(4)
      earned_in_range [OF len that, of fmt job] vs(1) by (metis sum.inject(2))
  ultimately show ?thesis
    using vs(2) sm by (simp add: count_passed_def max_score_of_def)
qed

theorem score_accounting_witness:
  "\<exists>sm. evaluate_submission plain_fmt echo_driver demo_job demo_cases 0 = (Inr sm, 2) \<and>
     map tv_test_case_id (gs_test_case_results sm) = [lit ''a'', lit ''b''] \<and>
     gs_max_score sm = 30 \<and> gs_total_score sm \<le> 30"
proof -
  obtain sm where sm: "evaluate_submission plain_fmt echo_driver demo_job demo_cases 0 = (Inr sm, 2)"
    using demo_evaluates by blast
  have "gs_max_score sm = 30"
    using score_accounting [OF sm] by (simp add: demo_cases_def)
  then show ?thesis
    using score_accounting [OF sm] sm demo_in_range(2) by (simp add: demo_cases_def)
qed

text \<open>The overall status means what it says: a submission is \<open>ACCEPTED\<close> exactly when
  every test case passed, whatever the compiler printed; \<open>PARTIAL\<close> exactly when some but
  not all passed and no compiler output was recorded; and it is never left \<open>PENDING\<close>.\<close>

lemma overall_status_meaning:
  assumes "evaluate_submission fmt exec job tcs w = (Inr sm, w')"
  shows "(gs_overall_status sm = EV_ACCEPTED \<longleftrightarrow> list_all tv_passed (gs_test_case_results sm)) \<and>
         (gs_overall_status sm = EV_PARTIAL \<longleftrightarrow>
            \<not> opt_truthy (gs_compile_error sm) \<and>
            list_ex tv_passed (gs_test_case_results sm) \<and>
            \<not> list_all tv_passed (gs_test_case_results sm)) \<and>
         gs_overall_status sm \<noteq> EV_PENDING"
proof -
  from summary_facts [OF assms] obtain outs vs where
    vs: "vs = spec_results fmt job tcs outs" "gs_test_case_results sm = vs" and
    len: "length outs \<le> length tcs" and ok: "list_all verdict_ok vs" and
    ce: "gs_compile_error sm = compile_error_of outs" and
    st: "gs_overall_status sm = determine_overall_status vs (compile_error_of outs)" by metis
  have bad: "\<not> list_all tv_passed vs" if "opt_truthy (compile_error_of outs)"
    using compile_error_not_passed [OF _ len, of fmt job] that vs(1)
    by (cases "compile_error_of outs") auto
  show ?thesis
  proof (cases "list_all tv_passed vs")
    case True
    with bad vs st ce show ?thesis by (auto simp: determine_overall_status_def)
  next
    case False
    then obtain v where v: "find (\<lambda>r. \<not> tv_passed r) vs = Some v" "v \<in> set vs" "\<not> tv_passed v"
      using find_not_passed by blast
    have "tv_status v \<noteq> EV_ACCEPTED" using v ok by (auto simp: list_all_iff verdict_ok_def)
    moreover have "tv_status v \<noteq> EV_PARTIAL \<and> tv_status v \<noteq> EV_PENDING"
      using spec_results_status v(2) vs(1) by blast
    moreover have "vs \<noteq> []" using False by auto
    ultimately show ?thesis
      using False vs st ce v(1) by (simp add: determine_overall_status_def)
  qed
qed

lemma overall_status_meaning_witness:
  "\<exists>sm. evaluate_submission plain_fmt echo_driver demo_job demo_cases 0 = (Inr sm, 2) \<and>
     gs_overall_status sm \<noteq> EV_PENDING \<and>
     (gs_overall_status sm = EV_ACCEPTED \<longleftrightarrow> list_all tv_passed (gs_test_case_results sm))"
  using demo_evaluates overall_status_meaning by metis

text \<open>A test case that ran passes exactly when compilation succeeded, neither the
  sandbox nor the measured time or memory reports an exceeded limit, the program did not
  report a runtime error or a non-zero exit code, and its output is accepted by the
  comparison mode; it then earns its full weight, and otherwise nothing.\<close>

lemma case_passes_iff:
  "(tv_passed (verdict_of fmt job tc (Inr r)) \<longleftrightarrow>
     rs_status r \<notin> {ES_COMPILE_ERROR, ES_TIME_LIMIT_EXCEEDED, ES_MEMORY_LIMIT_EXCEEDED,
                    ES_RUNTIME_ERROR} \<and>
     rs_execution_time_ms r \<le> gj_time_limit_ms job \<and>
     (gj_memory_limit_mb job \<le> 0 \<or> mem_bytes_of r \<le> gj_memory_limit_mb job * 1048576) \<and>
     rs_exit_code r \<in> {None, Some 0} \<and>
     accepts (gj_mode job) epsilon_default fmt (rs_stdout r) (tc_expected_output tc)) \<and>
   tv_earned_points (verdict_of fmt job tc (Inr r)) =
     (if tv_passed (verdict_of fmt job tc (Inr r)) then tc_weight tc else 0)"
proof
  show "tv_earned_points (verdict_of fmt job tc (Inr r)) =
     (if tv_passed (verdict_of fmt job tc (Inr r)) then tc_weight tc else 0)"
    using verdict_of_ok [of fmt job tc "Inr r"]
    by (simp add: verdict_ok_def del: verdict_of.simps)
qed (auto simp: case_passes_def over_time_def over_memory_def crashed_def
      simp del: verdict_of.simps)

text \<open>A compilation error ends the evaluation.  When the cases before it compiled and a
  case does not, the sandbox is not called again, that case and every later one are
  reported as compilation errors without points, and a non-empty compiler message makes
  the whole submission a compilation error.\<close>

lemma compile_error_stops:
  assumes "job_in_range job"
    and "run_cases exec job (case_timeout job) pre w = (outs, w1)"
    and "list_all (\<lambda>out. \<not> stops out) outs"
    and "exec w1 (case_request job (case_timeout job) tc) = (Inr r, w2)"
    and "rs_status r = ES_COMPILE_ERROR"
    and "evaluate_submission fmt exec job (pre @ tc # post) w = (Inr sm, w')"
  shows "w' = w2 \<and>
         drop (length pre) (gs_test_case_results sm) =
           measured r (compile_failed_verdict tc) # map compile_failed_verdict post \<and>
         gs_compile_error sm = Some (str_or (rs_compile_output r) (rs_stderr r)) \<and>
         (rs_stderr r \<noteq> [] \<longrightarrow> gs_overall_status sm = EV_COMPILE_ERROR)"
proof -
  let ?vs = "spec_results fmt job pre outs"
  have run: "run_cases exec job (case_timeout job) (pre @ tc # post) w = (outs @ [Inr r], w2)"
    and len: "length outs = length pre"
    using run_cases_append [OF assms(2,3), of "tc # post"] assms(4,5) by simp_all
  have vs: "spec_results fmt job (pre @ tc # post) (outs @ [Inr r]) =
      ?vs @ measured r (compile_failed_verdict tc) # map compile_failed_verdict post"
    using assms(5) by (simp add: spec_results_append [OF len])
  have ce: "compile_error_of (outs @ [Inr r]) = Some (str_or (rs_compile_output r) (rs_stderr r))"
    using assms(5) by (simp add: compile_error_append [OF assms(3)])
  have "length ?vs = length pre" using len by (simp add: spec_results_length)
  then show ?thesis
    using evaluation_computes [OF assms(1) run, of fmt] assms(6) ce vs
    by (auto simp: summarise_def spec_state_def determine_overall_status_def str_or_def
        split: sum.splits)
qed

lemma compile_error_stops_witness:
  "\<exists>sm. evaluate_submission plain_fmt broken_driver demo_job demo_cases 0 = (Inr sm, 1) \<and>
     gs_overall_status sm = EV_COMPILE_ERROR"
proof -
  let ?r = "(default_result ES_COMPILE_ERROR)\<lparr>rs_stderr := lit ''e''\<rparr>"
  let ?t = "case_timeout demo_job"
  have run: "run_cases broken_driver demo_job ?t demo_cases 0 = ([Inr ?r], 1)"
    by (simp add: demo_cases_def broken_driver_def default_result_def)
  have len: "length [Inr ?r :: outcome] \<le> length demo_cases" by (simp add: demo_cases_def)
  obtain p where "percentage_of (earned (spec_results plain_fmt demo_job demo_cases [Inr ?r]))
      (max_score_of demo_cases) = Inr (Fin p)"
    using percentage_bounds earned_in_range [OF len demo_in_range(2)] by metis
  then obtain sm where sm: "evaluate_submission plain_fmt broken_driver demo_job demo_cases 0 = (Inr sm, 1)"
    using evaluation_computes [OF demo_in_range(1) run, of plain_fmt]
    by (simp add: summarise_def spec_state_def)
  have "demo_cases = [] @ hd demo_cases # tl demo_cases" by (simp add: demo_cases_def)
  with sm have sm': "evaluate_submission plain_fmt broken_driver demo_job ([] @ hd demo_cases # tl demo_cases) 0 =
      (Inr sm, 1)" by metis
  have ex: "broken_driver 0 (case_request demo_job ?t (hd demo_cases)) = (Inr ?r, 1)"
    and st: "rs_status ?r = ES_COMPILE_ERROR"
    by (simp_all add: broken_driver_def default_result_def)
  show ?thesis
    using compile_error_stops [OF demo_in_range(1) _ _ ex st sm'] sm by simp
qed

text \<open>C6. Sanitising a summary forgets the oracle data of hidden test cases and nothing else:
  two summaries look the same to a student exactly when they agree outside the results,
  agree on every visible result, and agree on the public part of every hidden one.  So
  neither the input, the expected or actual output, the diff nor the message of a hidden
  case can be inferred, and sanitising twice is sanitising once.\<close>

theorem sanitize_forgets_exactly:
  "(sanitize_for_student sm = sanitize_for_student sm' \<longleftrightarrow>
      sm\<lparr>gs_test_case_results := []\<rparr> = sm'\<lparr>gs_test_case_results := []\<rparr> \<and>
      list_all2 same_to_student (gs_test_case_results sm) (gs_test_case_results sm')) \<and>
   sanitize_for_student (sanitize_for_student sm) = sanitize_for_student sm"
proof
  show "sanitize_for_student sm = sanitize_for_student sm' \<longleftrightarrow>
      sm\<lparr>gs_test_case_results := []\<rparr> = sm'\<lparr>gs_test_case_results := []\<rparr> \<and>
      list_all2 same_to_student (gs_test_case_results sm) (gs_test_case_results sm')"
    by (rule sanitize_for_student_eq)
  have "sanitize_verdict (sanitize_verdict v) = sanitize_verdict v" for v
    by (simp add: sanitize_verdict_def)
  then show "sanitize_for_student (sanitize_for_student sm) = sanitize_for_student sm"
    by (simp add: sanitize_for_student_def)
qed

text \<open>A sandbox that fails is graded like a program that prints nothing.  A result of
  status \<open>SYSTEM_ERROR\<close> without an exit code is compared with the expected output, so under
  the normalised comparison it is accepted exactly when the expected output has no visible
  line.\<close>

lemma system_error_is_graded:
  assumes "gj_mode job = NORMALIZED" and "0 \<le> gj_time_limit_ms job"
  shows "tv_status (verdict_of fmt job tc (Inr (default_result ES_SYSTEM_ERROR))) =
           (if visible_lines (tc_expected_output tc) = [] then EV_ACCEPTED else EV_WRONG_ANSWER)"
proof -
  have "visible_lines [] = []"
    by (simp add: visible_lines_def normalize_newlines_def replace_cr_def)
  then show ?thesis
    using assms accepts_normalized [of fmt "[]" "tc_expected_output tc" epsilon_default]
    by (auto simp: verdict_defs default_result_def over_time_def over_memory_def crashed_def
        mem_bytes_of_def simp del: accepts_normalized split: prod.splits)
qed

lemma system_error_is_graded_witness:
  "tv_status (verdict_of plain_fmt (demo_job\<lparr>gj_mode := NORMALIZED\<rparr>)
     ((hd demo_cases)\<lparr>tc_expected_output := []\<rparr>) (Inr (default_result ES_SYSTEM_ERROR))) = EV_ACCEPTED"
proof -
  have "visible_lines [] = []"
    by (simp add: visible_lines_def normalize_newlines_def replace_cr_def)
  then show ?thesis
    using system_error_is_graded [of "demo_job\<lparr>gj_mode := NORMALIZED\<rparr>" plain_fmt
        "(hd demo_cases)\<lparr>tc_expected_output := []\<rparr>"]
    by (simp add: demo_job_def)
qed

end
