(* ===== verification/Languages.thy ===== *)
theory Languages
  imports Sandbox_Models
begin

text \<open>
  The polyglot layer (worker/sandbox/polyglot): a language strategy as a record, the six
  strategies, and the registry as an insertion-ordered dictionary that is filled on first
  use.  A path is its text; \<open>sys.executable\<close> is the argument \<open>python_exe\<close>.
\<close>

section \<open>Strategies\<close>

record language_strategy =
  ls_language_id :: pstr
  ls_display_name :: pstr
  ls_file_extension :: pstr
  ls_is_compiled :: bool
  ls_compile_command :: "pstr \<Rightarrow> pstr \<Rightarrow> pstr list"
  ls_execution_command :: "pstr \<Rightarrow> pstr list"
  ls_default_boilerplate :: pstr

definition monaco_language_id :: "language_strategy \<Rightarrow> pstr" where
  "monaco_language_id s = ls_language_id s"

definition seccomp_profile_name :: "language_strategy \<Rightarrow> pstr" where
  "seccomp_profile_name s = lit ''seccomp-profile.json''"

text \<open>A line of a template, and a piece of text in double quotes.\<close>

definition line :: "pstr \<Rightarrow> pstr" where
  "line s = s @ [10]"

definition quoted :: "string \<Rightarrow> pstr" where
  "quoted s = 34 # lit s @ [34]"

definition c_strategy :: language_strategy where
  "c_strategy =
     \<lparr>ls_language_id = lit ''c'', ls_display_name = lit ''C (GCC 14 / C17)'',
      ls_file_extension = lit ''.c'', ls_is_compiled = True,
      ls_compile_command = (\<lambda>source_path output_binary_path.
        [lit ''gcc'', lit ''-std=c17'', lit ''-O2'', lit ''-Wall'', lit ''-fstack-protector-strong'',
         lit ''-D_FORTIFY_SOURCE=2'', lit ''-fPIE'', lit ''-pie'', lit ''-Wl,-z,relro,-z,now'',
         lit ''-z'', lit ''noexecstack'', source_path, lit ''-o'', output_binary_path]),
      ls_execution_command = (\<lambda>target_path. [target_path]),
      ls_default_boilerplate =
        line (lit ''// Secure Remote Execution Laboratory'') @
        line (line (lit ''// Language: C17 (GCC Hardened)'')) @
        line (line (lit ''#include <stdio.h>'')) @ line (lit ''int main(void) {'') @
        line (lit ''    printf('' @ 34 # lit ''Hello from the hardened C sandbox!'' @ [92, 110, 34] @
          lit '');'') @
        line (lit ''    return 0;'') @ line (lit ''}'')\<rparr>"

definition cpp_strategy :: language_strategy where
  "cpp_strategy =
     \<lparr>ls_language_id = lit ''cpp'', ls_display_name = lit ''C++20 (G++ 14)'',
      ls_file_extension = lit ''.cpp'', ls_is_compiled = True,
      ls_compile_command = (\<lambda>source_path output_binary_path.
        [lit ''g++'', lit ''-std=c++20'', lit ''-O2'', lit ''-Wall'', lit ''-fstack-protector-strong'',
         lit ''-D_FORTIFY_SOURCE=2'', lit ''-fPIE'', lit ''-pie'', lit ''-Wl,-z,relro,-z,now'',
         lit ''-z'', lit ''noexecstack'', lit ''-ftemplate-depth=128'', source_path, lit ''-o'',
         output_binary_path]),
      ls_execution_command = (\<lambda>target_path. [target_path]),
      ls_default_boilerplate =
        line (lit ''// Secure Remote Execution Laboratory'') @
        line (line (lit ''// Language: C++20 (G++ Hardened)'')) @
        line (lit ''#include <iostream>'') @ line (lit ''#include <vector>'') @
        line (line (lit ''#include <string>'')) @ line (lit ''int main() {'') @
        line (lit ''    std::cout << '' @ quoted ''Hello from the hardened C++ sandbox!'' @
          lit '' << std::endl;'') @
        line (lit ''    return 0;'') @ line (lit ''}'')\<rparr>"

definition rust_strategy :: language_strategy where
  "rust_strategy =
     \<lparr>ls_language_id = lit ''rust'', ls_display_name = lit ''Rust (rustc 1.79+)'',
      ls_file_extension = lit ''.rs'', ls_is_compiled = True,
      ls_compile_command = (\<lambda>source_path output_binary_path.
        [lit ''rustc'', lit ''-O'', lit ''--crate-type'', lit ''bin'', lit ''-C'',
         lit ''overflow-checks=on'', source_path, lit ''-o'', output_binary_path]),
      ls_execution_command = (\<lambda>target_path. [target_path]),
      ls_default_boilerplate =
        line (lit ''// Secure Remote Execution Laboratory'') @
        line (line (lit ''// Language: Rust 2021 Edition'')) @ line (lit ''fn main() {'') @
        line (lit ''    println!('' @ quoted ''Hello from the memory-safe Rust sandbox!'' @ lit '');'') @
        line (lit ''}'')\<rparr>"

definition go_strategy :: language_strategy where
  "go_strategy =
     \<lparr>ls_language_id = lit ''go'', ls_display_name = lit ''Go (1.22+)'',
      ls_file_extension = lit ''.go'', ls_is_compiled = True,
      ls_compile_command = (\<lambda>source_path output_binary_path.
        [lit ''go'', lit ''build'', lit ''-ldflags'', lit ''-s -w'', lit ''-o'', output_binary_path,
         source_path]),
      ls_execution_command = (\<lambda>target_path. [target_path]),
      ls_default_boilerplate =
        line (lit ''// Secure Remote Execution Laboratory'') @
        line (line (lit ''// Language: Go 1.22+'')) @ line (line (lit ''package main'')) @
        line (line (lit ''import '' @ quoted ''fmt'')) @ line (lit ''func main() {'') @
        line (lit ''    fmt.Println('' @ quoted ''Hello from the concurrent Go sandbox!'' @ lit '')'') @
        line (lit ''}'')\<rparr>"

definition node_strategy :: language_strategy where
  "node_strategy =
     \<lparr>ls_language_id = lit ''javascript'', ls_display_name = lit ''JavaScript (Node.js 20 LTS)'',
      ls_file_extension = lit ''.js'', ls_is_compiled = False,
      ls_compile_command = (\<lambda>source_path output_binary_path. []),
      ls_execution_command = (\<lambda>target_path.
        [lit ''node'', lit ''--max-old-space-size=128'', lit ''--no-warnings'', target_path]),
      ls_default_boilerplate =
        line (lit ''// Secure Remote Execution Laboratory'') @
        line (line (lit ''// Language: JavaScript (Node.js 20)'')) @
        line (lit ''function main() {'') @
        line (lit ''    console.log('' @ quoted ''Hello from the asynchronous Node.js sandbox!'' @
          lit '');'') @
        line (line (lit ''}'')) @ line (lit ''main();'')\<rparr>"

definition python_strategy :: "pstr \<Rightarrow> language_strategy" where
  "python_strategy python_exe =
     \<lparr>ls_language_id = lit ''python'', ls_display_name = lit ''Python 3.12'',
      ls_file_extension = lit ''.py'', ls_is_compiled = False,
      ls_compile_command = (\<lambda>source_path output_binary_path. []),
      ls_execution_command = (\<lambda>target_path. [python_exe, lit ''-u'', lit ''-B'', target_path]),
      ls_default_boilerplate =
        line (lit ''# Secure Remote Execution Laboratory'') @
        line (line (lit ''# Language: Python 3.12'')) @ line (lit ''def main():'') @
        line (line (lit ''    print('' @ 39 # lit ''Hello from the secure Python sandbox!'' @ [39] @
          lit '')'')) @
        line (lit ''if __name__ == '' @ 39 # lit ''__main__'' @ 39 # lit '':'') @
        line (lit ''    main()'')\<rparr>"

section \<open>The registry\<close>

type_synonym registry = "(pstr \<times> language_strategy) list"

definition aliases :: "(pstr \<times> pstr) list" where
  "aliases =
     [(lit ''py'', lit ''python''), (lit ''python3'', lit ''python''), (lit ''c++'', lit ''cpp''),
      (lit ''cplusplus'', lit ''cpp''), (lit ''rs'', lit ''rust''), (lit ''golang'', lit ''go''),
      (lit ''js'', lit ''javascript''), (lit ''node'', lit ''javascript''),
      (lit ''nodejs'', lit ''javascript'')]"

definition register :: "language_strategy \<Rightarrow> registry \<Rightarrow> registry" where
  "register strategy reg = dict_set (py_lower (ls_language_id strategy)) strategy reg"

definition initialize :: "pstr \<Rightarrow> registry \<Rightarrow> registry" where
  "initialize python_exe reg =
     register node_strategy (register go_strategy (register rust_strategy
       (register cpp_strategy (register c_strategy (register (python_strategy python_exe) reg)))))"

definition ensure_initialized :: "pstr \<Rightarrow> registry \<Rightarrow> registry" where
  "ensure_initialized python_exe reg = (if reg = [] then initialize python_exe reg else reg)"

definition resolve :: "pstr \<Rightarrow> pstr" where
  "resolve language_id =
     (let norm = py_lower (py_strip language_id)
      in case map_of aliases norm of Some r \<Rightarrow> r | None \<Rightarrow> norm)"

definition get_strategy ::
  "pstr \<Rightarrow> pstr \<Rightarrow> registry \<Rightarrow> (py_exn + language_strategy) \<times> registry" where
  "get_strategy python_exe language_id reg0 =
     (let reg = ensure_initialized python_exe reg0
      in case map_of reg (resolve language_id) of
           Some s \<Rightarrow> (Inr s, reg)
         | None \<Rightarrow>
             (Inl (ValueError
               (lit ''Unsupported programming language '' @ 39 # language_id @ 39 # lit ''. '' @
                lit ''Supported runtimes: '' @ py_join [44, 32] (map fst reg))), reg))"

definition is_supported :: "pstr \<Rightarrow> pstr \<Rightarrow> registry \<Rightarrow> bool \<times> registry" where
  "is_supported python_exe language_id reg0 =
     (let reg = ensure_initialized python_exe reg0
      in (resolve language_id \<in> fst ` set reg, reg))"

record language_info =
  li_id :: pstr
  li_name :: pstr
  li_extension :: pstr
  li_is_compiled :: bool
  li_monaco_id :: pstr
  li_boilerplate :: pstr

definition list_supported :: "pstr \<Rightarrow> registry \<Rightarrow> language_info list \<times> registry" where
  "list_supported python_exe reg0 =
     (let reg = ensure_initialized python_exe reg0
      in (map (\<lambda>(_, s).
            \<lparr>li_id = ls_language_id s, li_name = ls_display_name s,
             li_extension = ls_file_extension s, li_is_compiled = ls_is_compiled s,
             li_monaco_id = monaco_language_id s, li_boilerplate = ls_default_boilerplate s\<rparr>) reg,
          reg))"

text \<open>The registry after import: the module initialises it.\<close>

definition imported_registry :: "pstr \<Rightarrow> registry" where
  "imported_registry python_exe = initialize python_exe []"

section \<open>Lemmas\<close>

lemmas strategy_defs = c_strategy_def cpp_strategy_def rust_strategy_def go_strategy_def
  node_strategy_def python_strategy_def

definition language_ids :: "pstr list" where
  "language_ids =
     [lit ''python'', lit ''c'', lit ''cpp'', lit ''rust'', lit ''go'', lit ''javascript'']"

lemma py_lower_ids: "l \<in> set language_ids \<Longrightarrow> py_lower l = l"
  by (auto simp: language_ids_def py_lower_def lower_char_def lit_def)

lemma imported_registry_eq:
  "imported_registry python_exe =
     zip language_ids [python_strategy python_exe, c_strategy, cpp_strategy, rust_strategy,
                       go_strategy, node_strategy]"
proof -
  have "py_lower (ls_language_id s) = ls_language_id s"
    if "s \<in> {python_strategy python_exe, c_strategy, cpp_strategy, rust_strategy, go_strategy,
             node_strategy}" for s
    using that by (intro py_lower_ids) (auto simp: strategy_defs language_ids_def)
  then show ?thesis
    by (simp add: imported_registry_def initialize_def register_def language_ids_def)
      (simp add: strategy_defs)
qed

lemma imported_keys: "map fst (imported_registry python_exe) = language_ids"
  by (simp add: imported_registry_eq language_ids_def)

lemma imported_not_empty [simp]: "imported_registry python_exe \<noteq> []"
  by (simp add: imported_registry_eq language_ids_def)

lemma ensure_imported [simp]:
  "ensure_initialized python_exe (imported_registry python_exe) = imported_registry python_exe"
  by (simp add: ensure_initialized_def)

lemma imported_id:
  "map_of (imported_registry python_exe) k = Some s \<Longrightarrow> ls_language_id s = k"
  by (auto simp: imported_registry_eq language_ids_def strategy_defs split: if_splits)

lemma imported_mem: "(map_of (imported_registry python_exe) k \<noteq> None) = (k \<in> set language_ids)"
  by (metis imported_keys map_of_eq_None_iff image_set)

lemma alias_targets: "map_of aliases a = Some l \<Longrightarrow> l \<in> set language_ids"
  by (auto simp: aliases_def language_ids_def split: if_splits)

lemma get_imported:
  "get_strategy python_exe lang (imported_registry python_exe) =
     (case map_of (imported_registry python_exe) (resolve lang) of
        Some s \<Rightarrow> (Inr s, imported_registry python_exe)
      | None \<Rightarrow>
          (Inl (ValueError
            (lit ''Unsupported programming language '' @ 39 # lang @ 39 # lit ''. '' @
             lit ''Supported runtimes: '' @ py_join [44, 32] language_ids)),
           imported_registry python_exe))"
  by (simp add: get_strategy_def Let_def imported_keys split: option.split)

section \<open>Properties\<close>

text \<open>The registry resolves exactly the six languages and their aliases: a name is
  supported when, and only when, its stripped lower-case form is an alias or one of the
  six identifiers; looking it up then returns the strategy whose identifier is the
  resolved name and leaves the registry as it is, and otherwise raises a \<open>ValueError\<close>;
  and every listed language is found under its own name.\<close>

lemma registry_resolution:
  "(fst (is_supported exe lang (imported_registry exe)) \<longleftrightarrow>
      py_lower (py_strip lang) \<in> fst ` set aliases \<or>
      py_lower (py_strip lang) \<in> set language_ids) \<and>
   (case fst (get_strategy exe lang (imported_registry exe)) of
      Inr s \<Rightarrow> fst (is_supported exe lang (imported_registry exe)) \<and> ls_language_id s = resolve lang
    | Inl e \<Rightarrow> \<not> fst (is_supported exe lang (imported_registry exe)) \<and> is_value_error e) \<and>
   snd (get_strategy exe lang (imported_registry exe)) = imported_registry exe \<and>
   map li_id (fst (list_supported exe (imported_registry exe))) = language_ids"
proof (intro conjI)
  let ?reg = "imported_registry exe"
  have sup: "fst (is_supported exe lang ?reg) \<longleftrightarrow> resolve lang \<in> set language_ids"
    by (simp add: is_supported_def Let_def) (metis imported_keys image_set)
  have "n \<in> fst ` set aliases \<longleftrightarrow> map_of aliases n \<noteq> None" for n
    by (metis map_of_eq_None_iff)
  with sup show "fst (is_supported exe lang ?reg) \<longleftrightarrow>
      py_lower (py_strip lang) \<in> fst ` set aliases \<or>
      py_lower (py_strip lang) \<in> set language_ids"
    by (auto simp: resolve_def Let_def alias_targets split: option.splits)
  show "case fst (get_strategy exe lang ?reg) of
      Inr s \<Rightarrow> fst (is_supported exe lang ?reg) \<and> ls_language_id s = resolve lang
    | Inl e \<Rightarrow> \<not> fst (is_supported exe lang ?reg) \<and> is_value_error e"
    using sup imported_mem [of exe "resolve lang"] imported_id [of exe "resolve lang"]
    by (auto simp: get_imported split: option.splits)
  show "snd (get_strategy exe lang ?reg) = ?reg"
    by (simp add: get_imported split: option.splits)
  show "map li_id (fst (list_supported exe ?reg)) = language_ids"
    by (simp add: list_supported_def Let_def) (simp add: imported_registry_eq language_ids_def strategy_defs)
qed

end
