(* ===== verification/Process_Sandbox.thy ===== *)
theory Process_Sandbox
  imports Grading_Claims Languages
begin

text \<open>
  The subprocess driver (worker/sandbox/process_sandbox.py): adapting a compiler command to
  the platform, the compilation phase, the run and its classification, and the interactive
  operations on the active process.  The operating system is the record \<open>host\<close>: each of its
  operations may change the world \<open>'w\<close> and says what happened as a value.  Streaming is in
  the theory \<open>Process_Stream\<close>.
\<close>

section \<open>The operating system\<close>

text \<open>Spawning a compiler and waiting at most ten seconds for it.\<close>

datatype compile_outcome =
    Compile_Exit int bytes bytes | Compiler_Not_Found pstr | Compile_Timeout | Compile_Raised py_exn

text \<open>Communicating with a spawned program until it ends or the deadline passes.\<close>

datatype run_outcome = Run_Exit int bytes bytes | Run_Timeout | Run_Raised py_exn

record 'w host =
  ho_win32 :: bool
  ho_python :: pstr
  ho_home :: pstr
  ho_which :: "pstr \<Rightarrow> bool"
  ho_exists :: "pstr \<Rightarrow> bool"
  ho_make_temp :: "'w \<Rightarrow> (py_exn + pstr) \<times> 'w"
  ho_write_file :: "'w \<Rightarrow> pstr \<Rightarrow> bytes \<Rightarrow> py_exn option \<times> 'w"
  ho_compile :: "'w \<Rightarrow> pstr list \<Rightarrow> compile_outcome \<times> 'w"
  ho_spawn :: "'w \<Rightarrow> pstr list \<Rightarrow> bool \<Rightarrow> py_exn option \<times> 'w"
  ho_communicate :: "'w \<Rightarrow> bytes option \<Rightarrow> pyfloat \<Rightarrow> run_outcome \<times> 'w"
  ho_kill :: "'w \<Rightarrow> 'w"
  ho_cleanup :: "'w \<Rightarrow> 'w"
  ho_elapsed_ms :: "'w \<Rightarrow> int"

text \<open>\<open>str.encode("utf-8")\<close> raises on a surrogate.\<close>

definition encode_utf8 :: "pstr \<Rightarrow> py_exn + bytes" where
  "encode_utf8 s =
     (if utf8_text s then Inr (utf8_encode s)
      else Inl (ValueError (lit ''surrogates not allowed'')))"

abbreviation decode_utf8 :: "bytes \<Rightarrow> pstr" where
  "decode_utf8 b \<equiv> utf8_decode Replace_Errors b"

definition path_join :: "'w host \<Rightarrow> pstr \<Rightarrow> pstr \<Rightarrow> pstr" where
  "path_join ho dir name = dir @ (if ho_win32 ho then 92 else 47) # name"

section \<open>Compiler commands\<close>

text \<open>The loop over the arguments; the flag is \<open>skip_next\<close>.\<close>

fun adapt_args :: "bool \<Rightarrow> pstr list \<Rightarrow> pstr list" where
  "adapt_args skip_next [] = []"
| "adapt_args skip_next (arg # args) =
     (if skip_next then adapt_args False args
      else if arg = lit ''-std=c17'' then lit ''-std=c11'' # adapt_args False args
      else if arg = lit ''-std=c++20'' then lit ''-std=c++14'' # adapt_args False args
      else if arg \<in> {lit ''-pie'', lit ''-fPIE'', lit ''-Wl,-z,relro,-z,now''} then adapt_args False args
      else if arg = lit ''-z'' then adapt_args True args
      else arg # adapt_args False args)"

definition windows_path :: "pstr list \<Rightarrow> pstr" where
  "windows_path parts = py_join [92] parts"

definition locate_rustc :: "'w host \<Rightarrow> pstr list \<Rightarrow> pstr list" where
  "locate_rustc ho cmd =
     (if cmd \<noteq> [] \<and> hd cmd = lit ''rustc'' \<and> \<not> ho_which ho (lit ''rustc'') then
        let cargo_rustc = windows_path [ho_home ho, lit ''.cargo'', lit ''bin'', lit ''rustc.exe'']
        in if ho_exists ho cargo_rustc then cargo_rustc # tl cmd else cmd
      else cmd)"

definition locate_go :: "'w host \<Rightarrow> pstr list \<Rightarrow> pstr list" where
  "locate_go ho cmd =
     (if cmd \<noteq> [] \<and> hd cmd = lit ''go'' \<and> \<not> ho_which ho (lit ''go'') then
        case find (ho_exists ho)
               [windows_path [lit ''C:'', lit ''Program Files'', lit ''Go'', lit ''bin'', lit ''go.exe''],
                windows_path [lit ''C:'', lit ''Go'', lit ''bin'', lit ''go.exe''],
                windows_path [ho_home ho, lit ''go'', lit ''bin'', lit ''go.exe'']] of
          Some candidate \<Rightarrow> candidate # tl cmd
        | None \<Rightarrow> cmd
      else cmd)"

definition adapt_compile_command :: "'w host \<Rightarrow> pstr list \<Rightarrow> pstr list" where
  "adapt_compile_command ho cmd =
     (if \<not> ho_win32 ho then cmd else locate_go ho (locate_rustc ho (adapt_args False cmd)))"

section \<open>Execution to completion\<close>

text \<open>How a phase ends: with a result, with a value for the next phase, or with an exception.\<close>

datatype 'a phase = Finished execution_result | Proceed 'a | Raised py_exn

definition binary_name :: "'w host \<Rightarrow> pstr" where
  "binary_name ho = (if ho_win32 ho then lit ''solution.exe'' else lit ''solution'')"

text \<open>\<open>c_stderr.decode(...) or c_stdout.decode(...)\<close>\<close>

definition compiler_text :: "bytes \<Rightarrow> bytes \<Rightarrow> pstr" where
  "compiler_text out err = str_or (decode_utf8 err) (decode_utf8 out)"

definition compile_error_result :: "int \<Rightarrow> pstr \<Rightarrow> pstr \<Rightarrow> int \<Rightarrow> pstr \<Rightarrow> execution_result" where
  "compile_error_result code stderr_text compile_output ms message =
     \<lparr>rs_status = ES_COMPILE_ERROR, rs_exit_code = Some code, rs_stdout = [],
      rs_stderr = stderr_text, rs_execution_time_ms = ms, rs_peak_memory_bytes = None,
      rs_error_message = Some message, rs_compile_output = compile_output\<rparr>"

definition compile_phase ::
  "'w host \<Rightarrow> language_strategy \<Rightarrow> pstr \<Rightarrow> pstr \<Rightarrow> 'w \<Rightarrow> pstr phase \<times> 'w" where
  "compile_phase ho strategy source_file binary_file w =
     (let compile_cmd = adapt_compile_command ho (ls_compile_command strategy source_file binary_file);
          compiler = 39 # hd compile_cmd @ [39]
      in case ho_compile ho w compile_cmd of
           (Compile_Exit code out err, w') \<Rightarrow>
             if code \<noteq> 0 then
               (Finished (compile_error_result code (compiler_text out err) (compiler_text out err)
                  (ho_elapsed_ms ho w')
                  (lit ''Compilation failed. See stderr for compiler diagnostics.'')), w')
             else (Proceed binary_file, w')
         | (Compiler_Not_Found fnf, w') \<Rightarrow>
             (Finished (compile_error_result 127
                (lit ''Compiler '' @ compiler @ lit '' not installed on host: '' @ fnf)
                (lit ''Compiler '' @ compiler @ lit '' not found.'') 0
                (lit ''Compiler '' @ compiler @ lit '' is not available.'')), w')
         | (Compile_Timeout, w') \<Rightarrow>
             (Finished (compile_error_result (- 9)
                (lit ''Compilation exceeded 10.0s time limit (possible macro/template recursion bomb).'')
                (lit ''Compilation timed out.'') 10000
                (lit ''Compilation time limit exceeded.'')), w')
         | (Compile_Raised exc, w') \<Rightarrow> (Raised exc, w'))"

text \<open>What the run leaves for the classification: whether it timed out, its exit code, the consumer.\<close>

record run_record =
  rr_timed_out :: bool
  rr_exit_code :: int
  rr_consumer :: stream_consumer

definition capture :: "bytes \<Rightarrow> bytes \<Rightarrow> stream_consumer \<Rightarrow> stream_consumer" where
  "capture out err c =
     (let c1 = (if out \<noteq> [] then snd (consume_stdout (decode_utf8 out) c) else c)
      in if err \<noteq> [] then snd (consume_stderr (decode_utf8 err) c1) else c1)"

definition run_phase ::
  "'w host \<Rightarrow> execution_request \<Rightarrow> pstr list \<Rightarrow> 'w \<Rightarrow> run_record phase \<times> 'w" where
  "run_phase ho rq cmd w =
     (let consumer = new_consumer (rq_max_output_bytes rq);
          has_input = opt_truthy (rq_stdin_data rq)
      in case ho_spawn ho w cmd has_input of
           (Some exc, w1) \<Rightarrow> (Raised exc, w1)
         | (None, w1) \<Rightarrow>
             (case (if has_input then encode_utf8 (the (rq_stdin_data rq)) else Inr []) of
                Inl exc \<Rightarrow> (Raised exc, w1)
              | Inr stdin_bytes \<Rightarrow>
                  (case ho_communicate ho w1 (if has_input then Some stdin_bytes else None)
                          (rq_timeout_seconds rq) of
                     (Run_Exit code out err, w2) \<Rightarrow>
                       (Proceed \<lparr>rr_timed_out = False, rr_exit_code = code,
                                 rr_consumer = capture out err consumer\<rparr>, w2)
                   | (Run_Timeout, w2) \<Rightarrow>
                       (Proceed \<lparr>rr_timed_out = True, rr_exit_code = - 9, rr_consumer = consumer\<rparr>,
                        ho_kill ho w2)
                   | (Run_Raised exc, w2) \<Rightarrow> (Raised exc, w2))))"

definition classify :: "(pyfloat \<Rightarrow> pstr) \<Rightarrow> execution_request \<Rightarrow> run_record \<Rightarrow> execution_status \<times> pstr option"
  where
  "classify sf rq rr =
     (if rr_timed_out rr then
        (ES_TIME_LIMIT_EXCEEDED,
         Some (lit ''Execution exceeded wall-clock timeout of '' @ sf (rq_timeout_seconds rq) @ lit ''s.''))
      else if sc_limit_exceeded (rr_consumer rr) then
        (ES_OUTPUT_LIMIT_EXCEEDED,
         Some (lit ''Output exceeded maximum byte limit of '' @ show_int (rq_max_output_bytes rq) @
               lit '' bytes.''))
      else if rr_exit_code rr = 0 then (ES_COMPLETED, None)
      else
        (ES_RUNTIME_ERROR,
         Some (lit ''Process terminated with non-zero exit code '' @ show_int (rr_exit_code rr) @ lit ''.'')))"

definition run_result :: "(pyfloat \<Rightarrow> pstr) \<Rightarrow> execution_request \<Rightarrow> run_record \<Rightarrow> int \<Rightarrow> execution_result" where
  "run_result sf rq rr duration_ms =
     \<lparr>rs_status = fst (classify sf rq rr), rs_exit_code = Some (rr_exit_code rr),
      rs_stdout = get_full_stdout (rr_consumer rr), rs_stderr = get_full_stderr (rr_consumer rr),
      rs_execution_time_ms = duration_ms, rs_peak_memory_bytes = None,
      rs_error_message = snd (classify sf rq rr), rs_compile_output = []\<rparr>"

definition system_error_result :: "py_exn \<Rightarrow> execution_result" where
  "system_error_result exc =
     (default_result ES_SYSTEM_ERROR)
       \<lparr>rs_stderr := exn_str exc,
        rs_error_message := Some (lit ''Process execution failed: '' @ exn_str exc)\<rparr>"

text \<open>The body of the outer \<open>try\<close>: write the source, compile if needed, run.\<close>

definition execute_body ::
  "'w host \<Rightarrow> language_strategy \<Rightarrow> execution_request \<Rightarrow> pstr \<Rightarrow> 'w \<Rightarrow> run_record phase \<times> 'w" where
  "execute_body ho strategy rq temp_dir w =
     (let source_file = path_join ho temp_dir (lit ''solution'' @ ls_file_extension strategy);
          binary_file = path_join ho temp_dir (binary_name ho)
      in case encode_utf8 (rq_source_code rq) of
           Inl exc \<Rightarrow> (Raised exc, w)
         | Inr source \<Rightarrow>
             (case ho_write_file ho w source_file source of
                (Some exc, w1) \<Rightarrow> (Raised exc, w1)
              | (None, w1) \<Rightarrow>
                  (case (if ls_is_compiled strategy
                         then compile_phase ho strategy source_file binary_file w1
                         else (Proceed source_file, w1)) of
                     (Finished r, w2) \<Rightarrow> (Finished r, w2)
                   | (Raised exc, w2) \<Rightarrow> (Raised exc, w2)
                   | (Proceed target_exec, w2) \<Rightarrow>
                       run_phase ho rq (ls_execution_command strategy target_exec) w2)))"

definition process_execute :: "(pyfloat \<Rightarrow> pstr) \<Rightarrow> 'w host \<Rightarrow> registry \<Rightarrow> 'w driver" where
  "process_execute sf ho reg w rq =
     (case fst (get_strategy (ho_python ho) (rq_language rq) reg) of
        Inl exc \<Rightarrow> (Inl exc, w)
      | Inr strategy \<Rightarrow>
          (case ho_make_temp ho w of
             (Inl exc, w1) \<Rightarrow> (Inl exc, w1)
           | (Inr temp_dir, w1) \<Rightarrow>
               (case execute_body ho strategy rq temp_dir w1 of
                  (Finished r, w2) \<Rightarrow> (Inr r, ho_cleanup ho w2)
                | (Raised exc, w2) \<Rightarrow> (Inr (system_error_result exc), ho_cleanup ho w2)
                | (Proceed rr, w2) \<Rightarrow>
                    (let w3 = ho_cleanup ho w2
                     in (Inr (run_result sf rq rr (ho_elapsed_ms ho w3)), w3)))))"

section \<open>The driver keeps its contract\<close>

lemma decode_text [simp]: "utf8_text (decode_utf8 b)"
  by (rule utf8_decode_text)

text \<open>Capturing is offering at most two chunks to the consumer.\<close>

definition offered :: "bytes \<Rightarrow> bytes \<Rightarrow> feed list" where
  "offered out err =
     (if out \<noteq> [] then [Out (decode_utf8 out)] else []) @
     (if err \<noteq> [] then [Err (decode_utf8 err)] else [])"

lemma capture_consumed: "capture out err c = consumed (offered out err) c"
  by (simp add: capture_def offered_def Let_def)

lemma offered_ok [simp]: "list_all feed_ok (offered out err)"
  by (simp add: offered_def)

lemma capture_inv [simp]: "consumer_inv (capture out err (new_consumer m))"
  unfolding capture_consumed by (rule sink.run_inv [OF consumer_inv_new offered_ok])

lemma inv_stdout: "consumer_inv c \<Longrightarrow> utf8_len (get_full_stdout c) \<le> nat (sc_max_bytes c)"
  by (auto simp: consumer_inv_def kept_bytes_def)

text \<open>What a run leaves: the captured output, or nothing and the kill code.\<close>

definition run_ok :: "execution_request \<Rightarrow> run_record \<Rightarrow> bool" where
  "run_ok rq rr \<longleftrightarrow>
     consumer_inv (rr_consumer rr) \<and>
     sc_max_bytes (rr_consumer rr) = rq_max_output_bytes rq \<and>
     (rr_timed_out rr \<longrightarrow> rr_exit_code rr = - 9)"

lemma new_consumer_max [simp]: "sc_max_bytes (new_consumer m) = m"
  by (simp add: new_consumer_def)

lemma capture_max [simp]: "sc_max_bytes (capture out err c) = sc_max_bytes c"
  by (simp add: capture_consumed consumed_max)

lemma run_ok_exit:
  "run_ok rq \<lparr>rr_timed_out = False, rr_exit_code = code,
              rr_consumer = capture out err (new_consumer (rq_max_output_bytes rq))\<rparr>"
  by (simp add: run_ok_def)

lemma run_ok_timeout:
  "run_ok rq \<lparr>rr_timed_out = True, rr_exit_code = - 9,
              rr_consumer = new_consumer (rq_max_output_bytes rq)\<rparr>"
  by (simp add: run_ok_def)

text \<open>The outcomes of a run, as one case distinction.\<close>

lemma run_phase_cases:
  obtains exc w' where "run_phase ho rq cmd w = (Raised exc, w')"
  | code out err w' where
      "run_phase ho rq cmd w =
         (Proceed \<lparr>rr_timed_out = False, rr_exit_code = code,
                   rr_consumer = capture out err (new_consumer (rq_max_output_bytes rq))\<rparr>, w')"
  | w' where
      "run_phase ho rq cmd w =
         (Proceed \<lparr>rr_timed_out = True, rr_exit_code = - 9,
                   rr_consumer = new_consumer (rq_max_output_bytes rq)\<rparr>, w')"
proof -
  let ?has = "opt_truthy (rq_stdin_data rq)"
  let ?enc = "if ?has then encode_utf8 (the (rq_stdin_data rq)) else Inr []"
  obtain e1 w1 where s: "ho_spawn ho w cmd ?has = (e1, w1)" by fastforce
  show ?thesis
  proof (cases e1)
    case None
    show ?thesis
    proof (cases ?enc)
      case (Inl exc)
      with None s that(1) show ?thesis by (simp add: run_phase_def Let_def)
    next
      case (Inr input)
      obtain out2 w2 where c: "ho_communicate ho w1 (if ?has then Some input else None)
          (rq_timeout_seconds rq) = (out2, w2)" by fastforce
      with None s Inr that show ?thesis by (cases out2) (simp_all add: run_phase_def Let_def)
    qed
  qed (use s that(1) in \<open>simp add: run_phase_def Let_def\<close>)
qed

lemma run_phase_ok: "run_phase ho rq cmd w = (Proceed rr, w') \<Longrightarrow> run_ok rq rr"
  by (rule run_phase_cases [of ho rq cmd w]) (auto simp: run_ok_exit run_ok_timeout)

lemma run_phase_not_finished: "run_phase ho rq cmd w \<noteq> (Finished r, w')"
  by (rule run_phase_cases [of ho rq cmd w]) auto

lemma compile_phase_finished:
  "compile_phase ho strategy src bin w = (Finished r, w') \<Longrightarrow>
   rs_status r = ES_COMPILE_ERROR \<and> rs_stdout r = []"
  by (auto simp: compile_phase_def Let_def compile_error_result_def
      split: prod.splits compile_outcome.splits if_splits)

lemma execute_body_cases:
  obtains exc w' where "execute_body ho strategy rq dir w = (Raised exc, w')"
  | r src bin w1 w' where "execute_body ho strategy rq dir w = (Finished r, w')"
      and "compile_phase ho strategy src bin w1 = (Finished r, w')"
  | cmd w1 where "execute_body ho strategy rq dir w = run_phase ho rq cmd w1"
proof -
  let ?src = "path_join ho dir (lit ''solution'' @ ls_file_extension strategy)"
  let ?bin = "path_join ho dir (binary_name ho)"
  show ?thesis
  proof (cases "encode_utf8 (rq_source_code rq)")
    case (Inl exc)
    then show ?thesis using that(1) by (simp add: execute_body_def)
  next
    case (Inr source)
    obtain e1 w1 where f: "ho_write_file ho w ?src source = (e1, w1)" by fastforce
    show ?thesis
    proof (cases e1)
      case (Some exc)
      then show ?thesis using that(1) Inr f by (simp add: execute_body_def)
    next
      case None
      note body = Inr f None
      obtain ph w2 where c: "compile_phase ho strategy ?src ?bin w1 = (ph, w2)" by fastforce
      show ?thesis
      proof (cases "ls_is_compiled strategy")
        case True
        with body c that show ?thesis by (cases ph) (auto simp: execute_body_def)
      next
        case False
        with body that(3) show ?thesis by (simp add: execute_body_def)
      qed
    qed
  qed
qed

lemma execute_body_finished:
  "execute_body ho strategy rq dir w = (Finished r, w') \<Longrightarrow>
   rs_status r = ES_COMPILE_ERROR \<and> rs_stdout r = []"
  by (rule execute_body_cases [of ho strategy rq dir w])
    (auto dest: compile_phase_finished simp: run_phase_not_finished)

lemma execute_body_proceed:
  "execute_body ho strategy rq dir w = (Proceed rr, w') \<Longrightarrow> run_ok rq rr"
  by (rule execute_body_cases [of ho strategy rq dir w]) (auto dest: run_phase_ok)

lemma run_result_ok:
  "run_ok rq rr \<Longrightarrow> output_ok rq (run_result sf rq rr ms) \<and> exit_ok (run_result sf rq rr ms)"
  using inv_stdout [of "rr_consumer rr"]
  by (auto simp: run_ok_def output_ok_def exit_ok_def run_result_def classify_def)

lemma system_error_ok:
  "output_ok rq (system_error_result exc) \<and> exit_ok (system_error_result exc)"
  by (simp add: output_ok_def exit_ok_def system_error_result_def default_result_def)

text \<open>The ways an execution ends once its temporary directory exists.\<close>

lemma process_execute_cases:
  assumes "fst (get_strategy (ho_python ho) (rq_language rq) reg) = Inr strategy"
    and "ho_make_temp ho w = (Inr dir, w1)"
  obtains r w2 where "execute_body ho strategy rq dir w1 = (Finished r, w2)"
      and "process_execute sf ho reg w rq = (Inr r, ho_cleanup ho w2)"
  | exc w2 where "execute_body ho strategy rq dir w1 = (Raised exc, w2)"
      and "process_execute sf ho reg w rq = (Inr (system_error_result exc), ho_cleanup ho w2)"
  | rr w2 where "execute_body ho strategy rq dir w1 = (Proceed rr, w2)"
      and "process_execute sf ho reg w rq =
        (Inr (run_result sf rq rr (ho_elapsed_ms ho (ho_cleanup ho w2))), ho_cleanup ho w2)"
proof -
  obtain ph w2 where b: "execute_body ho strategy rq dir w1 = (ph, w2)" by fastforce
  with assms that show ?thesis by (cases ph) (auto simp: process_execute_def Let_def)
qed

lemma process_result_ok:
  assumes "fst (process_execute sf ho reg w rq) = Inr r"
  shows "output_ok rq r \<and> exit_ok r"
proof -
  obtain strategy where s: "fst (get_strategy (ho_python ho) (rq_language rq) reg) = Inr strategy"
    using assms by (auto simp: process_execute_def split: sum.splits)
  obtain dir w1 where t: "ho_make_temp ho w = (Inr dir, w1)"
    using assms s by (auto simp: process_execute_def split: sum.splits prod.splits)
  show ?thesis
  proof (rule process_execute_cases [OF s t, of sf])
    fix r' w2
    assume "execute_body ho strategy rq dir w1 = (Finished r', w2)"
      and "process_execute sf ho reg w rq = (Inr r', ho_cleanup ho w2)"
    then show ?thesis
      using assms execute_body_finished [of ho strategy rq dir w1 r' w2]
      by (simp add: output_ok_def exit_ok_def)
  qed (use assms in \<open>auto dest: execute_body_proceed simp: run_result_ok system_error_ok\<close>)
qed

interpretation process: reporting_driver "process_execute sf ho reg" for sf ho reg
  by unfold_locales (simp_all add: process_result_ok)

section \<open>Compiler commands on Windows\<close>

definition dropped_flags :: "pstr set" where
  "dropped_flags = {lit ''-pie'', lit ''-fPIE'', lit ''-Wl,-z,relro,-z,now'', lit ''-z''}"

lemma adapt_args_dropped: "set (adapt_args b args) \<inter> dropped_flags = {}"
  by (induction b args rule: adapt_args.induct) (auto simp: dropped_flags_def)

lemma adapt_args_std:
  "set (adapt_args b args) \<inter> {lit ''-std=c17'', lit ''-std=c++20''} = {}"
  by (induction b args rule: adapt_args.induct) auto

lemma adapt_args_id:
  "set args \<inter> (dropped_flags \<union> {lit ''-std=c17'', lit ''-std=c++20''}) = {} \<Longrightarrow>
   adapt_args False args = args"
  by (induction args) (auto simp: dropped_flags_def)

lemma adapt_args_append:
  "\<lbrakk>set us \<inter> (dropped_flags \<union> {lit ''-std=c17'', lit ''-std=c++20''}) = {}\<rbrakk> \<Longrightarrow>
   adapt_args False (us @ vs) = us @ adapt_args False vs"
  by (induction us) (auto simp: dropped_flags_def)

section \<open>Properties\<close>

text \<open>C20. Once the language is known and the temporary directory exists, executing a request
  never raises: every failure becomes a result, the directory is removed as the last
  action on every path, the captured standard output respects the request's ceiling, and
  the exit code agrees with the reported status.\<close>

theorem process_execute_total:
  assumes "fst (get_strategy (ho_python ho) (rq_language rq) reg) = Inr strategy"
    and "ho_make_temp ho w = (Inr dir, w1)"
  shows "\<exists>r w2. process_execute sf ho reg w rq = (Inr r, ho_cleanup ho w2) \<and>
           output_ok rq r \<and> exit_ok r"
proof -
  have "\<exists>r w2. process_execute sf ho reg w rq = (Inr r, ho_cleanup ho w2)"
    by (rule process_execute_cases [OF assms, of sf]) auto
  then show ?thesis using process_result_ok by (metis fst_conv)
qed

text \<open>A host on which every program ends at once with the given outcome; the world counts
  the operations.\<close>

definition demo_host :: "run_outcome \<Rightarrow> nat host" where
  "demo_host out =
     \<lparr>ho_win32 = False, ho_python = lit ''python3'', ho_home = lit ''/root'',
      ho_which = (\<lambda>_. True), ho_exists = (\<lambda>_. False),
      ho_make_temp = (\<lambda>w. (Inr (lit ''/tmp/t''), Suc w)),
      ho_write_file = (\<lambda>w _ _. (None, Suc w)),
      ho_compile = (\<lambda>w _. (Compile_Exit 1 [] [101], Suc w)),
      ho_spawn = (\<lambda>w _ _. (None, Suc w)),
      ho_communicate = (\<lambda>w _ _. (out, Suc w)),
      ho_kill = Suc, ho_cleanup = Suc, ho_elapsed_ms = (\<lambda>_. 7)\<rparr>"

lemma demo_python:
  "fst (get_strategy (lit ''python3'') (lit ''python'') (imported_registry (lit ''python3''))) =
     Inr (python_strategy (lit ''python3''))"
proof -
  have "resolve (lit ''python'') = lit ''python''"
    by (simp add: resolve_def aliases_def py_strip_def py_lstrip_def py_rstrip_def lit_def
        py_isspace_def py_lower_def lower_char_def)
  then show ?thesis
    unfolding get_imported by (simp add: imported_registry_eq language_ids_def)
qed

theorem process_execute_total_witness:
  "\<exists>r. fst (process_execute (\<lambda>_. []) (demo_host Run_Timeout) (imported_registry (lit ''python3'')) 0
         (default_request (lit ''x''))) = Inr r \<and> exit_ok r"
proof -
  have g: "fst (get_strategy (ho_python (demo_host Run_Timeout)) (rq_language (default_request (lit ''x'')))
      (imported_registry (lit ''python3''))) = Inr (python_strategy (lit ''python3''))"
    using demo_python by (simp add: demo_host_def default_request_def)
  have t: "ho_make_temp (demo_host Run_Timeout) 0 = (Inr (lit ''/tmp/t''), 1)"
    by (simp add: demo_host_def)
  obtain r w2 where "process_execute (\<lambda>_. []) (demo_host Run_Timeout)
      (imported_registry (lit ''python3'')) 0 (default_request (lit ''x'')) =
      (Inr r, ho_cleanup (demo_host Run_Timeout) w2) \<and> output_ok (default_request (lit ''x'')) r \<and> exit_ok r"
    using process_execute_total [OF g t, of "\<lambda>_. []"] by blast
  then show ?thesis by (intro exI [of _ r]) simp
qed

text \<open>A run that ends within its limits is reported unchanged.  For an interpreted
  language, when the source and the input are valid text, the program is spawned and ends
  with an exit code, and its two decoded streams fit the ceiling, the result carries both
  streams in full, the exit code, and \<open>COMPLETED\<close> exactly when the exit code is zero.\<close>

lemma process_run_reported:
  assumes "fst (get_strategy (ho_python ho) (rq_language rq) reg) = Inr strategy"
    and "\<not> ls_is_compiled strategy"
    and "ho_make_temp ho w = (Inr dir, w1)"
    and "source = path_join ho dir (lit ''solution'' @ ls_file_extension strategy)"
    and "utf8_text (rq_source_code rq)" and "utf8_text input" and "rq_stdin_data rq = Some input"
    and "ho_write_file ho w1 source (utf8_encode (rq_source_code rq)) = (None, w2)"
    and "ho_spawn ho w2 (ls_execution_command strategy source) (input \<noteq> []) = (None, w3)"
    and "ho_communicate ho w3 (if input \<noteq> [] then Some (utf8_encode input) else None)
           (rq_timeout_seconds rq) = (Run_Exit code out err, w4)"
    and "int (utf8_len (decode_utf8 out) + utf8_len (decode_utf8 err)) \<le> rq_max_output_bytes rq"
  shows "\<exists>r. process_execute sf ho reg w rq = (Inr r, ho_cleanup ho w4) \<and>
           rs_stdout r = decode_utf8 out \<and> rs_stderr r = decode_utf8 err \<and>
           rs_exit_code r = Some code \<and>
           rs_status r = (if code = 0 then ES_COMPLETED else ES_RUNTIME_ERROR)"
proof -
  let ?c = "consumed (offered out err) (new_consumer (rq_max_output_bytes rq))"
  have off: "offered_out (offered out err) = decode_utf8 out" "offered_err (offered out err) = decode_utf8 err"
    by (simp_all add: offered_def)
  have new: "sc_total_bytes (new_consumer m) = 0" "\<not> sc_limit_exceeded (new_consumer m)"
    "get_full_stdout (new_consumer m) = []" "get_full_stderr (new_consumer m) = []" for m
    by (simp_all add: new_consumer_def get_full_stdout_def get_full_stderr_def)
  have opn: "\<not> sc_limit_exceeded ?c"
    using assms(11) consumed_fits [of "new_consumer (rq_max_output_bytes rq)" "offered out err"]
    by (simp add: off new)
  then have full: "get_full_stdout ?c = decode_utf8 out" "get_full_stderr ?c = decode_utf8 err"
    using consumed_open [OF opn] by (simp_all add: off new)
  have enc: "encode_utf8 s = Inr (utf8_encode s)" if "utf8_text s" for s
    using that by (simp add: encode_utf8_def)
  have "execute_body ho strategy rq dir w1 =
      (Proceed \<lparr>rr_timed_out = False, rr_exit_code = code, rr_consumer = ?c\<rparr>, w4)"
    using assms(2,4-10)
    by (cases "input = []") (simp_all add: execute_body_def run_phase_def enc capture_consumed)
  then show ?thesis
    using assms(1,3) full opn
    by (simp add: process_execute_def run_result_def classify_def Let_def)
qed

lemma process_run_reported_witness:
  "\<exists>r. process_execute (\<lambda>_. []) (demo_host (Run_Exit 0 [104, 105] [])) (imported_registry (lit ''python3''))
      0 ((default_request (lit ''x''))\<lparr>rq_stdin_data := Some []\<rparr>) = (Inr r, 5) \<and>
    rs_stdout r = lit ''hi'' \<and> rs_status r = ES_COMPLETED"
proof -
  let ?ho = "demo_host (Run_Exit 0 [104, 105] [])"
  let ?rq = "(default_request (lit ''x''))\<lparr>rq_stdin_data := Some []\<rparr>"
  have g: "fst (get_strategy (ho_python ?ho) (rq_language ?rq) (imported_registry (lit ''python3''))) =
      Inr (python_strategy (lit ''python3''))"
    using demo_python by (simp add: demo_host_def default_request_def)
  have "utf8_encode (lit ''hi'') = [104, 105]" "utf8_text (lit ''hi'')"
    by (simp_all add: lit_def enc_char_def scalar_def is_surrogate_def)
  then have d: "decode_utf8 [104, 105] = lit ''hi''" "decode_utf8 [] = []"
    using utf8_roundtrip [of "lit ''hi''" Replace_Errors] by simp_all
  have l: "int (utf8_len (decode_utf8 [104, 105]) + utf8_len (decode_utf8 [])) \<le> rq_max_output_bytes ?rq"
    unfolding d by (simp add: lit_def enc_char_def default_request_def)
  let ?src = "path_join ?ho (lit ''/tmp/t'') (lit ''solution'' @ ls_file_extension (python_strategy (lit ''python3'')))"
  have c: "\<not> ls_is_compiled (python_strategy (lit ''python3''))" by (simp add: python_strategy_def)
  have t: "ho_make_temp ?ho 0 = (Inr (lit ''/tmp/t''), 1)" by (simp add: demo_host_def)
  have u: "utf8_text (rq_source_code ?rq)"
    by (simp add: default_request_def lit_def scalar_def is_surrogate_def)
  have i: "rq_stdin_data ?rq = Some []" by simp
  have f: "ho_write_file ?ho 1 ?src (utf8_encode (rq_source_code ?rq)) = (None, 2)"
    by (simp add: demo_host_def)
  have sp: "ho_spawn ?ho 2 (ls_execution_command (python_strategy (lit ''python3'')) ?src)
      (([]::pstr) \<noteq> []) = (None, 3)"
    by (simp add: demo_host_def)
  have m: "ho_communicate ?ho 3 (if ([]::pstr) \<noteq> [] then Some (utf8_encode []) else None)
      (rq_timeout_seconds ?rq) = (Run_Exit 0 [104, 105] [], 4)"
    by (simp add: demo_host_def)
  have cl: "ho_cleanup ?ho 4 = 5" by (simp add: demo_host_def)
  have e: "utf8_text []" by simp
  from process_run_reported [where sf = "\<lambda>_. []", OF g c t refl u e i f sp m l]
  show ?thesis unfolding cl d(1) by auto
qed

text \<open>Adapting a compiler command drops exactly the flags a Windows toolchain lacks.  On
  any other platform the command is left alone; on Windows no dropped flag and no
  unsupported standard is left, adapting twice is adapting once, and arguments that need
  no change, such as the paths, keep their place.\<close>

lemma adapt_command_meaning:
  "set (adapt_args b args) \<inter> (dropped_flags \<union> {lit ''-std=c17'', lit ''-std=c++20''}) = {} \<and>
   adapt_args False (adapt_args b args) = adapt_args b args \<and>
   adapt_args False (ls_compile_command c_strategy src bin) =
     [lit ''gcc'', lit ''-std=c11'', lit ''-O2'', lit ''-Wall'', lit ''-fstack-protector-strong'',
      lit ''-D_FORTIFY_SOURCE=2''] @ adapt_args False [src, lit ''-o'', bin] \<and>
   adapt_compile_command (ho\<lparr>ho_win32 := False\<rparr>) args = args"
proof (intro conjI)
  show d: "set (adapt_args b args) \<inter> (dropped_flags \<union> {lit ''-std=c17'', lit ''-std=c++20''}) = {}"
    using adapt_args_dropped [of b args] adapt_args_std [of b args] by auto
  show "adapt_args False (adapt_args b args) = adapt_args b args" by (rule adapt_args_id [OF d])
qed (simp_all add: c_strategy_def adapt_compile_command_def)

end
