(* ===== verification/Py_Json.thy ===== *)
theory Py_Json
  imports Utf8 Binary64
begin

text \<open>
  \<open>json.dumps\<close> and \<open>json.loads\<close> of the standard library, as the source uses them: ASCII
  output with \<open>\u\<close> escapes and surrogate pairs, the separators \<open>, \<close> and \<open>: \<close>, objects as
  insertion-ordered dictionaries whose last duplicate wins, and the parser's grammar.  The
  representation of a float is an argument (\<open>show_float\<close>).  Parsing takes fuel; \<open>loads\<close>
  gives twice the length of the text, and every value \<open>dumps\<close> writes is read back.
\<close>

datatype json =
    JNull | JBool bool | JInt int | JFloat pyfloat | JStr pstr
  | JArr "json list" | JObj "(pstr \<times> json) list"

section \<open>Writing\<close>

definition hex_digit :: "nat \<Rightarrow> nat" where
  "hex_digit d = (if d < 10 then 48 + d else 87 + d)"

definition hex4 :: "nat \<Rightarrow> pstr" where
  "hex4 u = [hex_digit (u div 4096), hex_digit (u div 256 mod 16), hex_digit (u div 16 mod 16),
             hex_digit (u mod 16)]"

definition u_escape :: "nat \<Rightarrow> pstr" where
  "u_escape u = 92 # 117 # hex4 u"

definition json_char :: "nat \<Rightarrow> pstr" where
  "json_char c =
     (if c = 34 then [92, 34]
      else if c = 92 then [92, 92]
      else if c = 10 then [92, 110]
      else if c = 13 then [92, 114]
      else if c = 9 then [92, 116]
      else if c = 12 then [92, 102]
      else if c = 8 then [92, 98]
      else if 32 \<le> c \<and> c \<le> 126 then [c]
      else if c < 65536 then u_escape c
      else u_escape (55296 + (c - 65536) div 1024) @ u_escape (56320 + (c - 65536) mod 1024))"

definition json_quote :: "pstr \<Rightarrow> pstr" where
  "json_quote s = 34 # concat (map json_char s) @ [34]"

fun dumps :: "(pyfloat \<Rightarrow> pstr) \<Rightarrow> json \<Rightarrow> pstr"
  and dumps_elems :: "(pyfloat \<Rightarrow> pstr) \<Rightarrow> json list \<Rightarrow> pstr list"
  and dumps_fields :: "(pyfloat \<Rightarrow> pstr) \<Rightarrow> (pstr \<times> json) list \<Rightarrow> pstr list" where
  "dumps sf JNull = lit ''null''"
| "dumps sf (JBool b) = (if b then lit ''true'' else lit ''false'')"
| "dumps sf (JInt i) = show_int i"
| "dumps sf (JFloat x) = sf x"
| "dumps sf (JStr s) = json_quote s"
| "dumps sf (JArr xs) = 91 # py_join [44, 32] (dumps_elems sf xs) @ [93]"
| "dumps sf (JObj kvs) = 123 # py_join [44, 32] (dumps_fields sf kvs) @ [125]"
| "dumps_elems sf [] = []"
| "dumps_elems sf (x # xs) = dumps sf x # dumps_elems sf xs"
| "dumps_fields sf [] = []"
| "dumps_fields sf ((k, v) # kvs) = (json_quote k @ [58, 32] @ dumps sf v) # dumps_fields sf kvs"

section \<open>Reading\<close>

definition hex_value :: "nat \<Rightarrow> nat option" where
  "hex_value c =
     (if 48 \<le> c \<and> c \<le> 57 then Some (c - 48)
      else if 97 \<le> c \<and> c \<le> 102 then Some (c - 87)
      else if 65 \<le> c \<and> c \<le> 70 then Some (c - 55)
      else None)"

definition read_hex4 :: "nat \<Rightarrow> nat \<Rightarrow> nat \<Rightarrow> nat \<Rightarrow> nat option" where
  "read_hex4 a b c d =
     (case (hex_value a, hex_value b, hex_value c, hex_value d) of
        (Some w, Some x, Some y, Some z) \<Rightarrow> Some (w * 4096 + x * 256 + y * 16 + z)
      | _ \<Rightarrow> None)"

definition short_escape :: "nat \<Rightarrow> nat option" where
  "short_escape c =
     (if c = 34 \<or> c = 92 \<or> c = 47 then Some c
      else if c = 98 then Some 8
      else if c = 102 then Some 12
      else if c = 110 then Some 10
      else if c = 114 then Some 13
      else if c = 116 then Some 9
      else None)"

text \<open>
  The units of a string after its opening quote, each with whether it was a \<open>\u\<close> escape, and
  the text after the closing quote; control characters are refused.
\<close>

fun json_units :: "pstr \<Rightarrow> ((bool \<times> nat) list \<times> pstr) option" where
  "json_units [] = None"
| "json_units (c # cs) =
     (if c = 34 then Some ([], cs)
      else if c = 92 then
        (case cs of
           [] \<Rightarrow> None
         | e # cs1 \<Rightarrow>
             if e = 117 then
               (case cs1 of
                  h1 # h2 # h3 # h4 # cs2 \<Rightarrow>
                    (case read_hex4 h1 h2 h3 h4 of
                       Some u \<Rightarrow> map_option (apfst (Cons (True, u))) (json_units cs2)
                     | None \<Rightarrow> None)
                | _ \<Rightarrow> None)
             else
               (case short_escape e of
                  Some u \<Rightarrow> map_option (apfst (Cons (False, u))) (json_units cs1)
                | None \<Rightarrow> None))
      else if c < 32 then None
      else map_option (apfst (Cons (False, c))) (json_units cs))"

text \<open>An escaped high surrogate followed by an escaped low one is one character.\<close>

fun join_surrogates :: "(bool \<times> nat) list \<Rightarrow> pstr" where
  "join_surrogates [] = []"
| "join_surrogates [(e, u)] = [u]"
| "join_surrogates ((e, u) # (e', v) # us) =
     (if e \<and> e' \<and> 55296 \<le> u \<and> u \<le> 56319 \<and> 56320 \<le> v \<and> v \<le> 57343
      then (65536 + (u - 55296) * 1024 + (v - 56320)) # join_surrogates us
      else u # join_surrogates ((e', v) # us))"

definition json_string :: "pstr \<Rightarrow> (pstr \<times> pstr) option" where
  "json_string s = map_option (apfst join_surrogates) (json_units s)"

definition skip_ws :: "pstr \<Rightarrow> pstr" where
  "skip_ws s = dropWhile (\<lambda>c. c = 32 \<or> c = 9 \<or> c = 10 \<or> c = 13) s"

text \<open>The digits of an integer part: a single zero, or digits that do not start with one.\<close>

definition int_digits :: "pstr \<Rightarrow> pstr" where
  "int_digits s =
     (case s of [] \<Rightarrow> [] | c # cs \<Rightarrow> if c = 48 then [48] else takeWhile is_digit s)"

definition frac_part :: "pstr \<Rightarrow> pstr" where
  "frac_part s =
     (case s of
        c # cs \<Rightarrow> if c = 46 \<and> takeWhile is_digit cs \<noteq> [] then 46 # takeWhile is_digit cs else []
      | [] \<Rightarrow> [])"

definition exp_part :: "pstr \<Rightarrow> pstr" where
  "exp_part s =
     (case s of
        c # cs \<Rightarrow>
          if c = 69 \<or> c = 101 then
            let sg = (case cs of x # _ \<Rightarrow> if x = 43 \<or> x = 45 then [x] else [] | [] \<Rightarrow> []);
                ds = takeWhile is_digit (drop (length sg) cs)
            in if ds \<noteq> [] then c # sg @ ds else []
          else []
      | [] \<Rightarrow> [])"

definition json_number :: "pstr \<Rightarrow> (json \<times> pstr) option" where
  "json_number s =
     (let neg = (s \<noteq> [] \<and> hd s = 45);
          s1 = (if neg then tl s else s);
          ip = int_digits s1; s2 = drop (length ip) s1;
          fp = frac_part s2; s3 = drop (length fp) s2;
          ep = exp_part s3; s4 = drop (length ep) s3
      in if ip = [] then None
         else if fp = [] \<and> ep = [] then
           Some (JInt (if neg then - digits_value ip else digits_value ip), s4)
         else
           map_option (\<lambda>v. (JFloat (fl (if neg then - v else v)), s4))
             (read_decimal (ip @ fp @ ep)))"

definition json_literal :: "pstr \<Rightarrow> json \<Rightarrow> pstr \<Rightarrow> (json \<times> pstr) option" where
  "json_literal word v s =
     (if take (length word) s = word then Some (v, drop (length word) s) else None)"

definition json_scalar :: "pstr \<Rightarrow> (json \<times> pstr) option" where
  "json_scalar s =
     (if s = [] then None
      else if hd s = 34 then map_option (apfst JStr) (json_string (tl s))
      else if hd s = 110 then json_literal (lit ''null'') JNull s
      else if hd s = 116 then json_literal (lit ''true'') (JBool True) s
      else if hd s = 102 then json_literal (lit ''false'') (JBool False) s
      else if hd s = 78 then json_literal (lit ''NaN'') (JFloat NaN) s
      else if hd s = 73 then json_literal (lit ''Infinity'') (JFloat PInf) s
      else if take 2 s = [45, 73] then json_literal (lit ''-Infinity'') (JFloat NInf) s
      else json_number s)"

text \<open>A parsed member list becomes a dictionary: the last duplicate wins, in the first's place.\<close>

definition as_dict :: "(pstr \<times> json) list \<Rightarrow> (pstr \<times> json) list" where
  "as_dict kvs = foldl (\<lambda>d (k, v). dict_set k v d) [] kvs"

fun parse_value :: "nat \<Rightarrow> pstr \<Rightarrow> (json \<times> pstr) option"
  and parse_elems :: "nat \<Rightarrow> pstr \<Rightarrow> (json list \<times> pstr) option"
  and parse_fields :: "nat \<Rightarrow> pstr \<Rightarrow> ((pstr \<times> json) list \<times> pstr) option" where
  "parse_value 0 s = None"
| "parse_value (Suc n) s =
     (if s \<noteq> [] \<and> hd s = 91 then
        (let r = skip_ws (tl s)
         in if r \<noteq> [] \<and> hd r = 93 then Some (JArr [], tl r)
            else map_option (apfst JArr) (parse_elems n r))
      else if s \<noteq> [] \<and> hd s = 123 then
        (let r = skip_ws (tl s)
         in if r \<noteq> [] \<and> hd r = 125 then Some (JObj [], tl r)
            else map_option (apfst (JObj \<circ> as_dict)) (parse_fields n r))
      else json_scalar s)"
| "parse_elems 0 s = None"
| "parse_elems (Suc n) s =
     (case parse_value n s of
        None \<Rightarrow> None
      | Some (v, r) \<Rightarrow>
          (case skip_ws r of
             [] \<Rightarrow> None
           | c # r' \<Rightarrow>
               if c = 93 then Some ([v], r')
               else if c = 44 then map_option (apfst (Cons v)) (parse_elems n (skip_ws r'))
               else None))"
| "parse_fields 0 s = None"
| "parse_fields (Suc n) s =
     (if s = [] \<or> hd s \<noteq> 34 then None
      else case json_string (tl s) of
        None \<Rightarrow> None
      | Some (k, r1) \<Rightarrow>
          (case skip_ws r1 of
             [] \<Rightarrow> None
           | c1 # r2 \<Rightarrow>
               if c1 \<noteq> 58 then None
               else case parse_value n (skip_ws r2) of
                 None \<Rightarrow> None
               | Some (v, r3) \<Rightarrow>
                   (case skip_ws r3 of
                      [] \<Rightarrow> None
                    | c # r' \<Rightarrow>
                        if c = 125 then Some ([(k, v)], r')
                        else if c = 44 then
                          map_option (apfst (Cons (k, v))) (parse_fields n (skip_ws r'))
                        else None)))"

definition loads :: "pstr \<Rightarrow> json option" where
  "loads s =
     (case parse_value (2 * length s + 1) (skip_ws s) of
        None \<Rightarrow> None
      | Some (v, r) \<Rightarrow> if skip_ws r = [] then Some v else None)"

section \<open>Strings survive the round trip\<close>

lemma hex_value_digit: "d < 16 \<Longrightarrow> hex_value (hex_digit d) = Some d"
  by (simp add: hex_value_def hex_digit_def)

lemma hex_split:
  "u div 4096 * 4096 + u div 256 mod 16 * 256 + u div 16 mod 16 * 16 + u mod 16 = (u::nat)"
proof -
  have flat: "((q * 16 + a) * 16 + b) * 16 + c = q * 4096 + a * 256 + b * 16 + c" for q a b c :: nat
    by simp
  have "((u div 16 div 16 div 16 * 16 + u div 16 div 16 mod 16) * 16 + u div 16 mod 16) * 16 + u mod 16 = u"
    by (simp only: div_mult_mod_eq)
  moreover have "u div 16 div 16 = u div 256" "u div 16 div 16 div 16 = u div 4096"
    by (simp_all only: div_mult2_eq [symmetric]) simp_all
  ultimately show ?thesis by (simp only: flat)
qed

lemma read_hex4_digits:
  "a < 16 \<Longrightarrow> b < 16 \<Longrightarrow> c < 16 \<Longrightarrow> d < 16 \<Longrightarrow>
   read_hex4 (hex_digit a) (hex_digit b) (hex_digit c) (hex_digit d) =
     Some (a * 4096 + b * 256 + c * 16 + d)"
  by (simp add: read_hex4_def hex_value_digit)

lemma read_hex4_hex4: "u < 65536 \<Longrightarrow>
  read_hex4 (hex_digit (u div 4096)) (hex_digit (u div 256 mod 16)) (hex_digit (u div 16 mod 16))
    (hex_digit (u mod 16)) = Some u"
  using read_hex4_digits [of "u div 4096" "u div 256 mod 16" "u div 16 mod 16" "u mod 16"]
    hex_split [of u] less_mult_imp_div_less [of u 16 4096] by simp

lemma json_units_escape:
  "u < 65536 \<Longrightarrow> json_units (u_escape u @ t) = map_option (apfst (Cons (True, u))) (json_units t)"
  by (simp add: u_escape_def hex4_def read_hex4_hex4)

text \<open>The units one character is written as.\<close>

definition units_of :: "nat \<Rightarrow> (bool \<times> nat) list" where
  "units_of c =
     (if c \<in> {34, 92, 10, 13, 9, 12, 8} \<or> 32 \<le> c \<and> c \<le> 126 then [(False, c)]
      else if c < 65536 then [(True, c)]
      else [(True, 55296 + (c - 65536) div 1024), (True, 56320 + (c - 65536) mod 1024)])"

lemma json_units_char:
  assumes "c < 1114112"
  shows "json_units (json_char c @ t) = map_option (apfst (append (units_of c))) (json_units t)"
proof (cases "c < 65536")
  case True
  then show ?thesis
    by (cases "json_units t")
      (auto simp: json_char_def units_of_def json_units_escape short_escape_def)
next
  case False
  have "55296 + (c - 65536) div 1024 < 65536" using assms False by linarith
  moreover have "56320 + (c - 65536) mod 1024 < 65536"
    using mod_less_divisor [of 1024 "c - 65536"] by linarith
  ultimately show ?thesis using False
    by (cases "json_units t") (auto simp: json_char_def units_of_def json_units_escape)
qed

lemma json_units_text:
  "utf8_text s \<Longrightarrow> json_units (concat (map json_char s) @ 34 # rest) =
     Some (concat (map units_of s), rest)"
  by (induction s) (simp_all add: json_units_char scalar_def)

lemma join_surrogates_single:
  "\<not> (55296 \<le> c \<and> c \<le> 56319) \<Longrightarrow> join_surrogates ((e, c) # us) = c # join_surrogates us"
  by (cases us) auto

lemma join_surrogates_char:
  assumes "scalar c"
  shows "join_surrogates (units_of c @ us) = c # join_surrogates us"
proof (cases "c < 65536")
  case True
  then show ?thesis
    using assms by (auto simp: units_of_def join_surrogates_single scalar_def is_surrogate_def)
next
  case False
  have "c < 1114112" using assms by (simp add: scalar_def)
  then have "(c - 65536) div 1024 \<le> 1023" by linarith
  moreover have "(c - 65536) mod 1024 \<le> 1023"
    using mod_less_divisor [of 1024 "c - 65536"] by linarith
  moreover have "65536 + (c - 65536) div 1024 * 1024 + (c - 65536) mod 1024 = c"
    using False by simp
  ultimately show ?thesis using False by (simp add: units_of_def)
qed

lemma join_surrogates_text:
  "utf8_text s \<Longrightarrow> join_surrogates (concat (map units_of s)) = s"
  by (induction s) (simp_all add: join_surrogates_char)

lemma json_string_quote:
  "utf8_text s \<Longrightarrow> json_string (concat (map json_char s) @ 34 # rest) = Some (s, rest)"
  by (simp add: json_string_def json_units_text join_surrogates_text)

section \<open>Integers survive the round trip\<close>

lemma digits_value_snoc: "digits_value (ds @ [d]) = digits_value ds * 10 + (int d - 48)"
  by (simp add: digits_value_def)

lemma digits_value_show_nat [simp]: "digits_value (show_nat n) = int n"
proof (induction n rule: show_nat.induct)
  case (1 n)
  show ?case
  proof (cases "n < 10")
    case True
    then show ?thesis by (simp add: show_nat.simps [of n] digits_value_def)
  next
    case False
    have "int (n div 10) * 10 + int (n mod 10) = int n"
      by (metis div_mult_mod_eq of_nat_add of_nat_mult of_nat_numeral)
    with 1 False show ?thesis
      by (simp add: show_nat.simps [of n] digits_value_snoc)
  qed
qed

lemma show_nat_is_digits: "list_all is_digit (show_nat n)"
  using show_nat_digits by (auto simp: list_all_iff is_digit_def)

lemma hd_show_nat: "0 < n \<Longrightarrow> hd (show_nat n) \<noteq> 48"
proof (induction n rule: show_nat.induct)
  case (1 n)
  show ?case
  proof (cases "n < 10")
    case True
    then show ?thesis using 1 by (simp add: show_nat.simps [of n])
  next
    case False
    then show ?thesis using 1 by (simp add: show_nat.simps [of n])
  qed
qed

text \<open>What may follow a number: nothing that continues it.\<close>

definition num_end :: "pstr \<Rightarrow> bool" where
  "num_end r \<longleftrightarrow> r = [] \<or> \<not> is_digit (hd r) \<and> hd r \<notin> {46, 69, 101}"

lemma takeWhile_digits:
  "list_all is_digit ds \<Longrightarrow> num_end r \<Longrightarrow> takeWhile is_digit (ds @ r) = ds"
  by (induction ds) (cases r; auto simp: num_end_def)+

lemma int_digits_show_nat: "num_end r \<Longrightarrow> int_digits (show_nat n @ r) = show_nat n"
proof (cases "n = 0")
  case True
  then show ?thesis by (simp add: int_digits_def show_nat.simps [of 0])
next
  case False
  assume r: "num_end r"
  obtain c cs where c: "show_nat n = c # cs" by (cases "show_nat n") auto
  with False hd_show_nat [of n] have "c \<noteq> 48" by simp
  then have "int_digits (show_nat n @ r) = takeWhile is_digit (show_nat n @ r)"
    by (simp add: int_digits_def c)
  then show ?thesis using takeWhile_digits [OF show_nat_is_digits r] by simp
qed

lemma num_end_parts: "num_end r \<Longrightarrow> frac_part r = [] \<and> exp_part r = []"
  by (cases r) (auto simp: num_end_def frac_part_def exp_part_def)

lemma json_number_nat:
  "num_end r \<Longrightarrow> json_number (show_nat n @ r) = Some (JInt (int n), r)"
proof -
  assume r: "num_end r"
  have "hd (show_nat n @ r) \<noteq> 45"
    using show_nat_digits [of "hd (show_nat n)" n] by (auto simp: hd_append)
  then show ?thesis
    using int_digits_show_nat [OF r, of n] num_end_parts [OF r]
    by (simp add: json_number_def Let_def)
qed

lemma json_number_neg:
  "num_end r \<Longrightarrow> json_number (45 # show_nat n @ r) = Some (JInt (- int n), r)"
  using int_digits_show_nat [of r n] num_end_parts [of r]
  by (simp add: json_number_def Let_def)

lemma json_scalar_digit:
  "s \<noteq> [] \<Longrightarrow> is_digit (hd s) \<Longrightarrow> json_scalar s = json_number s"
  by (cases s; cases "tl s") (auto simp: json_scalar_def is_digit_def)

lemma json_scalar_minus:
  "s \<noteq> [] \<Longrightarrow> is_digit (hd s) \<Longrightarrow> json_scalar (45 # s) = json_number (45 # s)"
  by (cases s) (auto simp: json_scalar_def is_digit_def)

lemma json_scalar_int: "num_end r \<Longrightarrow> json_scalar (show_int i @ r) = Some (JInt i, r)"
proof -
  assume r: "num_end r"
  have d: "is_digit (hd (show_nat n @ r))" for n
    using show_nat_digits [of "hd (show_nat n)" n] by (auto simp: hd_append is_digit_def)
  show ?thesis
    using json_number_nat [OF r] json_number_neg [OF r]
      json_scalar_digit [OF _ d] json_scalar_minus [OF _ d]
    by (simp add: show_int_def)
qed

section \<open>Every written value is read back\<close>

text \<open>Values without floats, with valid texts and without duplicate keys.\<close>

fun json_plain :: "json \<Rightarrow> bool"
  and plain_elems :: "json list \<Rightarrow> bool"
  and plain_fields :: "(pstr \<times> json) list \<Rightarrow> bool" where
  "json_plain JNull = True"
| "json_plain (JBool b) = True"
| "json_plain (JInt i) = True"
| "json_plain (JFloat x) = False"
| "json_plain (JStr s) = utf8_text s"
| "json_plain (JArr xs) = plain_elems xs"
| "json_plain (JObj kvs) = (plain_fields kvs \<and> distinct (map fst kvs))"
| "plain_elems [] = True"
| "plain_elems (x # xs) = (json_plain x \<and> plain_elems xs)"
| "plain_fields [] = True"
| "plain_fields ((k, v) # kvs) = (utf8_text k \<and> json_plain v \<and> plain_fields kvs)"

lemma dict_set_new: "k \<notin> fst ` set d \<Longrightarrow> dict_set k v d = d @ [(k, v)]"
  by (induction k v d rule: dict_set.induct) auto

lemma as_dict_from:
  "distinct (map fst (d @ kvs)) \<Longrightarrow> foldl (\<lambda>d (k, v). dict_set k v d) d kvs = d @ kvs"
proof (induction kvs arbitrary: d)
  case (Cons kv kvs)
  obtain k v where kv: "kv = (k, v)" by fastforce
  have "k \<notin> fst ` set d" using Cons.prems kv by auto
  then show ?case using Cons.IH [of "d @ [(k, v)]"] Cons.prems kv by (simp add: dict_set_new)
qed simp

lemma as_dict_distinct: "distinct (map fst kvs) \<Longrightarrow> as_dict kvs = kvs"
  using as_dict_from [of "[]" kvs] by (simp add: as_dict_def)

text \<open>How a written value starts.\<close>

definition plain_start :: "pstr \<Rightarrow> bool" where
  "plain_start s \<longleftrightarrow>
     s \<noteq> [] \<and> (hd s \<in> {34, 45, 91, 102, 110, 116, 123} \<or> is_digit (hd s))"

lemma show_int_start: "plain_start (show_int i @ r)"
  using show_nat_digits [of "hd (show_nat (nat i))" "nat i"]
  by (auto simp: plain_start_def show_int_def hd_append is_digit_def)

lemma dumps_start: "json_plain j \<Longrightarrow> plain_start (dumps sf j @ r)"
  by (cases j) (auto simp: show_int_start, auto simp: plain_start_def json_quote_def lit_def)

lemma skip_ws_start: "plain_start s \<Longrightarrow> skip_ws s = s"
  by (cases s) (auto simp: plain_start_def skip_ws_def is_digit_def)

lemma skip_ws_space [simp]: "skip_ws (32 # s) = skip_ws s"
  by (simp add: skip_ws_def)

lemma skip_ws_other: "c \<notin> {32, 9, 10, 13} \<Longrightarrow> skip_ws (c # s) = c # s"
  by (simp add: skip_ws_def)

lemma num_end_other: "c \<notin> {46, 69, 101} \<Longrightarrow> \<not> is_digit c \<Longrightarrow> num_end (c # s)"
  by (simp add: num_end_def)

lemma json_quote_append: "json_quote s @ r = 34 # concat (map json_char s) @ 34 # r"
  by (simp add: json_quote_def)

lemma parse_scalar:
  assumes "json_plain j" "\<And>xs. j \<noteq> JArr xs" "\<And>kvs. j \<noteq> JObj kvs" "num_end r"
  shows "json_scalar (dumps sf j @ r) = Some (j, r) \<and> hd (dumps sf j @ r) \<notin> {91, 123}"
proof (cases j)
  case (JInt i)
  have "hd (show_int i @ r) \<notin> {91, 123}"
    using show_nat_digits [of "hd (show_nat (nat i))" "nat i"]
    by (auto simp: show_int_def hd_append)
  then show ?thesis using assms(4) JInt by (simp add: json_scalar_int)
next
  case (JStr s)
  then show ?thesis
    using assms(1) by (simp add: json_quote_append json_scalar_def json_string_quote)
qed (use assms in \<open>auto simp: json_scalar_def json_literal_def lit_def\<close>)

lemma parse_value_scalar:
  "json_scalar s = Some (j, r) \<Longrightarrow> hd s \<notin> {91, 123} \<Longrightarrow> 0 < n \<Longrightarrow> parse_value n s = Some (j, r)"
  by (cases n) auto

lemma dumps_length: "json_plain j \<Longrightarrow> 0 < length (dumps sf j)"
  using dumps_start [of j sf "[]"] by (auto simp: plain_start_def)

lemma parse_plain_scalar:
  assumes "json_plain j" "\<And>xs. j \<noteq> JArr xs" "\<And>kvs. j \<noteq> JObj kvs" "num_end r"
    "2 * length (dumps sf j) \<le> n"
  shows "parse_value n (dumps sf j @ r) = Some (j, r)"
proof -
  have "0 < n" using dumps_length [OF assms(1), of sf] assms(5) by linarith
  then show ?thesis using parse_scalar [OF assms(1-4), of sf] by (auto intro: parse_value_scalar)
qed

text \<open>The text of elements or fields up to and including the closing bracket.\<close>

abbreviation joined :: "nat \<Rightarrow> pstr list \<Rightarrow> pstr" where
  "joined close ts \<equiv> py_join [44, 32] ts @ [close]"

lemma parse_dumps:
  "json_plain j \<Longrightarrow> 2 * length (dumps sf j) \<le> n \<Longrightarrow> num_end r \<Longrightarrow>
     parse_value n (dumps sf j @ r) = Some (j, r)"
  and "plain_elems xs \<Longrightarrow> xs \<noteq> [] \<Longrightarrow> 2 * length (joined 93 (dumps_elems sf xs)) \<le> n \<Longrightarrow>
     parse_elems n (joined 93 (dumps_elems sf xs) @ r) = Some (xs, r)"
  and "plain_fields kvs \<Longrightarrow> kvs \<noteq> [] \<Longrightarrow> 2 * length (joined 125 (dumps_fields sf kvs)) \<le> n \<Longrightarrow>
     parse_fields n (joined 125 (dumps_fields sf kvs) @ r) = Some (kvs, r)"
proof (induction sf j and sf xs and sf kvs arbitrary: n r and n r and n r
    rule: dumps_dumps_elems_dumps_fields.induct)
  case (6 sf xs)
  then obtain m where n: "n = Suc m" by (cases n) auto
  show ?case
  proof (cases xs)
    case Nil
    then show ?thesis by (simp add: n skip_ws_other Let_def)
  next
    case (Cons x xs')
    have "plain_start (joined 93 (dumps_elems sf xs) @ r)"
      using 6(2) Cons dumps_start [of x sf]
      by (cases "dumps_elems sf xs'") (simp_all add: plain_start_def)
    then have "skip_ws (joined 93 (dumps_elems sf xs) @ r) = joined 93 (dumps_elems sf xs) @ r"
      and "hd (joined 93 (dumps_elems sf xs) @ r) \<noteq> 93"
      using skip_ws_start by (auto simp: plain_start_def is_digit_def)
    with 6 Cons n show ?thesis by (simp add: Let_def)
  qed
next
  case (7 sf kvs)
  then obtain m where n: "n = Suc m" by (cases n) auto
  show ?case
  proof (cases kvs)
    case Nil
    then show ?thesis by (simp add: n skip_ws_other Let_def)
  next
    case (Cons kv kvs')
    obtain k v where kv: "kv = (k, v)" by fastforce
    have "hd (joined 125 (dumps_fields sf kvs) @ r) = 34"
      by (cases "dumps_fields sf kvs'") (simp_all add: Cons kv json_quote_def)
    then have "plain_start (joined 125 (dumps_fields sf kvs) @ r)" by (simp add: plain_start_def)
    from skip_ws_start [OF this] 7 Cons n
      \<open>hd (joined 125 (dumps_fields sf kvs) @ r) = 34\<close>
    show ?thesis by (simp add: Let_def as_dict_distinct)
  qed
next
  case (9 sf x xs)
  then obtain m where n: "n = Suc m" by (cases n) auto
  show ?case
  proof (cases xs)
    case Nil
    with 9 n show ?thesis by (simp add: num_end_other is_digit_def skip_ws_other)
  next
    case (Cons y ys)
    have j: "joined 93 (dumps_elems sf (x # xs)) = dumps sf x @ 44 # 32 # joined 93 (dumps_elems sf xs)"
      by (simp add: Cons)
    have "plain_start (joined 93 (dumps_elems sf xs) @ r)"
      using 9(3) Cons dumps_start [of y sf]
      by (cases "dumps_elems sf ys") (simp_all add: plain_start_def)
    from skip_ws_start [OF this] 9 Cons n j show ?thesis
      by (simp add: num_end_other is_digit_def skip_ws_other)
  qed
next
  case (11 sf k v kvs)
  then obtain m where n: "n = Suc m" by (cases n) auto
  have v: "skip_ws (dumps sf v @ t) = dumps sf v @ t" for t
    using 11(3) dumps_start skip_ws_start by (metis plain_fields.simps(2))
  show ?case
  proof (cases kvs)
    case Nil
    with 11 n v show ?thesis
      by (simp add: json_quote_append json_string_quote num_end_other is_digit_def skip_ws_other)
  next
    case (Cons kv ys)
    obtain k' v' where kv: "kv = (k', v')" by fastforce
    have j: "joined 125 (dumps_fields sf ((k, v) # kvs)) =
        json_quote k @ 58 # 32 # dumps sf v @ 44 # 32 # joined 125 (dumps_fields sf kvs)"
      by (simp add: Cons kv)
    have "hd (joined 125 (dumps_fields sf kvs) @ r) = 34"
      by (cases "dumps_fields sf ys") (simp_all add: Cons kv json_quote_def)
    then have "plain_start (joined 125 (dumps_fields sf kvs) @ r)" by (simp add: plain_start_def)
    from skip_ws_start [OF this] 11 Cons n j v show ?thesis
      by (simp add: json_quote_append json_string_quote num_end_other is_digit_def skip_ws_other)
  qed
next
  case (1 sf)
  then show ?case by (intro parse_plain_scalar) auto
next
  case (2 sf b)
  then show ?case by (intro parse_plain_scalar) auto
next
  case (3 sf i)
  then show ?case by (intro parse_plain_scalar) auto
next
  case (5 sf s)
  then show ?case by (intro parse_plain_scalar) auto
qed simp_all

lemma loads_dumps: "json_plain j \<Longrightarrow> loads (dumps sf j) = Some j"
  using parse_dumps(1) [of j sf "2 * length (dumps sf j) + 1" "[]"] dumps_start [of j sf "[]"]
  by (simp add: loads_def skip_ws_start num_end_def) (simp add: skip_ws_def)

section \<open>The fuel is enough\<close>

text \<open>Every parser returns a shorter text than it was given.\<close>

lemma json_units_shorter: "json_units s = Some (us, r) \<Longrightarrow> length r < length s"
proof (induction s arbitrary: us r rule: json_units.induct)
  case (2 c cs)
  then show ?case
    by (auto split: if_splits list.splits option.splits simp: apfst_def map_prod_def)
      fastforce+
qed simp

lemma json_string_shorter: "json_string s = Some (t, r) \<Longrightarrow> length r < length s"
  by (auto simp: json_string_def dest: json_units_shorter)

lemma json_literal_shorter:
  "json_literal word v s = Some (x, r) \<Longrightarrow> word \<noteq> [] \<Longrightarrow> s \<noteq> [] \<Longrightarrow> length r < length s"
  by (auto simp: json_literal_def split: if_splits)

lemma int_digits_Nil [simp]: "int_digits [] = []"
  by (simp add: int_digits_def)

lemma json_number_shorter: "json_number s = Some (x, r) \<Longrightarrow> length r < length s"
proof -
  assume s: "json_number s = Some (x, r)"
  define s1 where "s1 = (if s \<noteq> [] \<and> hd s = 45 then tl s else s)"
  have "int_digits s1 \<noteq> []" "length r \<le> length s1 - length (int_digits s1)"
    using s by (auto simp: json_number_def Let_def s1_def [symmetric] split: if_splits)
  moreover from this have "s1 \<noteq> []" by auto
  moreover have "length s1 \<le> length s" by (simp add: s1_def)
  ultimately show ?thesis
    by (meson diff_less le_trans length_greater_0_conv linorder_not_le order_less_le_trans)
qed

lemma json_scalar_shorter: "json_scalar s = Some (x, r) \<Longrightarrow> length r < length s"
proof -
  assume s: "json_scalar s = Some (x, r)"
  then have ne: "s \<noteq> []" by (auto simp: json_scalar_def)
  from s have "(\<exists>t. json_string (tl s) = Some (t, r)) \<or>
      (\<exists>w v. w \<noteq> [] \<and> json_literal w v s = Some (x, r)) \<or> json_number s = Some (x, r)"
    unfolding json_scalar_def by (auto split: if_splits simp: lit_def)
  then show ?thesis
    using ne json_string_shorter [of "tl s"] json_literal_shorter json_number_shorter by fastforce
qed

lemma skip_ws_length: "length (skip_ws s) \<le> length s"
  by (simp add: skip_ws_def length_dropWhile_le)

lemma parse_shorter:
  "parse_value n s = Some (v, r) \<Longrightarrow> length r < length s"
  "parse_elems n s = Some (vs, r) \<Longrightarrow> length r < length s"
  "parse_fields n s = Some (kvs, r) \<Longrightarrow> length r < length s"
proof (induction n s and n s and n s arbitrary: v r and vs r and kvs r
    rule: parse_value_parse_elems_parse_fields.induct)
  case (2 n s)
  show ?case
  proof (cases "s \<noteq> [] \<and> hd s \<in> {91, 123}")
    case True
    have "length (skip_ws (tl s)) < length s"
      using skip_ws_length [of "tl s"] True by (cases s) auto
    then show ?thesis using 2 True
      by (auto simp: Let_def split: if_splits) fastforce+
  next
    case False
    then show ?thesis using 2(3) json_scalar_shorter by (auto split: if_splits)
  qed
next
  case (4 n s)
  then obtain v1 r1 where v1: "parse_value n s = Some (v1, r1)" by (auto split: option.splits)
  then have l1: "length r1 < length s" using 4(1) by blast
  obtain c r' where c: "skip_ws r1 = c # r'" using 4(3) v1 by (auto split: list.splits)
  have l2: "length r' < length s" using skip_ws_length [of r1] c l1 by simp
  show ?case
  proof (cases "c = 93")
    case True
    then show ?thesis using 4(3) v1 c l2 by simp
  next
    case False
    then obtain vs' where "parse_elems n (skip_ws r') = Some (vs', r)"
      using 4(3) v1 c by (auto split: if_splits)
    then have "length r < length (skip_ws r')" using 4(2) v1 c False 4(3) by (auto split: if_splits)
    then show ?thesis using skip_ws_length [of r'] l2 by simp
  qed
next
  case (6 n s)
  then obtain k r1 where k: "s \<noteq> []" "hd s = 34" "json_string (tl s) = Some (k, r1)"
    by (auto split: option.splits if_splits)
  obtain r2 where r2: "skip_ws r1 = 58 # r2"
    using 6(3) k by (auto split: list.splits if_splits)
  obtain v1 r3 where v1: "parse_value n (skip_ws r2) = Some (v1, r3)"
    using 6(3) k r2 by (auto split: option.splits)
  obtain c r' where c: "skip_ws r3 = c # r'" using 6(3) k r2 v1 by (auto split: list.splits)
  have "length r3 < length (skip_ws r2)" using 6(1) k r2 v1 by auto
  then have l: "length r' < length s"
    using json_string_shorter [OF k(3)] skip_ws_length [of r1] skip_ws_length [of r2]
      skip_ws_length [of r3] r2 c by simp
  show ?case
  proof (cases "c = 125")
    case True
    then show ?thesis using 6(3) k r2 v1 c l by simp
  next
    case False
    then obtain kvs' where "parse_fields n (skip_ws r') = Some (kvs', r)"
      using 6(3) k r2 v1 c by (auto split: if_splits)
    then have "length r < length (skip_ws r')" using 6(2,3) k r2 v1 c False by (auto split: if_splits)
    then show ?thesis using skip_ws_length [of r'] l by simp
  qed
qed simp_all

lemma parse_elems_fuel:
  assumes "\<And>t. 2 * length t + 1 \<le> n \<Longrightarrow> parse_value (Suc n) t = parse_value n t"
    and "\<And>t. 2 * length t + 2 \<le> n \<Longrightarrow> parse_elems (Suc n) t = parse_elems n t"
    and "2 * length s + 2 \<le> Suc n"
  shows "parse_elems (Suc (Suc n)) s = parse_elems (Suc n) s"
proof -
  have "parse_elems (Suc n) (skip_ws r') = parse_elems n (skip_ws r')"
    if "parse_value n s = Some (v, r)" "skip_ws r = c # r'" for v r c r'
    using parse_shorter(1) [OF that(1)] skip_ws_length [of r] skip_ws_length [of r'] that(2) assms(3)
    by (intro assms(2)) simp
  moreover have "parse_value (Suc n) s = parse_value n s" using assms(3) by (intro assms(1)) simp
  ultimately show ?thesis
    by (subst (1 2) parse_elems.simps) (auto split: option.splits list.splits)
qed

lemma parse_fields_fuel:
  assumes "\<And>t. 2 * length t + 1 \<le> n \<Longrightarrow> parse_value (Suc n) t = parse_value n t"
    and "\<And>t. 2 * length t + 2 \<le> n \<Longrightarrow> parse_fields (Suc n) t = parse_fields n t"
    and "2 * length s + 2 \<le> Suc n"
  shows "parse_fields (Suc (Suc n)) s = parse_fields (Suc n) s"
proof -
  have v: "parse_value (Suc n) (skip_ws r2) = parse_value n (skip_ws r2)"
    if "json_string (tl s) = Some (k, r1)" "skip_ws r1 = c1 # r2" for k r1 c1 r2
    using json_string_shorter [OF that(1)] skip_ws_length [of r1] skip_ws_length [of r2] that(2) assms(3)
    by (intro assms(1)) simp
  have "parse_fields (Suc n) (skip_ws r') = parse_fields n (skip_ws r')"
    if "json_string (tl s) = Some (k, r1)" "skip_ws r1 = c1 # r2"
      "parse_value n (skip_ws r2) = Some (x, r3)" "skip_ws r3 = c # r'" for k r1 c1 r2 x r3 c r'
    using json_string_shorter [OF that(1)] parse_shorter(1) [OF that(3)] skip_ws_length [of r1]
      skip_ws_length [of r2] skip_ws_length [of r3] skip_ws_length [of r'] that(2,4) assms(3)
    by (intro assms(2)) simp
  with v show ?thesis
    by (subst (1 2) parse_fields.simps) (auto split: option.splits list.splits)
qed

lemma parse_fuel_step:
  "(2 * length s + 1 \<le> n \<longrightarrow> parse_value (Suc n) s = parse_value n s) \<and>
   (2 * length s + 2 \<le> n \<longrightarrow> parse_elems (Suc n) s = parse_elems n s) \<and>
   (2 * length s + 2 \<le> n \<longrightarrow> parse_fields (Suc n) s = parse_fields n s)"
proof (induction n arbitrary: s)
  case (Suc n)
  have "parse_value (Suc (Suc n)) s = parse_value (Suc n) s" if "2 * length s + 1 \<le> Suc n"
  proof (cases "s \<noteq> [] \<and> hd s \<in> {91, 123}")
    case True
    then have "2 * length (skip_ws (tl s)) + 2 \<le> n"
      using skip_ws_length [of "tl s"] that by (cases s) auto
    with Suc.IH have "parse_elems (Suc n) (skip_ws (tl s)) = parse_elems n (skip_ws (tl s))"
      "parse_fields (Suc n) (skip_ws (tl s)) = parse_fields n (skip_ws (tl s))" by blast+
    then show ?thesis by (simp only: parse_value.simps Let_def)
  next
    case False
    then show ?thesis by (auto simp: parse_value.simps)
  qed
  moreover have "parse_elems (Suc (Suc n)) s = parse_elems (Suc n) s" if "2 * length s + 2 \<le> Suc n"
    using parse_elems_fuel [OF _ _ that] Suc.IH by blast
  moreover have "parse_fields (Suc (Suc n)) s = parse_fields (Suc n) s" if "2 * length s + 2 \<le> Suc n"
    using parse_fields_fuel [OF _ _ that] Suc.IH by blast
  ultimately show ?case by blast
qed simp

lemma parse_value_fuel:
  "2 * length s + 1 \<le> n \<Longrightarrow> parse_value (n + k) s = parse_value n s"
  by (induction k) (simp_all add: parse_fuel_step del: parse_value.simps)

section \<open>The output is ASCII\<close>

definition ascii_text :: "pstr \<Rightarrow> bool" where
  "ascii_text s \<longleftrightarrow> list_all (\<lambda>c. c < 128) s"

lemma ascii_text_simps [simp]: "ascii_text []" "ascii_text (c # s) \<longleftrightarrow> c < 128 \<and> ascii_text s"
  "ascii_text (s @ t) \<longleftrightarrow> ascii_text s \<and> ascii_text t"
  by (simp_all add: ascii_text_def)

lemma ascii_utf8_text: "ascii_text s \<Longrightarrow> utf8_text s"
  by (induction s) (auto simp: scalar_def is_surrogate_def)

lemma hex4_ascii: "u < 65536 \<Longrightarrow> ascii_text (hex4 u)"
  using less_mult_imp_div_less [of u 16 4096]
    mod_less_divisor [of 16 "u div 256"] mod_less_divisor [of 16 "u div 16"] mod_less_divisor [of 16 u]
  by (auto simp: hex4_def hex_digit_def)

lemma json_char_ascii: "c < 1114112 \<Longrightarrow> ascii_text (json_char c)"
proof -
  assume c: "c < 1114112"
  have "55296 + (c - 65536) div 1024 < 65536" using c by linarith
  moreover have "56320 + (c - 65536) mod 1024 < 65536"
    using mod_less_divisor [of 1024 "c - 65536"] by linarith
  ultimately show ?thesis by (auto simp: json_char_def u_escape_def hex4_ascii)
qed

lemma json_quote_ascii: "utf8_text s \<Longrightarrow> ascii_text (json_quote s)"
proof -
  assume "utf8_text s"
  then have "ascii_text (concat (map json_char s))"
    by (induction s) (simp_all add: json_char_ascii scalar_def)
  then show ?thesis by (simp add: json_quote_def)
qed

lemma show_int_ascii: "ascii_text (show_int i)"
  using show_nat_digits by (fastforce simp: show_int_def ascii_text_def list_all_iff)

lemma py_join_ascii: "list_all ascii_text ls \<Longrightarrow> ascii_text sep \<Longrightarrow> ascii_text (py_join sep ls)"
  by (induction sep ls rule: py_join.induct) simp_all

lemma dumps_ascii:
  "json_plain j \<Longrightarrow> ascii_text (dumps sf j)"
  "plain_elems xs \<Longrightarrow> list_all ascii_text (dumps_elems sf xs)"
  "plain_fields kvs \<Longrightarrow> list_all ascii_text (dumps_fields sf kvs)"
  by (induction sf j and sf xs and sf kvs rule: dumps_dumps_elems_dumps_fields.induct)
    (simp_all add: json_quote_ascii show_int_ascii py_join_ascii, simp_all add: lit_def)

lemma dumps_text: "json_plain j \<Longrightarrow> utf8_text (dumps sf j)"
  by (rule ascii_utf8_text [OF dumps_ascii(1)])

end
