(* ===== verification/Process_Stream.thy ===== *)
theory Process_Stream
  imports Process_Sandbox Py_Json
begin

text \<open>
  Streaming execution in the subprocess driver (\<open>ProcessSandbox.stream_execute\<close>).  The
  compilation part and the epilogue are functions that return the chunks they yield.  The
  concurrent part, two pumps that fill a queue and the main loop that drains it, is the
  state machine \<open>stream_step\<close>: an event says which of them moves, and what the pipe gave.
  A run is a list of events, so every interleaving is one.
\<close>

section \<open>The concurrent part\<close>

record stream_state =
  ss_consumer :: stream_consumer
  ss_queue :: "stream_chunk option list"
  ss_pumps_done :: nat
  ss_out_live :: bool
  ss_err_live :: bool
  ss_killed :: bool
  ss_yielded :: "stream_chunk list"
  ss_timed_out :: bool
  ss_main_done :: bool

definition stream_start :: "int \<Rightarrow> stream_state" where
  "stream_start max_bytes =
     \<lparr>ss_consumer = new_consumer max_bytes, ss_queue = [], ss_pumps_done = 0,
      ss_out_live = True, ss_err_live = True, ss_killed = False, ss_yielded = [],
      ss_timed_out = False, ss_main_done = False\<rparr>"

text \<open>
  \<open>Pipe e b\<close>: the pump of standard error (\<open>e\<close>) or standard output reads the bytes \<open>b\<close>.
  \<open>Pipe_End e\<close>: its read returns nothing or raises.  \<open>Deliver\<close>: the main loop takes the next
  item of the queue.  \<open>Deadline\<close>: its wait on the empty queue times out.
\<close>

datatype stream_event = Pipe bool bytes | Pipe_End bool | Deliver | Deadline

definition pump_live :: "bool \<Rightarrow> stream_state \<Rightarrow> bool" where
  "pump_live is_stderr s = (if is_stderr then ss_err_live s else ss_out_live s)"

text \<open>The \<open>finally\<close> of a pump: the second one to finish posts the sentinel.\<close>

definition pump_finish :: "bool \<Rightarrow> stream_state \<Rightarrow> stream_state" where
  "pump_finish is_stderr s =
     (let n = Suc (ss_pumps_done s);
          s1 = (if is_stderr then s\<lparr>ss_err_live := False\<rparr> else s\<lparr>ss_out_live := False\<rparr>)
      in s1\<lparr>ss_pumps_done := n,
            ss_queue := (if n \<ge> 2 then ss_queue s @ [None] else ss_queue s)\<rparr>)"

text \<open>One turn of a pump's loop with data.\<close>

definition pump_read :: "bool \<Rightarrow> bytes \<Rightarrow> stream_state \<Rightarrow> stream_state" where
  "pump_read is_stderr data s =
     (let text_chunk = decode_utf8 data;
          (chunk_obj, c) =
            (if is_stderr then consume_stderr text_chunk (ss_consumer s)
             else consume_stdout text_chunk (ss_consumer s));
          s1 = s\<lparr>ss_consumer := c,
                 ss_queue := (case chunk_obj of Some x \<Rightarrow> ss_queue s @ [Some x] | None \<Rightarrow> ss_queue s)\<rparr>
      in if sc_limit_exceeded c then pump_finish is_stderr (s1\<lparr>ss_killed := True\<rparr>) else s1)"

definition timeout_notice :: "(pyfloat \<Rightarrow> pstr) \<Rightarrow> pyfloat \<Rightarrow> pstr" where
  "timeout_notice sf t =
     10 # lit ''[SYSTEM: Execution exceeded wall-clock timeout of '' @ sf t @ lit ''s.]''"

text \<open>\<open>None\<close>: the event is not possible in the state.\<close>

fun stream_step ::
  "(pyfloat \<Rightarrow> pstr) \<Rightarrow> pyfloat \<Rightarrow> stream_event \<Rightarrow> stream_state \<Rightarrow> stream_state option" where
  "stream_step sf timeout (Pipe e data) s =
     (if pump_live e s \<and> data \<noteq> [] then Some (pump_read e data s) else None)"
| "stream_step sf timeout (Pipe_End e) s =
     (if pump_live e s then Some (pump_finish e s) else None)"
| "stream_step sf timeout Deliver s =
     (if ss_main_done s then None
      else case ss_queue s of
        [] \<Rightarrow> None
      | None # rest \<Rightarrow> Some (s\<lparr>ss_queue := rest, ss_main_done := True\<rparr>)
      | Some item # rest \<Rightarrow> Some (s\<lparr>ss_queue := rest, ss_yielded := ss_yielded s @ [item]\<rparr>))"
| "stream_step sf timeout Deadline s =
     (if ss_main_done s \<or> ss_queue s \<noteq> [] then None
      else Some (s\<lparr>ss_timed_out := True, ss_killed := True, ss_main_done := True,
                   ss_yielded := ss_yielded s @ [chunk ERROR (timeout_notice sf timeout)]\<rparr>))"

fun stream_run ::
  "(pyfloat \<Rightarrow> pstr) \<Rightarrow> pyfloat \<Rightarrow> stream_event list \<Rightarrow> stream_state \<Rightarrow> stream_state option" where
  "stream_run sf timeout [] s = Some s"
| "stream_run sf timeout (ev # evs) s =
     (case stream_step sf timeout ev s of None \<Rightarrow> None | Some s' \<Rightarrow> stream_run sf timeout evs s')"

section \<open>Before and after\<close>

record 'w stream_host = "'w host" +
  sh_feed_stdin :: "'w \<Rightarrow> bytes \<Rightarrow> py_exn option \<times> 'w"
  sh_wait :: "'w \<Rightarrow> int option \<times> 'w"

definition status_payload ::
  "execution_status \<Rightarrow> int option \<Rightarrow> int \<Rightarrow> (pstr \<times> json) list" where
  "status_payload st exit_code duration_ms =
     [(lit ''status'', JStr (status_value st)),
      (lit ''exit_code'', case exit_code of None \<Rightarrow> JNull | Some k \<Rightarrow> JInt k),
      (lit ''duration_ms'', JInt duration_ms),
      (lit ''oom_killed'', JBool False)]"

definition complete_chunk :: "(pyfloat \<Rightarrow> pstr) \<Rightarrow> (pstr \<times> json) list \<Rightarrow> stream_chunk" where
  "complete_chunk sf payload = chunk COMPLETE (dumps sf (JObj payload))"

text \<open>The chunks of a failed compilation.\<close>

definition compile_failure :: "(pyfloat \<Rightarrow> pstr) \<Rightarrow> pstr \<Rightarrow> int \<Rightarrow> int \<Rightarrow> stream_chunk list" where
  "compile_failure sf text code ms =
     [chunk ERROR text,
      complete_chunk sf (status_payload ES_COMPILE_ERROR (Some code) ms @
        [(lit ''compile_output'', JStr text)])]"

text \<open>How the first part ends: the generator returns, goes on with a target, or raises.\<close>

datatype start_outcome = Returned | Ready pstr | Failed py_exn

definition stream_compile ::
  "(pyfloat \<Rightarrow> pstr) \<Rightarrow> 'w stream_host \<Rightarrow> language_strategy \<Rightarrow> pstr \<Rightarrow> pstr \<Rightarrow> 'w
     \<Rightarrow> stream_chunk list \<times> start_outcome \<times> 'w" where
  "stream_compile sf ho strategy source_file binary_file w =
     (let begin_chunk = chunk STATUS (lit ''Compiling '' @ ls_display_name strategy @ lit '' source code...'');
          compile_cmd = adapt_compile_command (host.truncate ho) (ls_compile_command strategy source_file binary_file)
      in case ho_compile ho w compile_cmd of
           (Compile_Exit code out err, w') \<Rightarrow>
             if code \<noteq> 0 then
               (begin_chunk # compile_failure sf (compiler_text out err) code (ho_elapsed_ms ho w'),
                Returned, w')
             else
               ([begin_chunk,
                 chunk STATUS (lit ''Compilation successful. Initializing execution sandbox...'')],
                Ready binary_file, w')
         | (Compiler_Not_Found fnf, w') \<Rightarrow>
             (begin_chunk #
              compile_failure sf
                (lit ''Compiler '' @ 39 # hd compile_cmd @ 39 # lit '' not installed on host: '' @ fnf @ [10])
                127 0, Returned, w')
         | (Compile_Timeout, w') \<Rightarrow>
             (begin_chunk #
              compile_failure sf (lit ''[SYSTEM: Compilation timed out after 10.0s]'' @ [10]) (- 9) 10000,
              Returned, w')
         | (Compile_Raised exc, w') \<Rightarrow> ([begin_chunk], Failed exc, w'))"

definition stream_prepare ::
  "(pyfloat \<Rightarrow> pstr) \<Rightarrow> 'w stream_host \<Rightarrow> language_strategy \<Rightarrow> execution_request \<Rightarrow> pstr \<Rightarrow> 'w
     \<Rightarrow> stream_chunk list \<times> start_outcome \<times> 'w" where
  "stream_prepare sf ho strategy rq temp_dir w =
     (let source_file = path_join (host.truncate ho) temp_dir (lit ''solution'' @ ls_file_extension strategy);
          binary_file = path_join (host.truncate ho) temp_dir (binary_name (host.truncate ho))
      in case encode_utf8 (rq_source_code rq) of
           Inl exc \<Rightarrow> ([], Failed exc, w)
         | Inr source \<Rightarrow>
             (case ho_write_file ho w source_file source of
                (Some exc, w1) \<Rightarrow> ([], Failed exc, w1)
              | (None, w1) \<Rightarrow>
                  if ls_is_compiled strategy then stream_compile sf ho strategy source_file binary_file w1
                  else
                    ([chunk STATUS (lit ''Initializing '' @ ls_display_name strategy @
                        lit '' execution runtime...'')], Ready source_file, w1)))"

text \<open>Spawning the program and writing the batch input.\<close>

definition stream_spawn ::
  "'w stream_host \<Rightarrow> execution_request \<Rightarrow> pstr list \<Rightarrow> 'w \<Rightarrow> py_exn option \<times> 'w" where
  "stream_spawn ho rq cmd w =
     (case ho_spawn ho w cmd True of
        (Some exc, w1) \<Rightarrow> (Some exc, w1)
      | (None, w1) \<Rightarrow>
          if opt_truthy (rq_stdin_data rq) then
            (case encode_utf8 (the (rq_stdin_data rq)) of
               Inl exc \<Rightarrow> (Some exc, w1)
             | Inr data \<Rightarrow> sh_feed_stdin ho w1 data)
          else (None, w1))"

text \<open>The final classification; the exit code is missing when the process could not be reaped.\<close>

definition final_status :: "stream_state \<Rightarrow> int option \<Rightarrow> execution_status" where
  "final_status s exit_code =
     (if ss_timed_out s then ES_TIME_LIMIT_EXCEEDED
      else if sc_limit_exceeded (ss_consumer s) then ES_OUTPUT_LIMIT_EXCEEDED
      else if exit_code = Some 0 then ES_COMPLETED
      else ES_RUNTIME_ERROR)"

definition final_exit :: "stream_state \<Rightarrow> int option \<Rightarrow> int option" where
  "final_exit s returncode = (if ss_timed_out s then Some (- 9) else returncode)"

definition stream_failure :: "(pyfloat \<Rightarrow> pstr) \<Rightarrow> py_exn \<Rightarrow> stream_chunk list" where
  "stream_failure sf exc =
     [chunk ERROR (10 # lit ''[SYSTEM: Fatal execution failure: '' @ exn_str exc @ lit '']''),
      complete_chunk sf (status_payload ES_SYSTEM_ERROR None 0)]"

text \<open>
  The chunks the generator yields when the scheduler and the pipes behave as \<open>evs\<close>; \<open>None\<close>
  when \<open>evs\<close> is not a complete run of the concurrent part.
\<close>

definition process_stream ::
  "(pyfloat \<Rightarrow> pstr) \<Rightarrow> 'w stream_host \<Rightarrow> registry \<Rightarrow> stream_event list \<Rightarrow> execution_request \<Rightarrow> 'w
     \<Rightarrow> ((py_exn + stream_chunk list) \<times> 'w) option" where
  "process_stream sf ho reg evs rq w =
     (case fst (get_strategy (ho_python ho) (rq_language rq) reg) of
        Inl exc \<Rightarrow> Some (Inl exc, w)
      | Inr strategy \<Rightarrow>
          (case ho_make_temp ho w of
             (Inl exc, w1) \<Rightarrow> Some (Inl exc, w1)
           | (Inr temp_dir, w1) \<Rightarrow>
               (case stream_prepare sf ho strategy rq temp_dir w1 of
                  (pre, Returned, w2) \<Rightarrow> Some (Inr pre, ho_cleanup ho w2)
                | (pre, Failed exc, w2) \<Rightarrow> Some (Inr (pre @ stream_failure sf exc), ho_cleanup ho w2)
                | (pre, Ready target, w2) \<Rightarrow>
                    (case stream_spawn ho rq (ls_execution_command strategy target) w2 of
                       (Some exc, w3) \<Rightarrow> Some (Inr (pre @ stream_failure sf exc), ho_cleanup ho w3)
                     | (None, w3) \<Rightarrow>
                         (case stream_run sf (rq_timeout_seconds rq) evs
                                 (stream_start (rq_max_output_bytes rq)) of
                            None \<Rightarrow> None
                          | Some s \<Rightarrow>
                              if \<not> ss_main_done s then None
                              else
                                (case sh_wait ho (if ss_killed s then ho_kill ho w3 else w3) of
                                   (returncode, w4) \<Rightarrow>
                                     Some (Inr (pre @ ss_yielded s @
                                       [complete_chunk sf
                                          (status_payload (final_status s (final_exit s returncode))
                                             (final_exit s returncode) (ho_elapsed_ms ho w4))]),
                                       ho_cleanup ho w4)))))))"

section \<open>The shape of the queue\<close>

text \<open>Both pumps have finished.\<close>

definition pumps_closed :: "stream_state \<Rightarrow> bool" where
  "pumps_closed s \<longleftrightarrow> \<not> ss_out_live s \<and> \<not> ss_err_live s"

text \<open>
  The sentinel is in the queue, behind every chunk, exactly from the moment both pumps have
  finished until the main loop takes it.
\<close>

definition stream_inv :: "stream_state \<Rightarrow> bool" where
  "stream_inv s \<longleftrightarrow>
     ss_pumps_done s = of_bool (\<not> ss_out_live s) + of_bool (\<not> ss_err_live s) \<and>
     (ss_timed_out s \<longrightarrow> ss_main_done s) \<and>
     (\<exists>xs. ss_queue s = map Some xs @
        (if pumps_closed s \<and> (\<not> ss_main_done s \<or> ss_timed_out s) then [None] else []) \<and>
        (ss_main_done s \<and> \<not> ss_timed_out s \<longrightarrow> pumps_closed s \<and> xs = []))"

lemma stream_inv_start [simp]: "stream_inv (stream_start m)"
  by (simp add: stream_inv_def stream_start_def pumps_closed_def)

lemma append_Some: "map Some xs @ [Some x] = map Some (xs @ [x])"
  by simp

lemma pump_finish_inv:
  assumes "stream_inv s" "pump_live e s"
  shows "stream_inv (pump_finish e s)"
proof -
  obtain xs where xs: "ss_queue s = map Some xs" "\<not> (ss_main_done s \<and> \<not> ss_timed_out s)"
    using assms by (auto simp: stream_inv_def pump_live_def pumps_closed_def split: if_splits)
  have n: "ss_pumps_done s = of_bool (\<not> ss_out_live s) + of_bool (\<not> ss_err_live s)"
    "ss_timed_out s \<longrightarrow> ss_main_done s"
    using assms(1) by (simp_all add: stream_inv_def)
  show ?thesis
    using assms(2) xs n
    by (cases e; cases "ss_out_live s"; cases "ss_err_live s")
      (auto simp: stream_inv_def pump_finish_def pump_live_def pumps_closed_def Let_def)
qed

lemma enqueue_inv:
  assumes "stream_inv s" "pump_live e s"
  shows "stream_inv (s\<lparr>ss_consumer := c, ss_queue := ss_queue s @ map Some ys\<rparr>)"
    and "stream_inv (s\<lparr>ss_consumer := c, ss_queue := ss_queue s @ map Some ys, ss_killed := k\<rparr>)"
proof -
  obtain xs where xs: "ss_queue s = map Some xs" "\<not> (ss_main_done s \<and> \<not> ss_timed_out s)"
    and open_pump: "\<not> pumps_closed s"
    using assms by (auto simp: stream_inv_def pump_live_def pumps_closed_def split: if_splits)
  have q: "ss_queue s @ map Some ys = map Some (xs @ ys)" using xs by simp
  show "stream_inv (s\<lparr>ss_consumer := c, ss_queue := ss_queue s @ map Some ys\<rparr>)"
    "stream_inv (s\<lparr>ss_consumer := c, ss_queue := ss_queue s @ map Some ys, ss_killed := k\<rparr>)"
    unfolding q using assms(1) xs(2) open_pump
    by (auto simp: stream_inv_def pumps_closed_def simp del: map_append)
qed

text \<open>What a pump reads, as a feed of the consumer, and a pump's turn in those terms.\<close>

definition feed_of :: "bool \<Rightarrow> bytes \<Rightarrow> feed" where
  "feed_of e data = (if e then Err (decode_utf8 data) else Out (decode_utf8 data))"

lemma pump_read_feed:
  "pump_read e data s =
     (let r = consume (feed_of e data) (ss_consumer s);
          s1 = s\<lparr>ss_consumer := snd r,
                 ss_queue := ss_queue s @ map Some (case fst r of None \<Rightarrow> [] | Some x \<Rightarrow> [x])\<rparr>
      in if sc_limit_exceeded (snd r) then pump_finish e (s1\<lparr>ss_killed := True\<rparr>) else s1)"
  by (cases e) (simp_all add: pump_read_def feed_of_def Let_def split: prod.split option.split)

lemma pump_live_other [simp]:
  "pump_live e (s\<lparr>ss_consumer := c, ss_queue := q, ss_killed := k\<rparr>) = pump_live e s"
  by (simp add: pump_live_def)

lemma pump_read_inv:
  assumes "stream_inv s" "pump_live e s"
  shows "stream_inv (pump_read e data s)"
  unfolding pump_read_feed Let_def
  using enqueue_inv [OF assms] pump_finish_inv [OF enqueue_inv(2) [OF assms], of e] assms(2)
  by (simp del: fst_conv snd_conv split del: option.split)

lemma stream_step_inv: "stream_step sf t ev s = Some s' \<Longrightarrow> stream_inv s \<Longrightarrow> stream_inv s'"
proof (cases ev)
  case Deliver
  assume s: "stream_step sf t ev s = Some s'" "stream_inv s"
  then obtain xs where xs: "\<not> ss_main_done s"
    "ss_queue s = map Some xs @ (if pumps_closed s then [None] else [])"
    by (auto simp: Deliver stream_inv_def split: if_splits)
  with s show ?thesis
    by (cases xs) (auto simp: Deliver stream_inv_def pumps_closed_def split: if_splits)
next
  case Deadline
  assume s: "stream_step sf t ev s = Some s'" "stream_inv s"
  then have "\<not> pumps_closed s" by (auto simp: Deadline stream_inv_def split: if_splits)
  with s show ?thesis by (auto simp: Deadline stream_inv_def pumps_closed_def split: if_splits)
qed (auto simp: pump_read_inv pump_finish_inv split: if_splits)

lemma stream_run_inv: "stream_run sf t evs s = Some s' \<Longrightarrow> stream_inv s \<Longrightarrow> stream_inv s'"
  by (induction evs arbitrary: s) (auto dest: stream_step_inv split: option.splits)

section \<open>What the main loop yields\<close>

text \<open>The chunks read from the pipes along a run.\<close>

fun feeds_of :: "stream_event list \<Rightarrow> feed list" where
  "feeds_of [] = []"
| "feeds_of (Pipe e data # evs) = feed_of e data # feeds_of evs"
| "feeds_of (_ # evs) = feeds_of evs"

lemma feeds_ok: "list_all feed_ok (feeds_of evs)"
  by (induction evs rule: feeds_of.induct) (auto simp: feed_of_def)

fun queued :: "stream_chunk option list \<Rightarrow> stream_chunk list" where
  "queued [] = []"
| "queued (None # q) = queued q"
| "queued (Some x # q) = x # queued q"

lemma queued_append [simp]: "queued (p @ q) = queued p @ queued q"
  by (induction p rule: queued.induct) auto

definition sent :: "stream_state \<Rightarrow> stream_chunk list" where
  "sent s = ss_yielded s @ queued (ss_queue s)"

lemma pump_finish_sent [simp]:
  "sent (pump_finish e s) = sent s" "ss_consumer (pump_finish e s) = ss_consumer s"
  "ss_timed_out (pump_finish e s) = ss_timed_out s"
  by (auto simp: sent_def pump_finish_def Let_def)

lemma queued_map_Some [simp]: "queued (map Some xs) = xs"
  by (induction xs) auto

lemma pump_read_sent:
  "sent (pump_read e data s) =
      sent s @ (case fst (consume (feed_of e data) (ss_consumer s)) of None \<Rightarrow> [] | Some x \<Rightarrow> [x]) \<and>
    ss_consumer (pump_read e data s) = snd (consume (feed_of e data) (ss_consumer s)) \<and>
    ss_timed_out (pump_read e data s) = ss_timed_out s"
  by (simp add: pump_read_feed Let_def) (simp add: sent_def)

lemma stream_step_timed_out: "stream_step sf t ev s = Some s' \<Longrightarrow> ss_timed_out s \<Longrightarrow> ss_timed_out s'"
  by (cases ev) (auto simp: pump_read_sent split: if_splits list.splits option.splits)

lemma stream_run_timed_out: "stream_run sf t evs s = Some s' \<Longrightarrow> ss_timed_out s \<Longrightarrow> ss_timed_out s'"
  by (induction evs arbitrary: s) (auto dest: stream_step_timed_out split: option.splits)

lemma deliver_sent:
  "stream_step sf t Deliver s = Some s' \<Longrightarrow> sent s' = sent s \<and> ss_consumer s' = ss_consumer s"
  by (auto simp: sent_def split: if_splits list.splits option.splits)

lemma stream_run_sent:
  "stream_run sf t evs s = Some s' \<Longrightarrow> \<not> ss_timed_out s' \<Longrightarrow>
   sent s' = sent s @ fst (run_sink consume (feeds_of evs) (ss_consumer s)) \<and>
   ss_consumer s' = snd (run_sink consume (feeds_of evs) (ss_consumer s))"
proof (induction evs arbitrary: s)
  case (Cons ev evs)
  then obtain s1 where s1: "stream_step sf t ev s = Some s1" "stream_run sf t evs s1 = Some s'"
    by (auto split: option.splits)
  note IH = Cons.IH [OF s1(2) Cons.prems(2)]
  show ?case
  proof (cases ev)
    case (Pipe e data)
    then have "s1 = pump_read e data s" using s1(1) by (auto split: if_splits)
    then have "sent s1 = sent s @
        (case fst (consume (feed_of e data) (ss_consumer s)) of None \<Rightarrow> [] | Some x \<Rightarrow> [x])"
      and "ss_consumer s1 = snd (consume (feed_of e data) (ss_consumer s))"
      using pump_read_sent [of e data s] by simp_all
    with IH show ?thesis by (simp add: Pipe Let_def)
  next
    case (Pipe_End e)
    then have "s1 = pump_finish e s" using s1(1) by (auto split: if_splits)
    then have "sent s1 = sent s" "ss_consumer s1 = ss_consumer s" by simp_all
    with IH show ?thesis by (simp add: Pipe_End)
  next
    case Deliver
    then have "sent s1 = sent s" "ss_consumer s1 = ss_consumer s"
      using deliver_sent s1(1) by blast+
    with IH show ?thesis by (simp add: Deliver)
  next
    case Deadline
    then have "ss_timed_out s1" using s1(1) by (auto split: if_splits)
    then show ?thesis using stream_run_timed_out [OF s1(2)] Cons.prems(2) by simp
  qed
qed simp

section \<open>Consequences\<close>

fun feed_chunk :: "feed \<Rightarrow> stream_chunk" where
  "feed_chunk (Out s) = chunk STDOUT s"
| "feed_chunk (Err s) = chunk STDERR s"

lemma sink_open_output:
  "\<not> sc_limit_exceeded (consumed fs c) \<Longrightarrow> fst (run_sink consume fs c) = map feed_chunk fs"
proof (induction fs arbitrary: c)
  case (Cons f fs)
  have o1: "\<not> sc_limit_exceeded (snd (consume f c))"
    using Cons.prems sink.run_closed [of "snd (consume f c)" fs] by (auto simp: Let_def)
  then have "\<not> sc_limit_exceeded c" using consume_closed by fastforce
  with o1 have "fst (consume f c) = Some (feed_chunk f)"
    by (cases f) (auto simp: consume_simps split: if_splits)
  then show ?case
    using Cons.IH [of "snd (consume f c)"] Cons.prems by (simp add: Let_def)
qed simp

definition chunk_bytes :: "stream_chunk list \<Rightarrow> nat" where
  "chunk_bytes cs = sum_list (map (\<lambda>x. utf8_len (ck_data x)) cs)"

lemma chunk_bytes_simps [simp]: "chunk_bytes [] = 0"
  "chunk_bytes (x # cs) = utf8_len (ck_data x) + chunk_bytes cs"
  "chunk_bytes (as @ bs) = chunk_bytes as + chunk_bytes bs"
  by (simp_all add: chunk_bytes_def)

text \<open>The longest notice the consumer of a ceiling \<open>m\<close> may add.\<close>

definition notice_bytes :: "int \<Rightarrow> nat" where
  "notice_bytes m = max (utf8_len (limit_notice m)) (utf8_len stderr_notice)"

lemma consume_bytes:
  assumes "feed_ok f" "\<not> sc_limit_exceeded c" "0 \<le> sc_total_bytes c"
  shows "int (chunk_bytes (case fst (consume f c) of None \<Rightarrow> [] | Some x \<Rightarrow> [x])) + sc_total_bytes c \<le>
         sc_total_bytes (snd (consume f c)) +
         (if sc_limit_exceeded (snd (consume f c)) then int (notice_bytes (sc_max_bytes c)) else 0)"
proof (cases f)
  case (Out s)
  have "int (utf8_len (fit_bytes k s)) \<le> int k" for k using fit_bytes_len [of k s] by simp
  from this [of "nat (max 0 (sc_max_bytes c - sc_total_bytes c))"] show ?thesis
    using assms by (auto simp: Out consume_simps truncated_chunk_eq notice_bytes_def)
next
  case (Err s)
  then show ?thesis using assms by (auto simp: consume_simps notice_bytes_def)
qed

lemma run_sink_bytes:
  "list_all feed_ok fs \<Longrightarrow> consumer_inv c \<Longrightarrow> \<not> sc_limit_exceeded c \<Longrightarrow> 0 \<le> sc_total_bytes c \<Longrightarrow>
   int (chunk_bytes (fst (run_sink consume fs c))) + sc_total_bytes c \<le>
     max 0 (sc_max_bytes c) + int (notice_bytes (sc_max_bytes c))"
proof (induction fs arbitrary: c)
  case Nil
  then show ?case by (simp add: consumer_inv_def)
next
  case (Cons f fs)
  let ?c1 = "snd (consume f c)"
  have inv: "consumer_inv ?c1" using Cons.prems consume_inv by simp
  then have tot: "0 \<le> sc_total_bytes ?c1" "sc_total_bytes ?c1 \<le> max 0 (sc_max_bytes c)"
    by (simp_all add: consumer_inv_def)
  note step = consume_bytes [of f c]
  show ?case
  proof (cases "sc_limit_exceeded ?c1")
    case True
    then show ?thesis using step tot Cons.prems sink.run_closed [OF True, of fs] by (simp add: Let_def)
  next
    case False
    then show ?thesis using Cons.IH [OF _ inv False tot(1)] Cons.prems step by (simp add: Let_def)
  qed
qed

lemma consume_event:
  "fst (consume f c) = Some x \<Longrightarrow> ck_event x \<in> {STDOUT, STDERR}"
  by (cases f) (auto simp: consume_simps split: if_splits)

definition no_complete :: "stream_chunk list \<Rightarrow> bool" where
  "no_complete cs \<longleftrightarrow> list_all (\<lambda>x. ck_event x \<noteq> COMPLETE) cs"

lemma no_complete_simps [simp]: "no_complete []" "no_complete (as @ bs) \<longleftrightarrow> no_complete as \<and> no_complete bs"
  "no_complete (x # cs) \<longleftrightarrow> ck_event x \<noteq> COMPLETE \<and> no_complete cs"
  by (simp_all add: no_complete_def)

lemma pump_finish_yielded [simp]: "ss_yielded (pump_finish e s) = ss_yielded s"
  by (simp add: pump_finish_def Let_def)

lemma pump_read_yielded [simp]: "ss_yielded (pump_read e data s) = ss_yielded s"
  by (simp add: pump_read_feed Let_def)

lemma stream_step_no_complete:
  "stream_step sf t ev s = Some s' \<Longrightarrow> no_complete (sent s) \<Longrightarrow> no_complete (sent s')"
proof (cases ev)
  case (Pipe e data)
  assume "stream_step sf t ev s = Some s'" "no_complete (sent s)"
  then show ?thesis
    using pump_read_sent [of e data s] consume_event [of "feed_of e data" "ss_consumer s"]
    by (auto simp: Pipe split: if_splits option.splits)
next
  case (Pipe_End e)
  assume "stream_step sf t ev s = Some s'" "no_complete (sent s)"
  then show ?thesis by (auto simp: Pipe_End split: if_splits)
qed (auto simp: sent_def split: if_splits list.splits option.splits)

lemma stream_run_no_complete:
  "stream_run sf t evs s = Some s' \<Longrightarrow> no_complete (sent s) \<Longrightarrow> no_complete (sent s')"
  by (induction evs arbitrary: s) (auto dest: stream_step_no_complete split: option.splits)

lemma stream_yielded_no_complete:
  "stream_run sf t evs (stream_start m) = Some s \<Longrightarrow> no_complete (ss_yielded s)"
  using stream_run_no_complete [of sf t evs "stream_start m" s]
  by (simp add: sent_def) (simp add: stream_start_def)

lemma stream_run_append:
  "stream_run sf t (evs @ evs') s =
     (case stream_run sf t evs s of None \<Rightarrow> None | Some s1 \<Rightarrow> stream_run sf t evs' s1)"
  by (induction evs arbitrary: s) (auto split: option.splits)

text \<open>With both pumps finished, delivering the queue ends the main loop.\<close>

lemma deliver_drains:
  "ss_queue s = map Some xs @ [None] \<Longrightarrow> \<not> ss_main_done s \<Longrightarrow>
   \<exists>s'. stream_run sf t (replicate (Suc (length xs)) Deliver) s = Some s' \<and> ss_main_done s' \<and>
        ss_timed_out s' = ss_timed_out s"
proof (induction xs arbitrary: s)
  case (Cons x xs)
  let ?s1 = "s\<lparr>ss_queue := map Some xs @ [None], ss_yielded := ss_yielded s @ [x]\<rparr>"
  have "stream_step sf t Deliver s = Some ?s1" using Cons.prems by simp
  moreover obtain s' where "stream_run sf t (replicate (Suc (length xs)) Deliver) ?s1 = Some s'"
    "ss_main_done s'" "ss_timed_out s' = ss_timed_out ?s1"
    using Cons.IH [of ?s1] Cons.prems by auto
  ultimately show ?case by simp
qed simp

lemma close_pumps:
  "\<not> ss_main_done s \<Longrightarrow> stream_inv s \<Longrightarrow>
   \<exists>evs s'. stream_run sf t evs s = Some s' \<and> pumps_closed s' \<and> \<not> ss_main_done s' \<and>
     ss_timed_out s' = ss_timed_out s \<and> feeds_of evs = []"
proof -
  assume "\<not> ss_main_done s"
  let ?evs = "(if ss_out_live s then [Pipe_End False] else []) @ (if ss_err_live s then [Pipe_End True] else [])"
  have "\<exists>s'. stream_run sf t ?evs s = Some s' \<and> pumps_closed s' \<and> \<not> ss_main_done s' \<and>
     ss_timed_out s' = ss_timed_out s \<and> feeds_of ?evs = []"
    using \<open>\<not> ss_main_done s\<close>
    by (auto simp: pump_live_def pump_finish_def pumps_closed_def Let_def)
  then show ?thesis by blast
qed

lemma utf8_text_lit [simp]: "utf8_text (lit w)"
proof (induction w)
  case (Cons c w)
  have "(of_char c :: nat) < 1114112" "\<not> 55296 \<le> (of_char c :: nat)"
    using nat_of_char_less_256 [of c] by linarith+
  then show ?case using Cons by (simp add: lit_def scalar_def is_surrogate_def)
qed (simp add: lit_def)

lemma payload_plain: "json_plain (JObj (status_payload st code ms))"
proof -
  have "utf8_text (status_value st)" by (cases st) simp_all
  then show ?thesis by (cases code) (simp_all add: status_payload_def)
qed

text \<open>What the parts around the concurrent one yield.\<close>

definition extra_ok :: "stream_chunk list \<Rightarrow> execution_status \<Rightarrow> (pstr \<times> json) list \<Rightarrow> bool" where
  "extra_ok pre st extra \<longleftrightarrow>
     extra = [] \<or>
     st = ES_COMPILE_ERROR \<and>
     (\<exists>t. extra = [(lit ''compile_output'', JStr t)] \<and> chunk ERROR t \<in> set pre)"

definition ends_complete :: "stream_chunk list \<Rightarrow> bool" where
  "ends_complete cs \<longleftrightarrow>
     (\<exists>sf pre st code ms extra.
        cs = pre @ [complete_chunk sf (status_payload st code ms @ extra)] \<and>
        no_complete pre \<and> extra_ok pre st extra)"

lemma ends_completeI:
  "no_complete pre \<Longrightarrow> extra_ok pre st extra \<Longrightarrow>
   ends_complete (pre @ [complete_chunk sf (status_payload st code ms @ extra)])"
  unfolding ends_complete_def by blast

lemma ends_complete_append:
  assumes "no_complete pre" "ends_complete cs"
  shows "ends_complete (pre @ cs)"
proof -
  obtain sf q st code ms extra where
    "cs = q @ [complete_chunk sf (status_payload st code ms @ extra)]" "no_complete q" "extra_ok q st extra"
    using assms(2) by (auto simp: ends_complete_def)
  moreover from this have "extra_ok (pre @ q) st extra" by (auto simp: extra_ok_def)
  ultimately show ?thesis
    using ends_completeI [of "pre @ q" st extra sf code ms] assms(1) by simp
qed

lemma ends_complete_single: "ends_complete [complete_chunk sf (status_payload st code ms)]"
  using ends_completeI [of "[]" st "[]" sf code ms] by (simp add: extra_ok_def)

lemma compile_failure_complete: "ends_complete (compile_failure sf t code ms)"
  using ends_completeI [of "[chunk ERROR t]" ES_COMPILE_ERROR "[(lit ''compile_output'', JStr t)]"
      sf "Some code" ms]
  by (simp add: extra_ok_def compile_failure_def)

lemma stream_failure_complete: "ends_complete (stream_failure sf exc)"
proof -
  have "no_complete [chunk ERROR (10 # lit ''[SYSTEM: Fatal execution failure: '' @ exn_str exc @ lit '']'')]"
    by simp
  from ends_complete_append [OF this ends_complete_single] show ?thesis
    by (simp add: stream_failure_def)
qed

lemma compile_failure_after: "ends_complete (chunk STATUS t # compile_failure sf t' code ms)"
  using ends_complete_append [OF _ compile_failure_complete, of "[chunk STATUS t]"] by simp

lemma stream_compile_chunks:
  assumes "stream_compile sf ho strategy src bin w = (pre, out, w')"
  shows "if out = Returned then ends_complete pre else no_complete pre"
proof -
  obtain oc w1 where c: "ho_compile ho w (adapt_compile_command (host.truncate ho)
      (ls_compile_command strategy src bin)) = (oc, w1)" by fastforce
  then show ?thesis
    using assms by (cases oc) (auto simp: stream_compile_def Let_def compile_failure_after split: if_splits)
qed

lemma stream_prepare_chunks:
  "stream_prepare sf ho strategy rq dir w = (pre, out, w') \<Longrightarrow>
   (if out = Returned then ends_complete pre else no_complete pre)"
  by (cases "ls_is_compiled strategy")
    (auto simp: stream_prepare_def Let_def dest: stream_compile_chunks
      split: prod.splits sum.splits option.splits)

section \<open>Properties\<close>

text \<open>C13. Streaming loses nothing and reorders nothing.  Whenever the main loop ends by the
  sentinel, under any interleaving of the two pumps and the loop, both pumps have
  finished and the chunks yielded are exactly what the consumer let through, in the order
  of the reads; if the output limit was not exceeded they are exactly the chunks read.\<close>

theorem stream_yields_all:
  assumes "stream_run sf t evs (stream_start m) = Some s"
    and "ss_main_done s" and "\<not> ss_timed_out s"
  shows "pumps_closed s \<and>
         ss_yielded s = fst (run_sink consume (feeds_of evs) (new_consumer m)) \<and>
         ss_consumer s = snd (run_sink consume (feeds_of evs) (new_consumer m)) \<and>
         (sc_limit_exceeded (ss_consumer s) \<or> ss_yielded s = map feed_chunk (feeds_of evs))"
proof -
  have "stream_inv s" using stream_run_inv [OF assms(1)] by simp
  then have "pumps_closed s" "ss_queue s = []"
    using assms(2,3) by (auto simp: stream_inv_def)
  moreover have "sent s = fst (run_sink consume (feeds_of evs) (new_consumer m))"
    "ss_consumer s = snd (run_sink consume (feeds_of evs) (new_consumer m))"
    using stream_run_sent [OF assms(1,3)] by (simp_all add: sent_def stream_start_def)
  ultimately show ?thesis
    using sink_open_output [of "feeds_of evs" "new_consumer m"] by (auto simp: sent_def)
qed

theorem stream_yields_all_witness:
  "\<exists>s. stream_run (\<lambda>_. []) (Fin 5) [Pipe False [104], Pipe True [105], Deliver, Pipe_End True,
        Pipe_End False, Deliver, Deliver] (stream_start 10) = Some s \<and>
     ss_yielded s = [chunk STDOUT [104], chunk STDERR [105]]"
proof -
  have d: "decode_utf8 [104] = [104]" "decode_utf8 [105] = [105]"
    using utf8_roundtrip [of "[104]" Replace_Errors] utf8_roundtrip [of "[105]" Replace_Errors]
    by (simp_all add: enc_char_def scalar_def is_surrogate_def)
  let ?evs = "[Pipe False [104], Pipe True [105], Deliver, Pipe_End True, Pipe_End False, Deliver, Deliver]"
  obtain s where s: "stream_run (\<lambda>_. []) (Fin 5) ?evs (stream_start 10) = Some s"
    "ss_main_done s" "\<not> ss_timed_out s" "\<not> sc_limit_exceeded (ss_consumer s)"
    by (simp add: stream_start_def pump_live_def pump_read_def pump_finish_def consume_simps
        new_consumer_def d enc_char_def del: utf8_decode.simps)
  then show ?thesis
    using stream_yields_all [OF s(1-3)]
    by (auto simp: feed_of_def d simp del: utf8_decode.simps stream_run.simps run_sink.simps)
qed

text \<open>Whatever the program prints and whatever the interleaving, the text sent on to the
  client is bounded: its size never exceeds the output ceiling by more than the notices
  that say so.\<close>

lemma stream_output_bounded:
  assumes "stream_run sf t evs (stream_start m) = Some s" and "\<not> ss_timed_out s"
  shows "chunk_bytes (ss_yielded s) \<le> nat m + notice_bytes m"
proof -
  have "sent s = fst (run_sink consume (feeds_of evs) (new_consumer m))"
    using stream_run_sent [OF assms] by (simp add: sent_def stream_start_def)
  moreover have "int (chunk_bytes (fst (run_sink consume (feeds_of evs) (new_consumer m)))) \<le>
      max 0 m + int (notice_bytes m)"
    using run_sink_bytes [OF feeds_ok consumer_inv_new, of m evs] by (simp add: new_consumer_def)
  ultimately have "chunk_bytes (sent s) \<le> nat m + notice_bytes m" by simp
  then show ?thesis by (simp add: sent_def)
qed

lemma stream_output_bounded_witness:
  "chunk_bytes (ss_yielded (stream_start 10)) \<le> nat 10 + notice_bytes 10"
proof -
  have "stream_run (\<lambda>_. []) (Fin 5) [] (stream_start 10) = Some (stream_start 10)" by simp
  moreover have "\<not> ss_timed_out (stream_start 10)" by (simp add: stream_start_def)
  ultimately show ?thesis by (rule stream_output_bounded)
qed

text \<open>The main loop can always end: from every reachable state in which it is still
  running there is a continuation, without further output of the program, after which it
  has taken the sentinel; no interleaving leaves it waiting for a chunk that cannot come.\<close>

lemma stream_can_finish:
  assumes "stream_run sf t evs (stream_start m) = Some s" and "\<not> ss_main_done s"
  shows "\<exists>evs' s'. stream_run sf t (evs @ evs') (stream_start m) = Some s' \<and>
           ss_main_done s' \<and> \<not> ss_timed_out s'"
proof -
  have inv: "stream_inv s" using stream_run_inv [OF assms(1)] by simp
  obtain evs1 s1 where s1: "stream_run sf t evs1 s = Some s1" "pumps_closed s1" "\<not> ss_main_done s1"
    "ss_timed_out s1 = ss_timed_out s"
    using close_pumps [OF assms(2) inv] by blast
  then have "stream_inv s1" using stream_run_inv inv by blast
  with s1 obtain xs where "ss_queue s1 = map Some xs @ [None]" by (auto simp: stream_inv_def)
  from deliver_drains [OF this s1(3), of sf t] obtain s2 where s2:
    "stream_run sf t (replicate (Suc (length xs)) Deliver) s1 = Some s2" "ss_main_done s2"
    "ss_timed_out s2 = ss_timed_out s1" by blast
  have "\<not> ss_timed_out s" using inv assms(2) by (auto simp: stream_inv_def)
  then show ?thesis
    using assms(1) s1(1,4) s2
    by (intro exI [of _ "evs1 @ replicate (Suc (length xs)) Deliver"] exI [of _ s2])
      (simp add: stream_run_append del: replicate_Suc)
qed

lemma stream_can_finish_witness:
  "\<exists>evs' s'. stream_run (\<lambda>_. []) (Fin 5) ([] @ evs') (stream_start 10) = Some s' \<and>
     ss_main_done s' \<and> \<not> ss_timed_out s'"
proof (rule stream_can_finish)
  show "stream_run (\<lambda>_. []) (Fin 5) [] (stream_start 10) = Some (stream_start 10)" by simp
  show "\<not> ss_main_done (stream_start 10)" by (simp add: stream_start_def)
qed

text \<open>C18. Every stream of the subprocess driver ends with its completion frame: whenever the
  generator runs to its end, through a failed compilation, an exception, a timeout or a
  normal exit, its last chunk, and no other, is a \<open>COMPLETE\<close> chunk carrying the status.\<close>

theorem stream_ends_with_complete:
  assumes "process_stream sf ho reg evs rq w = Some (Inr chunks, w')"
  shows "ends_complete chunks"
proof -
  obtain strategy where g: "fst (get_strategy (ho_python ho) (rq_language rq) reg) = Inr strategy"
    using assms by (auto simp: process_stream_def split: sum.splits)
  obtain dir w1 where m: "ho_make_temp ho w = (Inr dir, w1)"
    using assms g by (auto simp: process_stream_def split: sum.splits prod.splits)
  obtain pre out w2 where p: "stream_prepare sf ho strategy rq dir w1 = (pre, out, w2)"
    by (metis prod_cases3)
  note pre = stream_prepare_chunks [OF p]
  show ?thesis
  proof (cases out)
    case Returned
    then show ?thesis using assms g m p pre by (simp add: process_stream_def)
  next
    case (Failed exc)
    then show ?thesis
      using assms g m p pre ends_complete_append [OF _ stream_failure_complete]
      by (auto simp: process_stream_def)
  next
    case (Ready target)
    obtain e w3 where sp: "stream_spawn ho rq (ls_execution_command strategy target) w2 = (e, w3)"
      by fastforce
    show ?thesis
    proof (cases e)
      case (Some exc)
      then show ?thesis
        using assms g m p pre Ready sp ends_complete_append [OF _ stream_failure_complete]
        by (auto simp: process_stream_def)
    next
      case None
      then obtain s st code ms where r: "stream_run sf (rq_timeout_seconds rq) evs
          (stream_start (rq_max_output_bytes rq)) = Some s"
        and c: "chunks = (pre @ ss_yielded s) @ [complete_chunk sf (status_payload st code ms)]"
        using assms g m p Ready sp
        by (auto simp: process_stream_def split: option.splits if_splits prod.splits)
      have "no_complete (pre @ ss_yielded s)"
        using pre Ready stream_yielded_no_complete [OF r] by simp
      then show ?thesis unfolding c by (rule ends_complete_append) (rule ends_complete_single)
    qed
  qed
qed

text \<open>A host on which the source file cannot be written.\<close>

definition full_disk_host :: "nat stream_host" where
  "full_disk_host =
     host.extend ((demo_host Run_Timeout)\<lparr>ho_write_file := (\<lambda>w _ _. (Some (OtherError (lit ''disk full'')), w))\<rparr>)
       \<lparr>sh_feed_stdin = (\<lambda>w _. (None, w)), sh_wait = (\<lambda>w. (Some 0, w))\<rparr>"

theorem stream_ends_with_complete_witness:
  "\<exists>chunks. process_stream (\<lambda>_. []) full_disk_host (imported_registry (lit ''python3'')) []
      (default_request (lit ''x'')) 0 = Some (Inr chunks, 2) \<and> ends_complete chunks"
proof -
  let ?rq = "default_request (lit ''x'')"
  let ?reg = "imported_registry (lit ''python3'')"
  have g: "fst (get_strategy (ho_python full_disk_host) (rq_language ?rq) ?reg) =
      Inr (python_strategy (lit ''python3''))"
    using demo_python by (simp add: full_disk_host_def demo_host_def default_request_def host.defs)
  have m: "ho_make_temp full_disk_host 0 = (Inr (lit ''/tmp/t''), 1)" "ho_cleanup full_disk_host 1 = 2"
    by (simp_all add: full_disk_host_def demo_host_def host.defs)
  have p: "stream_prepare (\<lambda>_. []) full_disk_host (python_strategy (lit ''python3'')) ?rq (lit ''/tmp/t'') 1 =
      ([], Failed (OtherError (lit ''disk full'')), 1)"
    by (simp add: stream_prepare_def full_disk_host_def demo_host_def host.defs encode_utf8_def
        default_request_def)
  have r: "process_stream (\<lambda>_. []) full_disk_host ?reg [] ?rq 0 =
      Some (Inr (stream_failure (\<lambda>_. []) (OtherError (lit ''disk full''))), 2)"
    using g m p by (simp add: process_stream_def)
  then show ?thesis using stream_ends_with_complete [OF r] by blast
qed

text \<open>A character that straddles two reads of a pipe is lost: each read is decoded on its
  own, so the two bytes of one character become two replacement characters, although the
  bytes together are the character.\<close>

lemma split_character_corrupted:
  "decode_utf8 ([195] @ [169]) = [233] \<and>
   concat (map feed_text (feeds_of [Pipe False [195], Pipe False [169]])) = [65533, 65533]"
  by (simp add: feed_of_def decode_step_def is_cont_def)

end
