(* ===== verification/Stream_Delivery.thy ===== *)
theory Stream_Delivery
  imports Process_Stream
begin

text \<open>
  The way of a chunk from the worker to the browser: the multiplexer numbers it and sends it
  to Redis (worker/streaming/multiplexer.py and buffer.py, worker/broker/redis_client.py),
  and the downstream pump of the submission WebSocket replays the buffer and then forwards
  the live channel (backend/app/api/v1/endpoints/websocket.py).  What the code sends to
  Redis is a list of commands.  Redis itself is not modelled: a trace interleaves the
  worker's commands with what the client observes, and the hypothesis \<open>redis_ok\<close> says
  which observations Redis documents.
\<close>

section \<open>Keys and commands\<close>

datatype redis_cmd =
    PUBLISH pstr pstr | RPUSH pstr pstr | EXPIRE pstr int | LRANGE pstr int int

definition get_stream_channel :: "pstr \<Rightarrow> pstr" where
  "get_stream_channel submission_id = lit ''rce:stream:'' @ submission_id"

definition get_buffer_key :: "pstr \<Rightarrow> pstr" where
  "get_buffer_key submission_id = lit ''rce:buffer:'' @ submission_id"

definition append_async :: "pstr \<Rightarrow> pstr \<Rightarrow> int \<Rightarrow> redis_cmd list" where
  "append_async submission_id chunk_json ttl =
     (let key = lit ''rce:buffer:'' @ submission_id in [RPUSH key chunk_json, EXPIRE key ttl])"

definition append_sync :: "pstr \<Rightarrow> pstr \<Rightarrow> int \<Rightarrow> redis_cmd list" where
  "append_sync submission_id chunk_json ttl =
     (let key = lit ''rce:buffer:'' @ submission_id in [RPUSH key chunk_json, EXPIRE key ttl])"

text \<open>The frames of a buffer: the command, and the decoded reply (\<open>None\<close>: a \<open>JSONDecodeError\<close>).\<close>

definition get_buffered_command :: "pstr \<Rightarrow> int \<Rightarrow> redis_cmd" where
  "get_buffered_command submission_id start_index =
     LRANGE (lit ''rce:buffer:'' @ submission_id) start_index (- 1)"

definition get_buffered_frames :: "pstr list \<Rightarrow> json list option" where
  "get_buffered_frames raw_items = those (map loads raw_items)"

definition buffer_ttl :: int where
  "buffer_ttl = 60"

section \<open>The multiplexer\<close>

record multiplexer =
  mx_submission_id :: pstr
  mx_sequence :: int
  mx_channel :: pstr

definition new_multiplexer :: "pstr \<Rightarrow> multiplexer" where
  "new_multiplexer submission_id =
     \<lparr>mx_submission_id = submission_id, mx_sequence = 0,
      mx_channel = get_stream_channel submission_id\<rparr>"

definition frame_payload :: "multiplexer \<Rightarrow> stream_chunk \<Rightarrow> pstr \<Rightarrow> json" where
  "frame_payload mx ck timestamp =
     JObj [(lit ''submission_id'', JStr (mx_submission_id mx)),
           (lit ''sequence'', JInt (mx_sequence mx)),
           (lit ''event'', JStr (event_value (ck_event ck))),
           (lit ''data'', JStr (ck_data ck)),
           (lit ''timestamp'', JStr timestamp)]"

definition format_payload ::
  "(pyfloat \<Rightarrow> pstr) \<Rightarrow> stream_chunk \<Rightarrow> pstr \<Rightarrow> multiplexer \<Rightarrow> pstr \<times> multiplexer" where
  "format_payload sf ck timestamp mx =
     (dumps sf (frame_payload mx ck timestamp), mx\<lparr>mx_sequence := mx_sequence mx + 1\<rparr>)"

definition publish_chunk ::
  "(pyfloat \<Rightarrow> pstr) \<Rightarrow> stream_chunk \<Rightarrow> pstr \<Rightarrow> multiplexer \<Rightarrow> pstr \<times> redis_cmd list \<times> multiplexer" where
  "publish_chunk sf ck timestamp mx =
     (let (payload_str, mx') = format_payload sf ck timestamp mx
      in (payload_str,
          PUBLISH (mx_channel mx) payload_str # append_async (mx_submission_id mx) payload_str buffer_ttl,
          mx'))"

text \<open>Publishing a list of timestamped chunks: the frames, and every command in order.\<close>

fun publish_all ::
  "(pyfloat \<Rightarrow> pstr) \<Rightarrow> (stream_chunk \<times> pstr) list \<Rightarrow> multiplexer \<Rightarrow> pstr list \<times> redis_cmd list" where
  "publish_all sf [] mx = ([], [])"
| "publish_all sf ((ck, ts) # cks) mx =
     (let (f, cmds, mx') = publish_chunk sf ck ts mx; (fs, rest) = publish_all sf cks mx'
      in (f # fs, cmds @ rest))"

section \<open>The downstream pump\<close>

text \<open>
  \<open>frame_data.get("sequence", 0)\<close> as a number that is compared exactly; \<open>None\<close> when parsing,
  the attribute access or the comparison raises.
\<close>

fun json_number_value :: "json \<Rightarrow> pyfloat option" where
  "json_number_value (JInt i) = Some (Fin (of_int i))"
| "json_number_value (JBool b) = Some (Fin (of_bool b))"
| "json_number_value (JFloat x) = Some x"
| "json_number_value _ = None"

fun json_get :: "pstr \<Rightarrow> json \<Rightarrow> json option option" where
  "json_get k (JObj kvs) = Some (map_of kvs k)"
| "json_get k _ = None"

definition frame_seq :: "pstr \<Rightarrow> pyfloat option" where
  "frame_seq frame_str =
     (case loads frame_str of
        None \<Rightarrow> None
      | Some j \<Rightarrow>
          (case json_get (lit ''sequence'') j of
             None \<Rightarrow> None
           | Some None \<Rightarrow> Some (Fin 0)
           | Some (Some v) \<Rightarrow> json_number_value v))"

definition frame_is_final :: "pstr \<Rightarrow> bool" where
  "frame_is_final frame_str =
     (case loads frame_str of
        Some (JObj kvs) \<Rightarrow> map_of kvs (lit ''event'') \<in> {Some (JStr (lit ''complete'')), Some (JStr (lit ''error''))}
      | _ \<Rightarrow> False)"

text \<open>The state of the pump: what was sent to the WebSocket, and \<open>last_seq\<close>.\<close>

type_synonym pump_state = "pstr list \<times> pyfloat"

definition forward_frame :: "pstr \<Rightarrow> pump_state \<Rightarrow> pump_state" where
  "forward_frame frame_str st =
     (case frame_seq frame_str of
        Some seq \<Rightarrow> if float_less (snd st) seq then (fst st @ [frame_str], seq) else st
      | None \<Rightarrow> (fst st @ [frame_str], snd st))"

definition replay_buffer :: "pstr list \<Rightarrow> pump_state" where
  "replay_buffer buffered_frames = fold forward_frame buffered_frames ([], Fin (- 1))"

text \<open>The live loop over the received messages; it breaks after a final frame.\<close>

fun live_loop :: "pstr list \<Rightarrow> pump_state \<Rightarrow> pump_state" where
  "live_loop [] st = st"
| "live_loop (data_str # rest) st =
     (if data_str = [] then live_loop rest st
      else if frame_seq data_str \<noteq> None \<and> frame_is_final data_str then forward_frame data_str st
      else live_loop rest (forward_frame data_str st))"

definition downstream_pump :: "pstr list \<Rightarrow> pstr list \<Rightarrow> pstr list" where
  "downstream_pump buffered messages = fst (live_loop messages (replay_buffer buffered))"

section \<open>Frames\<close>

lemma event_value_text [simp]: "utf8_text (event_value e)"
  by (cases e) simp_all

lemma frame_plain:
  "utf8_text (mx_submission_id mx) \<Longrightarrow> utf8_text (ck_data ck) \<Longrightarrow> utf8_text ts \<Longrightarrow>
   json_plain (frame_payload mx ck ts)"
  by (simp add: frame_payload_def)

text \<open>Every frame of a list of chunks is well-formed text.\<close>

definition chunks_ok :: "(stream_chunk \<times> pstr) list \<Rightarrow> bool" where
  "chunks_ok cks \<longleftrightarrow> list_all (\<lambda>(ck, ts). utf8_text (ck_data ck) \<and> utf8_text ts) cks"

lemma frame_facts:
  fixes sf :: "pyfloat \<Rightarrow> pstr"
  assumes "json_plain (frame_payload mx ck ts)"
  defines "f \<equiv> dumps sf (frame_payload mx ck ts)"
  shows "loads f = Some (frame_payload mx ck ts)"
    and "frame_seq f = Some (Fin (of_int (mx_sequence mx)))"
    and "frame_is_final f \<longleftrightarrow> ck_event ck \<in> {COMPLETE, ERROR}"
    and "f \<noteq> []"
proof -
  show l: "loads f = Some (frame_payload mx ck ts)"
    unfolding f_def by (rule loads_dumps [OF assms(1)])
  show "frame_seq f = Some (Fin (of_int (mx_sequence mx)))"
    by (simp add: frame_seq_def l) (simp add: frame_payload_def)
  show "frame_is_final f \<longleftrightarrow> ck_event ck \<in> {COMPLETE, ERROR}"
    by (simp add: frame_is_final_def l) (cases "ck_event ck"; simp add: frame_payload_def)
  show "f \<noteq> []" by (simp add: f_def frame_payload_def)
qed

text \<open>The frames of a list of chunks are numbered from the multiplexer's counter on.\<close>

primrec numbered :: "int \<Rightarrow> pstr list \<Rightarrow> bool" where
  "numbered n [] = True"
| "numbered n (f # fs) =
     (frame_seq f = Some (Fin (of_int n)) \<and> f \<noteq> [] \<and> numbered (n + 1) fs)"

lemma numbered_drop: "numbered n fs \<Longrightarrow> numbered (n + int k) (drop k fs)"
proof (induction k arbitrary: n fs)
  case (Suc k)
  then show ?case by (cases fs) (force simp: algebra_simps)+
qed simp

lemma numbered_take: "numbered n fs \<Longrightarrow> numbered n (take k fs)"
proof (induction k arbitrary: n fs)
  case (Suc k)
  then show ?case by (cases fs) simp_all
qed simp

lemma publish_all_facts:
  assumes "utf8_text (mx_submission_id mx)" "chunks_ok cks"
  shows "numbered (mx_sequence mx) (fst (publish_all sf cks mx)) \<and>
         length (fst (publish_all sf cks mx)) = length cks \<and>
         list_all2 (\<lambda>f (ck, ts). frame_is_final f \<longleftrightarrow> ck_event ck \<in> {COMPLETE, ERROR})
           (fst (publish_all sf cks mx)) cks"
  using assms
proof (induction cks arbitrary: mx)
  case (Cons x cks)
  obtain ck ts where x: "x = (ck, ts)" by fastforce
  have p: "json_plain (frame_payload mx ck ts)"
    using Cons.prems by (intro frame_plain) (simp_all add: chunks_ok_def x)
  then show ?case
    using frame_facts [OF p, of sf] Cons.IH [of "mx\<lparr>mx_sequence := mx_sequence mx + 1\<rparr>"] Cons.prems
    by (simp add: x publish_chunk_def format_payload_def chunks_ok_def Let_def split_beta)
qed simp

section \<open>What replay and the live loop deliver\<close>

lemma forward_new:
  "frame_seq f = Some q \<Longrightarrow> float_less l q \<Longrightarrow> forward_frame f (out, l) = (out @ [f], q)"
  by (simp add: forward_frame_def)

lemma forward_old:
  "frame_seq f = Some q \<Longrightarrow> \<not> float_less l q \<Longrightarrow> forward_frame f (out, l) = (out, l)"
  by (simp add: forward_frame_def)

text \<open>The highest number seen after \<open>k\<close> frames numbered from \<open>n\<close>, if \<open>l\<close> was the highest before.\<close>

lemma replay_numbered:
  "numbered n fs \<Longrightarrow> fold forward_frame fs (out, Fin (of_int (n - 1))) =
     (out @ fs, Fin (of_int (n - 1 + int (length fs))))"
proof (induction fs arbitrary: n out)
  case (Cons f fs)
  then have "forward_frame f (out, Fin (of_int (n - 1))) = (out @ [f], Fin (of_int n))"
    by (simp add: forward_new)
  then show ?case using Cons.IH [of "n + 1" "out @ [f]"] Cons.prems by (simp add: algebra_simps)
qed simp

text \<open>Messages after the last final one are not read.\<close>

fun until_final :: "pstr list \<Rightarrow> pstr list" where
  "until_final [] = []"
| "until_final (m # ms) = (if frame_is_final m then [m] else m # until_final ms)"

lemma live_numbered:
  "numbered n ms \<Longrightarrow>
   fst (live_loop ms (out, Fin (of_int l))) = out @ drop (nat (l + 1 - n)) (until_final ms)"
proof (induction ms arbitrary: n out l)
  case (Cons m ms)
  show ?case
  proof (cases "l < n")
    case True
    have f: "forward_frame m (out, Fin (of_int l)) = (out @ [m], Fin (of_int n))"
      using Cons.prems True by (simp add: forward_new)
    show ?thesis
      using Cons.IH [of "n + 1" "out @ [m]" n] Cons.prems True f by (simp add: live_loop.simps)
  next
    case False
    have f: "forward_frame m (out, Fin (of_int l)) = (out, Fin (of_int l))"
      using Cons.prems False by (simp add: forward_old)
    have "nat (l + 1 - n) = Suc (nat (l + 1 - (n + 1)))" using False by simp
    then show ?thesis
      using Cons.IH [of "n + 1" out l] Cons.prems f by (simp add: live_loop.simps)
  qed
qed simp

lemma downstream_numbered:
  assumes "numbered 0 fs"
  shows "downstream_pump (take a fs) (take r (drop s fs)) =
     take a fs @ drop (min a (length fs) - s) (until_final (take r (drop s fs)))"
proof -
  have "replay_buffer (take a fs) = (take a fs, Fin (of_int (int (min a (length fs)) - 1)))"
    using replay_numbered [OF numbered_take [OF assms, of a], of "[]"]
    by (simp add: replay_buffer_def algebra_simps min.commute)
  moreover have "numbered (int s) (take r (drop s fs))"
    using numbered_take [OF numbered_drop [OF assms, of s], of r] by simp
  from live_numbered [OF this, of "take a fs" "int (min a (length fs)) - 1"]
  have "fst (live_loop (take r (drop s fs)) (take a fs, Fin (of_int (int (min a (length fs)) - 1)))) =
      take a fs @ drop (nat (int (min a (length fs)) - int s)) (until_final (take r (drop s fs)))"
    by simp
  moreover have "nat (int (min a (length fs)) - int s) = min a (length fs) - s" by linarith
  ultimately show ?thesis by (simp add: downstream_pump_def)
qed

section \<open>Traces of the worker, Redis and one client\<close>

fun published :: "pstr \<Rightarrow> redis_cmd list \<Rightarrow> pstr list" where
  "published ch [] = []"
| "published ch (PUBLISH c p # cmds) = (if c = ch then p # published ch cmds else published ch cmds)"
| "published ch (_ # cmds) = published ch cmds"

fun pushed :: "pstr \<Rightarrow> redis_cmd list \<Rightarrow> pstr list" where
  "pushed key [] = []"
| "pushed key (RPUSH k p # cmds) = (if k = key then p # pushed key cmds else pushed key cmds)"
| "pushed key (_ # cmds) = pushed key cmds"

lemma published_append [simp]: "published ch (as @ bs) = published ch as @ published ch bs"
  by (induction ch as rule: published.induct) auto

lemma pushed_append [simp]: "pushed key (as @ bs) = pushed key as @ pushed key bs"
  by (induction key as rule: pushed.induct) auto

text \<open>
  What Redis documents.  The worker's commands are split at the moment the client's
  subscription takes effect and at the moment its \<open>LRANGE\<close> runs: the range returns what was
  pushed before it, in order, and the messages received so far are, in order and without a
  gap, the first ones published after the subscription.
\<close>

definition redis_ok ::
  "pstr \<Rightarrow> redis_cmd list \<Rightarrow> redis_cmd list \<Rightarrow> redis_cmd list \<Rightarrow> pstr list \<Rightarrow> pstr list \<Rightarrow> bool" where
  "redis_ok submission_id t1 t2 t3 buffered messages \<longleftrightarrow>
     buffered = pushed (get_buffer_key submission_id) (t1 @ t2) \<and>
     prefix messages (published (get_stream_channel submission_id) (t2 @ t3))"

definition frame_commands :: "pstr \<Rightarrow> pstr \<Rightarrow> redis_cmd list" where
  "frame_commands submission_id f =
     [PUBLISH (get_stream_channel submission_id) f, RPUSH (get_buffer_key submission_id) f,
      EXPIRE (get_buffer_key submission_id) buffer_ttl]"

lemma publish_all_commands:
  "mx_channel mx = get_stream_channel (mx_submission_id mx) \<Longrightarrow>
   snd (publish_all sf cks mx) =
     concat (map (frame_commands (mx_submission_id mx)) (fst (publish_all sf cks mx)))"
proof (induction cks arbitrary: mx)
  case (Cons x cks)
  obtain ck ts where "x = (ck, ts)" by fastforce
  then show ?case
    using Cons.IH [of "mx\<lparr>mx_sequence := mx_sequence mx + 1\<rparr>"] Cons.prems
    by (simp add: publish_chunk_def format_payload_def Let_def split_beta frame_commands_def
        append_async_def get_buffer_key_def)
qed simp

lemma take_frame_commands:
  "published (get_stream_channel sid) (take (Suc 0) (frame_commands sid f)) = [f]"
  "published (get_stream_channel sid) (take 2 (frame_commands sid f)) = [f]"
  "published (get_stream_channel sid) (frame_commands sid f) = [f]"
  "pushed (get_buffer_key sid) (take (Suc 0) (frame_commands sid f)) = []"
  "pushed (get_buffer_key sid) (take 2 (frame_commands sid f)) = [f]"
  "pushed (get_buffer_key sid) (frame_commands sid f) = [f]"
  "length (frame_commands sid f) = 3"
  by (simp_all add: frame_commands_def)

lemma take_commands:
  "published (get_stream_channel sid) (take n (concat (map (frame_commands sid) fs))) =
     take ((n + 2) div 3) fs \<and>
   pushed (get_buffer_key sid) (take n (concat (map (frame_commands sid) fs))) =
     take ((n + 1) div 3) fs"
proof (induction fs arbitrary: n)
  case (Cons f fs)
  have t: "take n (concat (map (frame_commands sid) (f # fs))) =
      take n (frame_commands sid f) @ take (n - 3) (concat (map (frame_commands sid) fs))"
    by (simp add: take_frame_commands)
  show ?case
  proof (cases "n < 3")
    case True
    then have "n = 0 \<or> n = 1 \<or> n = 2" by linarith
    then show ?thesis unfolding t by (elim disjE) (simp_all add: take_frame_commands)
  next
    case False
    then obtain m where n: "n = m + 3" by (metis add.commute le_Suc_ex not_less)
    have d: "(m + 3 + 2) div 3 = Suc ((m + 2) div 3)" "(m + 3 + 1) div 3 = Suc ((m + 1) div 3)"
      using div_add_self2 [of 3 "m + 2"] div_add_self2 [of 3 "m + 1"] by (simp_all add: ac_simps)
    have "take n (frame_commands sid f) = frame_commands sid f" using n by (simp add: take_frame_commands)
    then have "published (get_stream_channel sid) (take n (concat (map (frame_commands sid) (f # fs)))) =
        f # take ((m + 2) div 3) fs"
      "pushed (get_buffer_key sid) (take n (concat (map (frame_commands sid) (f # fs)))) =
        f # take ((m + 1) div 3) fs"
      unfolding t using Cons.IH [of m] by (simp_all add: n take_frame_commands)
    then show ?thesis by (simp only: n d take_Suc_Cons)
  qed
qed simp

lemma until_final_prefix: "prefix (until_final ms) ms"
  by (induction ms rule: until_final.induct) auto

lemma numbered_index:
  "numbered n fs \<Longrightarrow> i < length fs \<Longrightarrow> frame_seq (fs ! i) = Some (Fin (of_int (n + int i)))"
proof (induction i arbitrary: n fs)
  case 0
  then show ?case by (cases fs) auto
next
  case (Suc i)
  then obtain f fs' where fs: "fs = f # fs'" by (cases fs) auto
  with Suc.IH [of "n + 1" fs'] Suc.prems show ?case by (simp add: algebra_simps)
qed

section \<open>Properties\<close>



text \<open>The delivery, for this theory and for the composition with the worker.\<close>

lemma delivery_core:
  assumes "chunks_ok cks" and "utf8_text sid"
    and "publish_all sf cks (new_multiplexer sid) = (fs, cmds)"
    and "prefix (t1 @ t2 @ t3) cmds"
    and "redis_ok sid t1 t2 t3 buffered messages"
  shows "buffered = take (length buffered) fs \<and>
    set buffered \<union> set (until_final messages) \<subseteq> set (downstream_pump buffered messages) \<and>
    (prefix (downstream_pump buffered messages) fs \<or>
     length (published (get_stream_channel sid) t1) = Suc (length buffered) \<and>
     (\<exists>k. downstream_pump buffered messages =
            take (length buffered) fs @ take k (drop (Suc (length buffered)) fs)))"
proof -
  let ?ch = "get_stream_channel sid" and ?key = "get_buffer_key sid"
  have mx: "mx_submission_id (new_multiplexer sid) = sid" "mx_sequence (new_multiplexer sid) = 0"
    "mx_channel (new_multiplexer sid) = ?ch" by (simp_all add: new_multiplexer_def)
  have num: "numbered 0 fs" using publish_all_facts [of "new_multiplexer sid" cks sf] assms(1-3) mx by simp
  have cmds: "cmds = concat (map (frame_commands sid) fs)"
    using publish_all_commands [of "new_multiplexer sid" sf cks] assms(3) mx by simp
  define n1 where "n1 = length t1"
  define n2 where "n2 = length (t1 @ t2)"
  define n3 where "n3 = length (t1 @ t2 @ t3)"
  have cut: "t1 = take n1 cmds" "t1 @ t2 = take n2 cmds" "t1 @ t2 @ t3 = take n3 cmds"
    using assms(4) by (auto simp: prefix_def n1_def n2_def n3_def)
  define a where "a = min ((n2 + 1) div 3) (length fs)"
  define s where "s = min ((n1 + 2) div 3) (length fs)"
  have take_min: "take (min k (length fs)) fs = take k fs" for k by (simp add: min_def)
  have "n1 \<le> n2" by (simp add: n1_def n2_def)
  then have sa: "s \<le> Suc a" unfolding s_def a_def by linarith
  have b: "buffered = take a fs"
    unfolding a_def take_min using assms(5) take_commands [of sid n2 fs] cut(2) cmds
    by (metis redis_ok_def)
  have p1: "published ?ch t1 = take s fs"
    unfolding s_def take_min using take_commands [of sid n1 fs] cut(1) cmds by metis
  have "published ?ch t1 @ published ?ch (t2 @ t3) = take ((n3 + 2) div 3) fs"
    using take_commands [of sid n3 fs] cut(3) cmds by (metis published_append)
  then have "published ?ch (t2 @ t3) = drop (length (take s fs)) (take ((n3 + 2) div 3) fs)"
    unfolding p1 by (metis append_eq_conv_conj)
  then have p23: "published ?ch (t2 @ t3) = take ((n3 + 2) div 3 - s) (drop s fs)"
    by (simp add: s_def drop_take)
  then obtain r where m: "messages = take r (drop s fs)"
    using assms(5) by (auto simp: redis_ok_def prefix_def) (metis append_eq_conv_conj take_take)
  have len: "length buffered = a" "length (take a fs) = a" by (simp_all add: b a_def)
  obtain k where u: "until_final messages = take k (drop s fs)"
    using until_final_prefix [of messages] m by (auto simp: prefix_def) (metis append_eq_conv_conj take_take)
  have d: "downstream_pump buffered messages = take a fs @ drop (a - s) (take k (drop s fs))"
    using downstream_numbered [OF num, of a r s] b m u by (simp add: a_def min_def)
  have sub: "set (take (a - s) (take k (drop s fs))) \<subseteq> set (take a fs)" if "s \<le> a"
  proof -
    have "take (a - s) (drop s fs) = drop s (take a fs)" using that by (simp add: drop_take)
    then show ?thesis by (metis min.commute order_trans set_drop_subset set_take_subset take_take)
  qed
  have all: "set (until_final messages) \<subseteq> set (downstream_pump buffered messages)"
  proof (cases "s \<le> a")
    case True
    then show ?thesis
      using sub set_append [of "take (a - s) (take k (drop s fs))" "drop (a - s) (take k (drop s fs))"]
      unfolding d u append_take_drop_id by auto
  qed (simp add: d u)
  have "prefix (downstream_pump buffered messages) fs" if "s \<le> a"
  proof -
    have "drop (a - s) (take k (drop s fs)) = take (k - (a - s)) (drop a fs)"
      using that by (simp add: drop_take)
    then have "downstream_pump buffered messages = take (a + (k - (a - s))) fs"
      by (simp add: d take_add)
    then show ?thesis by (simp add: take_is_prefix)
  qed
  moreover have "length (published ?ch t1) = Suc a \<and>
      downstream_pump buffered messages = take a fs @ take k (drop (Suc a) fs)" if "\<not> s \<le> a"
  proof -
    have "s = Suc a" using sa that by simp
    moreover have "length (take s fs) = s" by (simp add: s_def)
    ultimately show ?thesis using d p1 by simp
  qed
  moreover have "set buffered \<subseteq> set (downstream_pump buffered messages)" unfolding d by (simp add: b)
  ultimately show ?thesis using all b len by (cases "s \<le> a") auto
qed


text \<open>Two frames, the first of them published before the client subscribes.\<close>

lemma two_frames:
  assumes "publish_all sf [c0, c1] (new_multiplexer sid) = (fs, cmds)"
  obtains f0 f1 where "fs = [f0, f1]"
    and "cmds = frame_commands sid f0 @ frame_commands sid f1"
proof -
  have mx: "mx_submission_id (new_multiplexer sid) = sid"
    "mx_channel (new_multiplexer sid) = get_stream_channel sid" by (simp_all add: new_multiplexer_def)
  obtain f0 f1 where "fs = [f0, f1]"
    using assms by (cases c0; cases c1) (auto simp: Let_def split_beta)
  moreover have "cmds = concat (map (frame_commands sid) fs)"
    using publish_all_commands [of "new_multiplexer sid" sf "[c0, c1]"] assms mx by simp
  ultimately show ?thesis using that by simp
qed

definition demo_chunks :: "(stream_chunk \<times> pstr) list" where
  "demo_chunks = [(chunk STDOUT (lit ''a''), lit ''t''), (chunk COMPLETE (lit ''b''), lit ''t'')]"

lemma demo_chunks_ok: "chunks_ok demo_chunks"
  by (simp add: chunks_ok_def demo_chunks_def)


text \<open>The one missing frame is a real possibility.  For any two chunks there is a run of the
  worker's commands, one subscription and one read of the buffer, all as Redis documents,
  in which the client is sent the second frame and never the first: the worker publishes a
  frame before it pushes it, and the client subscribes and reads in between.\<close>

lemma frame_can_be_lost:
  assumes "chunks_ok [c0, c1]" and "utf8_text sid"
    and "publish_all sf [c0, c1] (new_multiplexer sid) = (fs, cmds)"
  shows "\<exists>t1 t3 f0 f1. fs = [f0, f1] \<and> cmds = t1 @ [] @ t3 \<and>
           redis_ok sid t1 [] t3 [] [f1] \<and> downstream_pump [] [f1] = [f1] \<and> f0 \<noteq> f1"
proof -
  obtain f0 f1 where f: "fs = [f0, f1]" "cmds = frame_commands sid f0 @ frame_commands sid f1"
    using two_frames [OF assms(3)] by blast
  have "numbered 0 [f0, f1]"
    using publish_all_facts [of "new_multiplexer sid" "[c0, c1]" sf] assms f(1)
    by (simp add: new_multiplexer_def)
  then have n: "frame_seq f0 = Some (Fin 0)" "frame_seq f1 = Some (Fin 1)" "f1 \<noteq> []" by simp_all
  let ?t1 = "[PUBLISH (get_stream_channel sid) f0]"
  let ?t3 = "tl (frame_commands sid f0) @ frame_commands sid f1"
  have "cmds = ?t1 @ [] @ ?t3" by (simp add: f(2) frame_commands_def)
  moreover have "redis_ok sid ?t1 [] ?t3 [] [f1]" by (simp add: redis_ok_def frame_commands_def)
  moreover have "downstream_pump [] [f1] = [f1]"
    using n by (simp add: downstream_pump_def replay_buffer_def forward_frame_def live_loop.simps)
  moreover have "f0 \<noteq> f1" using n by auto
  ultimately show ?thesis using f(1) by blast
qed

lemma frame_can_be_lost_witness:
  "\<exists>t1 t3 f0 f1. redis_ok (lit ''s'') t1 [] t3 [] [f1] \<and> downstream_pump [] [f1] = [f1] \<and> f0 \<noteq> f1"
proof -
  obtain fs cmds where p: "publish_all (\<lambda>_. []) demo_chunks (new_multiplexer (lit ''s'')) = (fs, cmds)"
    by fastforce
  from frame_can_be_lost [OF demo_chunks_ok [unfolded demo_chunks_def] utf8_text_lit
      p [unfolded demo_chunks_def]]
  show ?thesis by blast
qed

text \<open>An error frame ends the live stream.  When a frame with event \<open>error\<close> arrives live,
  the pump stops after it, so the completion frame that the driver sends next, for instance
  after a failed compilation, never reaches the browser.\<close>

lemma error_frame_ends_stream:
  assumes "chunks_ok [(ck, ts), c1]" and "utf8_text sid" and "ck_event ck = ERROR"
    and "publish_all sf [(ck, ts), c1] (new_multiplexer sid) = (fs, cmds)"
  shows "downstream_pump [] fs = [hd fs] \<and> length fs = 2 \<and>
         redis_ok sid [] [] cmds [] fs"
proof -
  obtain f0 f1 where f: "fs = [f0, f1]" "cmds = frame_commands sid f0 @ frame_commands sid f1"
    using two_frames [OF assms(4)] by blast
  have "numbered 0 [f0, f1]" "frame_is_final f0"
    using publish_all_facts [of "new_multiplexer sid" "[(ck, ts), c1]" sf] assms f(1)
    by (simp_all add: new_multiplexer_def)
  then have "downstream_pump [] fs = [f0]"
    by (simp add: f(1) downstream_pump_def replay_buffer_def forward_frame_def live_loop.simps)
  then show ?thesis by (simp add: f redis_ok_def frame_commands_def)
qed

lemma error_frame_ends_stream_witness:
  "\<exists>fs. downstream_pump [] fs = [hd fs] \<and> length fs = 2"
proof -
  let ?c = "[(chunk ERROR (lit ''e''), lit ''t''), (chunk COMPLETE (lit ''c''), lit ''t'')]"
  have c: "chunks_ok ?c" "ck_event (chunk ERROR (lit ''e'')) = ERROR" by (simp_all add: chunks_ok_def)
  obtain fs cmds where p: "publish_all (\<lambda>_. []) ?c (new_multiplexer (lit ''s'')) = (fs, cmds)"
    by fastforce
  show ?thesis using error_frame_ends_stream [OF c(1) utf8_text_lit c(2) p] by blast
qed

end
