(* ===== verification/Worker_Tasks.thy ===== *)
theory Worker_Tasks
  imports Stream_Delivery
begin

text \<open>
  The worker's tasks (worker/tasks/execution.py): forwarding keystrokes and signals to the
  sandbox, running a request while its chunks are published, and collecting the final
  result from the stream.  The generator of the sandbox is given by what it yields, each
  chunk with its timestamp, and the exception it ends with, if any.  Every driver's
  \<open>COMPLETE\<close> chunk carries a JSON object or text that is not JSON, so other JSON values are
  not told apart from the latter.
\<close>

section \<open>Numbers read from JSON\<close>

text \<open>\<open>int(s)\<close> of a string, and \<open>int(v)\<close> of a JSON value; \<open>None\<close> is an exception.\<close>

definition py_int :: "pstr \<Rightarrow> int option" where
  "py_int s =
     (case drop_underscores 0 (map to_ascii_decimal (py_strip s)) of
        None \<Rightarrow> None
      | Some t \<Rightarrow>
          (let (neg, ds) = read_sign t
           in if ds \<noteq> [] \<and> list_all is_digit ds
              then Some (if neg then - digits_value ds else digits_value ds) else None))"

fun json_int :: "json \<Rightarrow> int option" where
  "json_int (JInt i) = Some i"
| "json_int (JBool b) = Some (of_bool b)"
| "json_int (JFloat (Fin x)) = Some (if 0 \<le> x then \<lfloor>x\<rfloor> else \<lceil>x\<rceil>)"
| "json_int (JStr s) = py_int s"
| "json_int _ = None"

definition dict_get :: "pstr \<Rightarrow> json \<Rightarrow> (pstr \<times> json) list \<Rightarrow> json" where
  "dict_get k d0 d = (case map_of d k of None \<Rightarrow> d0 | Some v \<Rightarrow> v)"

section \<open>Upstream input\<close>

datatype sandbox_action =
    Write_Stdin json | Resize_Terminal int int | Send_Signal int

text \<open>
  One message of the input channel: the call it causes, or none (the loop logs an exception
  and goes on).  \<open>signals\<close> looks a name up in Python's module \<open>signal\<close>; \<open>SIGINT\<close> is 2.
\<close>

definition handle_input_frame :: "(pstr \<Rightarrow> int option) \<Rightarrow> pstr \<Rightarrow> sandbox_action option" where
  "handle_input_frame signals raw_data =
     (if raw_data = [] then None
      else case loads raw_data of
        Some (JObj frame) \<Rightarrow>
          (let frame_type = map_of frame (lit ''type'')
           in if frame_type = Some (JStr (lit ''stdin'')) then
                Some (Write_Stdin (dict_get (lit ''data'') (JStr []) frame))
              else if frame_type = Some (JStr (lit ''resize'')) then
                (case (json_int (dict_get (lit ''cols'') (JInt 80) frame),
                       json_int (dict_get (lit ''rows'') (JInt 24) frame)) of
                   (Some cols, Some rows) \<Rightarrow> Some (Resize_Terminal cols rows)
                 | _ \<Rightarrow> None)
              else if frame_type = Some (JStr (lit ''signal'')) then
                (case dict_get (lit ''signal'') (JStr (lit ''SIGINT'')) frame of
                   JStr sig_name \<Rightarrow>
                     Some (Send_Signal (case signals sig_name of Some v \<Rightarrow> v | None \<Rightarrow> 2))
                 | _ \<Rightarrow> None)
              else None)
      | _ \<Rightarrow> None)"

text \<open>The messages of the channel in order.\<close>

definition consume_upstream_inputs :: "(pstr \<Rightarrow> int option) \<Rightarrow> pstr list \<Rightarrow> sandbox_action list" where
  "consume_upstream_inputs signals messages = List.map_filter (handle_input_frame signals) messages"

section \<open>Running and collecting\<close>

record collected =
  cl_multiplexer :: multiplexer
  cl_frames :: "pstr list"
  cl_commands :: "redis_cmd list"
  cl_stdout_parts :: "pstr list"
  cl_stderr_parts :: "pstr list"
  cl_final_payload :: "(pstr \<times> json) list"

definition start_collect :: "pstr \<Rightarrow> collected" where
  "start_collect submission_id =
     \<lparr>cl_multiplexer = new_multiplexer submission_id, cl_frames = [], cl_commands = [],
      cl_stdout_parts = [], cl_stderr_parts = [],
      cl_final_payload = status_payload ES_SYSTEM_ERROR None 0\<rparr>"

definition publish_collected ::
  "(pyfloat \<Rightarrow> pstr) \<Rightarrow> stream_chunk \<Rightarrow> pstr \<Rightarrow> collected \<Rightarrow> collected" where
  "publish_collected sf ck ts c =
     (let (frame, cmds, mx) = publish_chunk sf ck ts (cl_multiplexer c)
      in c\<lparr>cl_multiplexer := mx, cl_frames := cl_frames c @ [frame],
           cl_commands := cl_commands c @ cmds\<rparr>)"

text \<open>The body of the \<open>async for\<close>.\<close>

definition collect_chunk :: "(pyfloat \<Rightarrow> pstr) \<Rightarrow> stream_chunk \<times> pstr \<Rightarrow> collected \<Rightarrow> collected" where
  "collect_chunk sf x c =
     (let ck = fst x; c1 = publish_collected sf ck (snd x) c
      in case ck_event ck of
           STDOUT \<Rightarrow> c1\<lparr>cl_stdout_parts := cl_stdout_parts c1 @ [ck_data ck]\<rparr>
         | STDERR \<Rightarrow> c1\<lparr>cl_stderr_parts := cl_stderr_parts c1 @ [ck_data ck]\<rparr>
         | COMPLETE \<Rightarrow>
             (case loads (ck_data ck) of
                Some (JObj payload) \<Rightarrow> c1\<lparr>cl_final_payload := payload\<rparr>
              | _ \<Rightarrow> c1)
         | _ \<Rightarrow> c1)"

text \<open>The \<open>except\<close> branch: an error frame, and the status of the final payload.\<close>

definition collect_failure :: "(pyfloat \<Rightarrow> pstr) \<Rightarrow> pstr \<Rightarrow> py_exn \<Rightarrow> collected \<Rightarrow> collected" where
  "collect_failure sf ts exc c =
     (let c1 = publish_collected sf
                 (chunk ERROR (lit ''[SYSTEM ERROR: '' @ exn_str exc @ lit '']'')) ts c
      in c1\<lparr>cl_final_payload :=
             dict_set (lit ''error_message'') (JStr (exn_str exc))
               (dict_set (lit ''status'') (JStr (status_value ES_SYSTEM_ERROR)) (cl_final_payload c1))\<rparr>)"

record task_result =
  tr_submission_id :: pstr
  tr_status :: json
  tr_exit_code :: json
  tr_duration_ms :: json
  tr_oom_killed :: json
  tr_stdout :: pstr
  tr_stderr :: pstr

definition task_result_of :: "pstr \<Rightarrow> collected \<Rightarrow> task_result" where
  "task_result_of submission_id c =
     (let d = cl_final_payload c
      in \<lparr>tr_submission_id = submission_id,
          tr_status = dict_get (lit ''status'') (JStr (status_value ES_COMPLETED)) d,
          tr_exit_code = dict_get (lit ''exit_code'') JNull d,
          tr_duration_ms = dict_get (lit ''duration_ms'') (JInt 0) d,
          tr_oom_killed = dict_get (lit ''oom_killed'') (JBool False) d,
          tr_stdout = concat (cl_stdout_parts c), tr_stderr = concat (cl_stderr_parts c)\<rparr>)"

text \<open>What the generator yields, and the exception it ends with together with the time of it.\<close>

type_synonym generated = "(stream_chunk \<times> pstr) list \<times> (py_exn \<times> pstr) option"

definition stream_and_collect ::
  "(pyfloat \<Rightarrow> pstr) \<Rightarrow> pstr \<Rightarrow> generated \<Rightarrow> task_result \<times> pstr list \<times> redis_cmd list" where
  "stream_and_collect sf submission_id gen =
     (let c = fold (collect_chunk sf) (fst gen) (start_collect submission_id);
          c' = (case snd gen of None \<Rightarrow> c | Some (exc, ts) \<Rightarrow> collect_failure sf ts exc c)
      in (task_result_of submission_id c', cl_frames c', cl_commands c'))"

text \<open>\<open>execute_code\<close>: the request is validated before anything runs.\<close>

definition execute_code ::
  "(pyfloat \<Rightarrow> pstr) \<Rightarrow> (execution_request \<Rightarrow> generated) \<Rightarrow> pstr \<Rightarrow> execution_request
     \<Rightarrow> py_exn + (task_result \<times> pstr list \<times> redis_cmd list)" where
  "execute_code sf run submission_id rq =
     (case build_request rq of
        Inl exc \<Rightarrow> Inl exc
      | Inr request \<Rightarrow> Inr (stream_and_collect sf submission_id (run request)))"

text \<open>
  \<open>grade_code\<close>: the test cases are validated by pydantic, which is the argument \<open>make_case\<close>.
\<close>

fun make_cases :: "(json \<Rightarrow> py_exn + test_case_data) \<Rightarrow> json list \<Rightarrow> py_exn + test_case_data list" where
  "make_cases make_case [] = Inr []"
| "make_cases make_case (tc # tcs) =
     (case make_case tc of
        Inl exc \<Rightarrow> Inl exc
      | Inr x \<Rightarrow> (case make_cases make_case tcs of Inl exc \<Rightarrow> Inl exc | Inr xs \<Rightarrow> Inr (x # xs)))"

definition grade_code ::
  "formatting \<Rightarrow> (json \<Rightarrow> py_exn + test_case_data) \<Rightarrow> 'w driver \<Rightarrow> grading_job \<Rightarrow> json list option
     \<Rightarrow> pstr \<Rightarrow> 'w \<Rightarrow> (py_exn + grading_summary) \<times> 'w" where
  "grade_code fmt make_case exec job test_cases mode w =
     (case make_cases make_case (case test_cases of None \<Rightarrow> [] | Some tcs \<Rightarrow> tcs) of
        Inl exc \<Rightarrow> (Inl exc, w)
      | Inr tcs \<Rightarrow> evaluate_submission fmt exec (job\<lparr>gj_mode := mode_of_str mode\<rparr>) tcs w)"

section \<open>What is collected\<close>

text \<open>The texts of the chunks of one event.\<close>

definition texts_of :: "stream_event_type \<Rightarrow> (stream_chunk \<times> pstr) list \<Rightarrow> pstr list" where
  "texts_of e cks = map (\<lambda>x. ck_data (fst x)) (filter (\<lambda>x. ck_event (fst x) = e) cks)"

lemma texts_of_simps [simp]: "texts_of e [] = []"
  "texts_of e (x # cks) = (if ck_event (fst x) = e then ck_data (fst x) # texts_of e cks else texts_of e cks)"
  "texts_of e (as @ bs) = texts_of e as @ texts_of e bs"
  by (simp_all add: texts_of_def)

lemma collect_chunk_parts:
  "cl_stdout_parts (collect_chunk sf x c) = cl_stdout_parts c @ texts_of STDOUT [x]"
  "cl_stderr_parts (collect_chunk sf x c) = cl_stderr_parts c @ texts_of STDERR [x]"
  by (cases "ck_event (fst x)"; simp add: collect_chunk_def publish_collected_def Let_def split_beta
      split: option.split json.split)+

lemma fold_collect_parts:
  "cl_stdout_parts (fold (collect_chunk sf) cks c) = cl_stdout_parts c @ texts_of STDOUT cks"
  "cl_stderr_parts (fold (collect_chunk sf) cks c) = cl_stderr_parts c @ texts_of STDERR cks"
  by (induction cks arbitrary: c) (simp_all add: collect_chunk_parts)

lemma collect_chunk_payload:
  "ck_event (fst x) \<noteq> COMPLETE \<Longrightarrow> cl_final_payload (collect_chunk sf x c) = cl_final_payload c"
  by (cases "ck_event (fst x)") (simp_all add: collect_chunk_def publish_collected_def Let_def split_beta)

lemma fold_collect_payload:
  "no_complete (map fst cks) \<Longrightarrow> cl_final_payload (fold (collect_chunk sf) cks c) = cl_final_payload c"
  by (induction cks arbitrary: c) (simp_all add: collect_chunk_payload)

lemma collect_complete:
  "json_plain (JObj payload) \<Longrightarrow>
   cl_final_payload (collect_chunk sf (complete_chunk sf' payload, ts) c) = payload"
  by (simp add: collect_chunk_def complete_chunk_def Let_def loads_dumps del: dumps.simps json_plain.simps)

lemma collect_chunk_publishes:
  "cl_multiplexer (collect_chunk sf x c) = cl_multiplexer (publish_collected sf (fst x) (snd x) c)"
  "cl_frames (collect_chunk sf x c) = cl_frames (publish_collected sf (fst x) (snd x) c)"
  "cl_commands (collect_chunk sf x c) = cl_commands (publish_collected sf (fst x) (snd x) c)"
  by (cases "ck_event (fst x)"; simp add: collect_chunk_def Let_def split: option.split json.split)+

lemma fold_collect_publishes:
  "cl_frames (fold (collect_chunk sf) cks c) = cl_frames c @ fst (publish_all sf cks (cl_multiplexer c)) \<and>
   cl_commands (fold (collect_chunk sf) cks c) = cl_commands c @ snd (publish_all sf cks (cl_multiplexer c))"
proof (induction cks arbitrary: c)
  case (Cons x cks)
  then show ?case
    by (cases x) (simp add: collect_chunk_publishes publish_collected_def Let_def split_beta)
qed simp

lemma status_lookup:
  "dict_get (lit ''status'') d0 (status_payload st code ms @ extra) = JStr (status_value st)"
  "dict_get (lit ''exit_code'') d0 (status_payload st code ms @ extra) =
     (case code of None \<Rightarrow> JNull | Some k \<Rightarrow> JInt k)"
  "dict_get (lit ''duration_ms'') d0 (status_payload st code ms @ extra) = JInt ms"
  "dict_get (lit ''oom_killed'') d0 (status_payload st code ms @ extra) = JBool False"
  by (simp_all add: status_payload_def dict_get_def)

lemma payload_extra_plain:
  "extra_ok pre st extra \<Longrightarrow> list_all (\<lambda>x. utf8_text (ck_data x)) pre \<Longrightarrow>
   json_plain (JObj (status_payload st code ms @ extra))"
  using payload_plain [of st code ms]
  by (auto simp: extra_ok_def status_payload_def list_all_iff)

section \<open>Properties\<close>

text \<open>C19. The result a worker reports is the one its sandbox streamed.  For every stream of the
  subprocess driver whose chunks are valid text, the reported status, exit code and
  duration are those of the completion frame, the reported outputs are the concatenated
  output chunks, and every chunk is published, numbered from zero, before it is collected.\<close>

theorem collected_result_agrees:
  assumes "ends_complete (map fst cks)"
    and "list_all (\<lambda>x. utf8_text (ck_data (fst x))) cks"
    and "stream_and_collect sf sid (cks, None) = (r, frames, cmds)"
  shows "\<exists>sf' st code ms extra.
           fst (last cks) = complete_chunk sf' (status_payload st code ms @ extra) \<and>
           tr_status r = JStr (status_value st) \<and>
           tr_exit_code r = (case code of None \<Rightarrow> JNull | Some k \<Rightarrow> JInt k) \<and>
           tr_duration_ms r = JInt ms \<and>
           tr_stdout r = concat (texts_of STDOUT cks) \<and> tr_stderr r = concat (texts_of STDERR cks) \<and>
           publish_all sf cks (new_multiplexer sid) = (frames, cmds)"
proof -
  obtain sf' pre st code ms extra where
    m: "map fst cks = pre @ [complete_chunk sf' (status_payload st code ms @ extra)]"
      "no_complete pre" "extra_ok pre st extra"
    using assms(1) by (auto simp: ends_complete_def)
  then have "cks \<noteq> []" by auto
  then obtain cks' x where cks: "cks = cks' @ [x]" by (metis append_butlast_last_id)
  with m have x: "fst x = complete_chunk sf' (status_payload st code ms @ extra)"
    and pre: "map fst cks' = pre" by simp_all
  have "json_plain (JObj (status_payload st code ms @ extra))"
    by (rule payload_extra_plain [OF m(3)]) (use assms(2) cks pre in \<open>auto simp: list_all_iff\<close>)
  then have "cl_final_payload (fold (collect_chunk sf) cks (start_collect sid)) =
      status_payload st code ms @ extra"
    using collect_complete [of "status_payload st code ms @ extra" sf sf' "snd x"] x
    by (simp add: cks) (metis prod.collapse)
  moreover have "cl_multiplexer (start_collect sid) = new_multiplexer sid"
    "cl_frames (start_collect sid) = []" "cl_commands (start_collect sid) = []"
    "cl_stdout_parts (start_collect sid) = []" "cl_stderr_parts (start_collect sid) = []"
    by (simp_all add: start_collect_def)
  ultimately have "tr_status r = JStr (status_value st) \<and>
      tr_exit_code r = (case code of None \<Rightarrow> JNull | Some k \<Rightarrow> JInt k) \<and> tr_duration_ms r = JInt ms \<and>
      tr_stdout r = concat (texts_of STDOUT cks) \<and> tr_stderr r = concat (texts_of STDERR cks) \<and>
      publish_all sf cks (new_multiplexer sid) = (frames, cmds)"
    using assms(3) fold_collect_publishes [of sf cks "start_collect sid"]
    by (auto simp: stream_and_collect_def task_result_of_def Let_def status_lookup fold_collect_parts)
  then show ?thesis using x cks by (intro exI [of _ sf'] exI [of _ st] exI [of _ code] exI [of _ ms]
        exI [of _ extra]) simp
qed

theorem collected_result_agrees_witness:
  "\<exists>r frames cmds. stream_and_collect (\<lambda>_. []) (lit ''s'')
     ([(chunk STDOUT (lit ''hi''), lit ''t''),
       (complete_chunk (\<lambda>_. []) (status_payload ES_COMPLETED (Some 0) 3), lit ''t'')], None) =
       (r, frames, cmds) \<and> tr_stdout r = lit ''hi''"
proof -
  let ?c = "complete_chunk (\<lambda>_. []) (status_payload ES_COMPLETED (Some 0) 3)"
  let ?cks = "[(chunk STDOUT (lit ''hi''), lit ''t''), (?c, lit ''t'')]"
  have e: "ends_complete (map fst ?cks)"
    using ends_complete_append [OF _ ends_complete_single, of "[chunk STDOUT (lit ''hi'')]"] by simp
  have "utf8_text (ck_data ?c)"
    using dumps_text [OF payload_plain] by (simp add: complete_chunk_def del: dumps.simps)
  then have t: "list_all (\<lambda>x. utf8_text (ck_data (fst x))) ?cks" by simp
  obtain r frames cmds where r: "stream_and_collect (\<lambda>_. []) (lit ''s'') (?cks, None) = (r, frames, cmds)"
    by (metis prod_cases3)
  have "tr_stdout r = concat (texts_of STDOUT ?cks)"
    using collected_result_agrees [OF e t r] by blast
  also have "\<dots> = lit ''hi''" by (simp add: complete_chunk_def)
  finally show ?thesis using r by blast
qed

end
