(* ===== verification/Microvm_Sandbox.thy ===== *)
theory Microvm_Sandbox
  imports Process_Stream
begin

text \<open>
  The micro-VM driver (worker/sandbox/microvm_sandbox.py).  Its generator waits for the
  guest process and then reads both pipes, so it is a function of the host; \<open>execute\<close> folds
  over what it yields.  The nested \<open>read_stream\<close> and \<open>monitor_output\<close> and the method
  \<open>_consume_to_list\<close> are never called by the code, so the consumer inside the generator
  stays as it was created.
\<close>

section \<open>Capabilities\<close>

record platform =
  pf_linux :: bool
  pf_kvm_exists :: bool
  pf_kvm_access :: bool
  pf_firecracker :: bool

definition is_kvm_available :: "platform \<Rightarrow> bool" where
  "is_kvm_available pf = (if \<not> pf_linux pf then False else pf_kvm_exists pf \<and> pf_kvm_access pf)"

definition is_firecracker_installed :: "platform \<Rightarrow> bool" where
  "is_firecracker_installed pf = pf_firecracker pf"

definition virtualization_backend :: "platform \<Rightarrow> pstr" where
  "virtualization_backend pf =
     (if is_kvm_available pf \<and> is_firecracker_installed pf then lit ''KVM_FIRECRACKER_HARDWARE''
      else if is_kvm_available pf then lit ''KVM_DIRECT_DEVICE''
      else lit ''HARDWARE_EMULATED_SANDBOX'')"

record microvm =
  vm_vcpus :: int
  vm_mem_size_mib :: int
  vm_backend :: pstr

definition new_microvm :: "platform \<Rightarrow> int \<Rightarrow> int \<Rightarrow> microvm" where
  "new_microvm pf vcpus mem_size_mib =
     \<lparr>vm_vcpus = vcpus, vm_mem_size_mib = mem_size_mib, vm_backend = virtualization_backend pf\<rparr>"

section \<open>Streaming\<close>

text \<open>\<open>vh_wait_and_read\<close>: wait for the process under the watchdog, then read both pipes.\<close>

record 'w vm_host = "'w stream_host" +
  vh_wait_and_read :: "'w \<Rightarrow> pyfloat \<Rightarrow> run_outcome \<times> 'w"

text \<open>What a generator yields, and the exception that ends it.\<close>

type_synonym yielded = "stream_chunk list \<times> py_exn option"

text \<open>A quotation mark, and the completion frames, which the code writes as f-strings.\<close>

definition json_field :: "string \<Rightarrow> pstr \<Rightarrow> pstr" where
  "json_field k v = 34 # lit k @ 34 # 58 # 32 # v"

definition vm_complete :: "execution_status \<Rightarrow> pstr \<Rightarrow> int option \<Rightarrow> stream_chunk" where
  "vm_complete st exit_code duration_ms =
     chunk COMPLETE
       (123 # json_field ''status'' (34 # status_value st @ [34]) @ [44, 32] @
        json_field ''exit_code'' exit_code @
        (case duration_ms of
           None \<Rightarrow> []
         | Some ms \<Rightarrow> [44, 32] @ json_field ''duration_ms'' (show_int ms)) @ [125])"

definition vm_compile ::
  "'w vm_host \<Rightarrow> language_strategy \<Rightarrow> pstr \<Rightarrow> pstr \<Rightarrow> 'w \<Rightarrow> (stream_chunk list + pstr) \<times> 'w" where
  "vm_compile ho strategy source_file binary_file w =
     (let failed = (\<lambda>m. [chunk ERROR (lit ''Micro-VM compiler invocation failed: '' @ m)])
      in case ho_compile ho w (ls_compile_command strategy source_file binary_file) of
           (Compile_Exit code out err, w') \<Rightarrow>
             if code \<noteq> 0 then
               (Inl [chunk STATUS (lit ''COMPILE_ERROR: '' @ compiler_text out err),
                     vm_complete ES_COMPILE_ERROR (show_int code) None], w')
             else (Inr binary_file, w')
         | (Compiler_Not_Found fnf, w') \<Rightarrow> (Inl (failed fnf), w')
         | (Compile_Timeout, w') \<Rightarrow> (Inl (failed []), w')
         | (Compile_Raised exc, w') \<Rightarrow> (Inl (failed (exn_str exc)), w'))"

text \<open>Spawning the guest with its input; the exception is caught by the caller.\<close>

definition vm_spawn ::
  "'w vm_host \<Rightarrow> execution_request \<Rightarrow> pstr list \<Rightarrow> 'w \<Rightarrow> py_exn option \<times> 'w" where
  "vm_spawn ho rq cmd w =
     (case ho_spawn ho w cmd (opt_truthy (rq_stdin_data rq)) of
        (Some exc, w1) \<Rightarrow> (Some exc, w1)
      | (None, w1) \<Rightarrow>
          if opt_truthy (rq_stdin_data rq) then
            (case encode_utf8 (the (rq_stdin_data rq)) of
               Inl exc \<Rightarrow> (Some exc, w1)
             | Inr data \<Rightarrow> sh_feed_stdin ho w1 data)
          else (None, w1))"

definition vm_error :: "py_exn \<Rightarrow> stream_chunk" where
  "vm_error exc = chunk ERROR (lit ''Micro-VM execution error: '' @ exn_str exc)"

text \<open>The run under the watchdog and what is read from the pipes afterwards.\<close>

definition vm_harvest :: "'w vm_host \<Rightarrow> execution_request \<Rightarrow> 'w \<Rightarrow> stream_chunk list \<times> 'w" where
  "vm_harvest ho rq w1 =
     (case vh_wait_and_read ho w1 (rq_timeout_seconds rq) of
        (Run_Raised exc, w2) \<Rightarrow> ([vm_error exc], w2)
      | (Run_Timeout, w2) \<Rightarrow>
          ([chunk STATUS (lit ''TIME_LIMIT_EXCEEDED: Micro-VM watchdog deadline expired.''),
            vm_complete ES_TIME_LIMIT_EXCEEDED (lit ''-9'') None], ho_kill ho w2)
      | (Run_Exit code out err, w2) \<Rightarrow>
          ((if out \<noteq> [] then [chunk STDOUT (decode_utf8 out)] else []) @
           (if err \<noteq> [] then [chunk STDERR (decode_utf8 err)] else []) @
           [vm_complete (if code = 0 then ES_COMPLETED else ES_RUNTIME_ERROR) (show_int code)
              (Some (ho_elapsed_ms ho w2))], w2))"

definition vm_guest ::
  "microvm \<Rightarrow> 'w vm_host \<Rightarrow> execution_request \<Rightarrow> pstr list \<Rightarrow> 'w \<Rightarrow> stream_chunk list \<times> 'w" where
  "vm_guest vm ho rq cmd w =
     (let init = chunk STATUS (lit ''[Micro-VM Isolation initialized: backend='' @ vm_backend vm @
                   lit '', vCPUs='' @ show_int (vm_vcpus vm) @ lit '', mem='' @
                   show_int (vm_mem_size_mib vm) @ lit ''MB]'')
      in case vm_spawn ho rq cmd w of
           (Some exc, w1) \<Rightarrow> ([init, vm_error exc], w1)
         | (None, w1) \<Rightarrow> apfst ((#) init) (vm_harvest ho rq w1))"

definition vm_stream ::
  "microvm \<Rightarrow> 'w vm_host \<Rightarrow> registry \<Rightarrow> execution_request \<Rightarrow> 'w \<Rightarrow> yielded \<times> 'w" where
  "vm_stream vm ho reg rq w =
     (case fst (get_strategy (ho_python ho) (rq_language rq) reg) of
        Inl exc \<Rightarrow> (([], Some exc), w)
      | Inr strategy \<Rightarrow>
          (case ho_make_temp ho w of
             (Inl exc, w1) \<Rightarrow> (([], Some exc), w1)
           | (Inr dir, w1) \<Rightarrow>
               (let base = host.truncate ho;
                    source_file = path_join base dir (lit ''solution'' @ ls_file_extension strategy);
                    binary_file = path_join base dir (binary_name base)
                in case encode_utf8 (rq_source_code rq) of
                     Inl exc \<Rightarrow> (([], Some exc), ho_cleanup ho w1)
                   | Inr source \<Rightarrow>
                       (case ho_write_file ho w1 source_file source of
                          (Some exc, w2) \<Rightarrow> (([], Some exc), ho_cleanup ho w2)
                        | (None, w2) \<Rightarrow>
                            (case (if ls_is_compiled strategy
                                   then vm_compile ho strategy source_file binary_file w2
                                   else (Inr source_file, w2)) of
                               (Inl chunks, w3) \<Rightarrow> ((chunks, None), ho_cleanup ho w3)
                             | (Inr target, w3) \<Rightarrow>
                                 (case vm_guest vm ho rq (ls_execution_command strategy target) w3 of
                                    (chunks, w4) \<Rightarrow> ((chunks, None), ho_cleanup ho w4)))))))"

section \<open>Execution to completion\<close>

text \<open>\<open>needle in haystack\<close>\<close>

fun py_contains :: "pstr \<Rightarrow> pstr \<Rightarrow> bool" where
  "py_contains needle [] = (needle = [])"
| "py_contains needle (c # cs) = (take (length needle) (c # cs) = needle \<or> py_contains needle cs)"

record vm_accumulator =
  va_consumer :: stream_consumer
  va_status :: execution_status
  va_error_msg :: "pstr option"
  va_compile_out :: pstr

definition vm_accumulate :: "stream_chunk \<Rightarrow> vm_accumulator \<Rightarrow> vm_accumulator" where
  "vm_accumulate ck a =
     (let data = ck_data ck
      in case ck_event ck of
           STDOUT \<Rightarrow> a\<lparr>va_consumer := snd (consume_stdout data (va_consumer a))\<rparr>
         | STDERR \<Rightarrow> a\<lparr>va_consumer := snd (consume_stderr data (va_consumer a))\<rparr>
         | ERROR \<Rightarrow> a\<lparr>va_error_msg := Some data, va_status := ES_RUNTIME_ERROR\<rparr>
         | STATUS \<Rightarrow>
             if py_contains (lit ''COMPILE_ERROR'') data then
               a\<lparr>va_status := ES_COMPILE_ERROR, va_compile_out := data\<rparr>
             else if py_contains (lit ''TIME_LIMIT_EXCEEDED'') data then
               a\<lparr>va_status := ES_TIME_LIMIT_EXCEEDED\<rparr>
             else if py_contains (lit ''MEMORY_LIMIT_EXCEEDED'') data then
               a\<lparr>va_status := ES_MEMORY_LIMIT_EXCEEDED\<rparr>
             else a
         | COMPLETE \<Rightarrow> a)"

definition vm_execute :: "microvm \<Rightarrow> 'w vm_host \<Rightarrow> registry \<Rightarrow> 'w driver" where
  "vm_execute vm ho reg w rq =
     (case vm_stream vm ho reg rq w of
        ((chunks, Some exc), w') \<Rightarrow> (Inl exc, w')
      | ((chunks, None), w') \<Rightarrow>
          (let a = fold vm_accumulate chunks
                     \<lparr>va_consumer = new_consumer (rq_max_output_bytes rq), va_status = ES_COMPLETED,
                      va_error_msg = None, va_compile_out = []\<rparr>
           in (Inr \<lparr>rs_status = va_status a, rs_exit_code = Some 0,
                    rs_stdout = get_full_stdout (va_consumer a),
                    rs_stderr = get_full_stderr (va_consumer a),
                    rs_execution_time_ms = ho_elapsed_ms ho w', rs_peak_memory_bytes = None,
                    rs_error_message = va_error_msg a, rs_compile_output = va_compile_out a\<rparr>, w')))"

section \<open>The driver keeps the output contract\<close>

text \<open>Every chunk of standard output a driver yields is valid text.\<close>

definition texts_ok :: "stream_chunk list \<Rightarrow> bool" where
  "texts_ok cs \<longleftrightarrow> list_all (\<lambda>x. ck_event x = STDOUT \<longrightarrow> utf8_text (ck_data x)) cs"

lemma texts_ok_simps [simp]: "texts_ok []" "texts_ok (as @ bs) \<longleftrightarrow> texts_ok as \<and> texts_ok bs"
  "texts_ok (x # cs) \<longleftrightarrow> (ck_event x = STDOUT \<longrightarrow> utf8_text (ck_data x)) \<and> texts_ok cs"
  by (simp_all add: texts_ok_def)

lemma vm_complete_event [simp]: "ck_event (vm_complete st e d) = COMPLETE"
  by (simp add: vm_complete_def)

lemma vm_compile_texts: "vm_compile ho strategy src bin w = (Inl chunks, w') \<Longrightarrow> texts_ok chunks"
  by (auto simp: vm_compile_def Let_def split: prod.splits compile_outcome.splits if_splits)

lemma vm_guest_texts: "texts_ok (fst (vm_guest vm ho rq cmd w))"
  by (simp add: vm_guest_def vm_harvest_def vm_error_def Let_def split: prod.split option.split run_outcome.split)

lemma vm_stream_cases:
  obtains exc w' where "vm_stream vm ho reg rq w = (([], Some exc), w')"
  | chunks w' where "vm_stream vm ho reg rq w = ((chunks, None), w')" and "texts_ok chunks"
proof -
  have "\<exists>exc w' chunks. vm_stream vm ho reg rq w = (([], Some exc), w') \<or>
      vm_stream vm ho reg rq w = ((chunks, None), w') \<and> texts_ok chunks"
  proof (cases "fst (get_strategy (ho_python ho) (rq_language rq) reg)")
    case (Inl exc)
    then show ?thesis by (simp add: vm_stream_def)
  next
    case (Inr strategy)
    note g = this
    obtain d w1 where m: "ho_make_temp ho w = (d, w1)" by fastforce
    show ?thesis
    proof (cases d)
      case (Inl exc)
      with g m show ?thesis by (simp add: vm_stream_def)
    next
      case (Inr dir)
      let ?src = "path_join (host.truncate ho) dir (lit ''solution'' @ ls_file_extension strategy)"
      let ?bin = "path_join (host.truncate ho) dir (binary_name (host.truncate ho))"
      note gm = g m Inr
      show ?thesis
      proof (cases "encode_utf8 (rq_source_code rq)")
        case (Inl exc)
        with gm show ?thesis by (simp add: vm_stream_def)
      next
        case (Inr source)
        obtain e w2 where f: "ho_write_file ho w1 ?src source = (e, w2)" by fastforce
        obtain c w3 where c: "(if ls_is_compiled strategy then vm_compile ho strategy ?src ?bin w2
            else (Inr ?src, w2)) = (c, w3)" by fastforce
        show ?thesis
        proof (cases e)
          case (Some exc)
          with gm Inr f show ?thesis by (simp add: vm_stream_def)
        next
          case None
          show ?thesis
          proof (cases c)
            case (Inl chunks)
            then have "texts_ok chunks" using c vm_compile_texts by (metis old.prod.inject sum.distinct(1))
            with gm Inr f None c Inl show ?thesis by (auto simp: vm_stream_def)
          next
            case (Inr target)
            obtain chunks w4 where "vm_guest vm ho rq (ls_execution_command strategy target) w3 = (chunks, w4)"
              by fastforce
            with gm \<open>encode_utf8 (rq_source_code rq) = Inr source\<close> f None c Inr
              vm_guest_texts [of vm ho rq "ls_execution_command strategy target" w3]
            show ?thesis by (auto simp: vm_stream_def)
          qed
        qed
      qed
    qed
  qed
  then show ?thesis using that by blast
qed

lemma vm_accumulate_inv:
  "(ck_event ck = STDOUT \<longrightarrow> utf8_text (ck_data ck)) \<Longrightarrow> consumer_inv (va_consumer a) \<Longrightarrow>
   consumer_inv (va_consumer (vm_accumulate ck a)) \<and>
   sc_max_bytes (va_consumer (vm_accumulate ck a)) = sc_max_bytes (va_consumer a)"
  using consume_max [of "Out (ck_data ck)" "va_consumer a"]
    consume_max [of "Err (ck_data ck)" "va_consumer a"]
  by (cases "ck_event ck") (auto simp: vm_accumulate_def Let_def consume_stdout_inv consume_stderr_inv)

lemma fold_accumulate_inv:
  "texts_ok cs \<Longrightarrow> consumer_inv (va_consumer a) \<Longrightarrow>
   consumer_inv (va_consumer (fold vm_accumulate cs a)) \<and>
   sc_max_bytes (va_consumer (fold vm_accumulate cs a)) = sc_max_bytes (va_consumer a)"
  by (induction cs arbitrary: a) (simp_all add: vm_accumulate_inv)

lemma vm_output_ok: "fst (vm_execute vm ho reg w rq) = Inr r \<Longrightarrow> output_ok rq r"
proof (rule vm_stream_cases [of vm ho reg rq w])
  fix chunks w'
  assume r: "fst (vm_execute vm ho reg w rq) = Inr r"
    and s: "vm_stream vm ho reg rq w = ((chunks, None), w')" "texts_ok chunks"
  let ?a = "\<lparr>va_consumer = new_consumer (rq_max_output_bytes rq), va_status = ES_COMPLETED,
             va_error_msg = None, va_compile_out = []\<rparr>"
  have "consumer_inv (va_consumer (fold vm_accumulate chunks ?a)) \<and>
      sc_max_bytes (va_consumer (fold vm_accumulate chunks ?a)) = rq_max_output_bytes rq"
    using fold_accumulate_inv [OF s(2), of ?a] by simp
  then show "output_ok rq r"
    using r s(1) inv_stdout by (auto simp: vm_execute_def output_ok_def Let_def) metis
qed (simp add: vm_execute_def)

interpretation microvm_driver: sandbox_driver "vm_execute vm ho reg" for vm ho reg
  by unfold_locales (rule vm_output_ok)

section \<open>The exit code is lost\<close>

text \<open>Two neighbouring characters of a needle are neighbours in every text that contains it.\<close>

fun adjacent :: "nat \<Rightarrow> nat \<Rightarrow> pstr \<Rightarrow> bool" where
  "adjacent x y (a # b # s) = (a = x \<and> b = y \<or> adjacent x y (b # s))"
| "adjacent x y s = False"

lemma adjacent_Cons: "adjacent x y (a # s) \<longleftrightarrow> s \<noteq> [] \<and> a = x \<and> hd s = y \<or> adjacent x y s"
  by (cases s) auto

lemma adjacent_append:
  "adjacent x y (s @ t) \<longleftrightarrow>
     adjacent x y s \<or> adjacent x y t \<or> s \<noteq> [] \<and> t \<noteq> [] \<and> last s = x \<and> hd t = y"
  by (induction s) (auto simp: adjacent_Cons)

lemma py_contains_adjacent: "py_contains needle s \<Longrightarrow> adjacent x y needle \<Longrightarrow> adjacent x y s"
proof (induction s)
  case (Cons c cs)
  show ?case
  proof (cases "take (length needle) (c # cs) = needle")
    case True
    then have "c # cs = needle @ drop (length needle) (c # cs)"
      by (metis append_take_drop_id)
    then show ?thesis using Cons.prems(2) adjacent_append by metis
  next
    case False
    then have "adjacent x y cs" using Cons by simp
    then show ?thesis by (cases cs) simp_all
  qed
qed simp

text \<open>The initial status message announces no failure.\<close>

definition vm_banner :: "microvm \<Rightarrow> pstr" where
  "vm_banner vm =
     lit ''[Micro-VM Isolation initialized: backend='' @ vm_backend vm @ lit '', vCPUs='' @
     show_int (vm_vcpus vm) @ lit '', mem='' @ show_int (vm_mem_size_mib vm) @ lit ''MB]''"

lemma show_int_chars: "c \<in> set (show_int i) \<Longrightarrow> c = 45 \<or> 48 \<le> c \<and> c \<le> 57"
  by (auto simp: show_int_def dest: show_nat_digits split: if_splits)

lemma show_int_not_adjacent: "57 < x \<Longrightarrow> \<not> adjacent x y (show_int i)"
proof -
  have "adjacent x y s \<Longrightarrow> x \<in> set s" for s by (induction x y s rule: adjacent.induct) auto
  then show "57 < x \<Longrightarrow> \<not> adjacent x y (show_int i)" using show_int_chars by fastforce
qed

lemma virtualization_backend_shape:
  "\<not> adjacent 82 82 (virtualization_backend pf) \<and> \<not> adjacent 84 73 (virtualization_backend pf) \<and>
   \<not> adjacent 82 89 (virtualization_backend pf) \<and> virtualization_backend pf \<noteq> [] \<and>
   hd (virtualization_backend pf) \<noteq> 82 \<and> hd (virtualization_backend pf) \<noteq> 73 \<and> hd (virtualization_backend pf) \<noteq> 89"
  by (cases "is_kvm_available pf"; cases "is_firecracker_installed pf")
    (simp_all add: virtualization_backend_def lit_def)

lemma vm_banner_not_adjacent:
  "\<not> adjacent 82 82 (vm_banner (new_microvm pf vcpus mem))"
  "\<not> adjacent 84 73 (vm_banner (new_microvm pf vcpus mem))"
  "\<not> adjacent 82 89 (vm_banner (new_microvm pf vcpus mem))"
  using virtualization_backend_shape [of pf]
  by (simp_all add: vm_banner_def new_microvm_def adjacent_append adjacent_Cons hd_append
      show_int_not_adjacent lit_def)

lemma vm_banner_silent:
  "vm_accumulate (chunk STATUS (vm_banner (new_microvm pf vcpus mem))) a = a"
proof -
  let ?b = "vm_banner (new_microvm pf vcpus mem)"
  have "\<not> py_contains (lit ''COMPILE_ERROR'') ?b"
    using py_contains_adjacent [of "lit ''COMPILE_ERROR''" ?b 82 82] vm_banner_not_adjacent(1)
    by (auto simp: lit_def)
  moreover have "\<not> py_contains (lit ''TIME_LIMIT_EXCEEDED'') ?b"
    using py_contains_adjacent [of "lit ''TIME_LIMIT_EXCEEDED''" ?b 84 73] vm_banner_not_adjacent(2)
    by (auto simp: lit_def)
  moreover have "\<not> py_contains (lit ''MEMORY_LIMIT_EXCEEDED'') ?b"
    using py_contains_adjacent [of "lit ''MEMORY_LIMIT_EXCEEDED''" ?b 82 89] vm_banner_not_adjacent(3)
    by (auto simp: lit_def)
  ultimately show ?thesis by (simp add: vm_accumulate_def)
qed

lemma accumulate_status [simp]:
  "va_status (vm_accumulate (chunk STDOUT x) a) = va_status a"
  "va_status (vm_accumulate (chunk STDERR x) a) = va_status a"
  "vm_accumulate (vm_complete st e d) a = a"
  by (simp_all add: vm_accumulate_def vm_complete_def Let_def)

text \<open>A guest that was started and ended with an exit code, for an interpreted language.\<close>

definition guest_exited ::
  "microvm \<Rightarrow> 'w vm_host \<Rightarrow> registry \<Rightarrow> execution_request \<Rightarrow> 'w \<Rightarrow> int \<Rightarrow> bytes \<Rightarrow> bytes \<Rightarrow> 'w \<Rightarrow> bool" where
  "guest_exited vm ho reg rq w code out err w' \<longleftrightarrow>
     (\<exists>strategy dir w1 w2 w3.
        fst (get_strategy (ho_python ho) (rq_language rq) reg) = Inr strategy \<and>
        \<not> ls_is_compiled strategy \<and> ho_make_temp ho w = (Inr dir, w1) \<and>
        utf8_text (rq_source_code rq) \<and>
        ho_write_file ho w1 (path_join (host.truncate ho) dir (lit ''solution'' @ ls_file_extension strategy))
          (utf8_encode (rq_source_code rq)) = (None, w2) \<and>
        vm_spawn ho rq (ls_execution_command strategy
          (path_join (host.truncate ho) dir (lit ''solution'' @ ls_file_extension strategy))) w2 = (None, w3) \<and>
        vh_wait_and_read ho w3 (rq_timeout_seconds rq) = (Run_Exit code out err, w'))"

lemma guest_exited_stream:
  assumes "guest_exited vm ho reg rq w code out err w'"
  shows "vm_stream vm ho reg rq w =
    ((chunk STATUS (vm_banner vm) #
      (if out \<noteq> [] then [chunk STDOUT (decode_utf8 out)] else []) @
      (if err \<noteq> [] then [chunk STDERR (decode_utf8 err)] else []) @
      [vm_complete (if code = 0 then ES_COMPLETED else ES_RUNTIME_ERROR) (show_int code)
         (Some (ho_elapsed_ms ho w'))], None), ho_cleanup ho w')"
  using assms
  by (auto simp: guest_exited_def vm_stream_def vm_guest_def vm_harvest_def vm_banner_def
      encode_utf8_def Let_def)

section \<open>Properties\<close>

text \<open>The micro-VM driver hides how a program ended: whatever exit code the guest process
  returned, \<open>execute\<close> reports \<open>COMPLETED\<close> with exit code 0, although the stream it folds over
  says \<open>RUNTIME_ERROR\<close>; so the autograder never treats such a run as crashed.\<close>

lemma microvm_hides_exit_code:
  assumes "vm = new_microvm pf vcpus mem" and "guest_exited vm ho reg rq w code out err w'"
  shows "\<exists>r. vm_execute vm ho reg w rq = (Inr r, ho_cleanup ho w') \<and>
           rs_status r = ES_COMPLETED \<and> rs_exit_code r = Some 0 \<and> \<not> crashed r"
  using guest_exited_stream [OF assms(2)]
  by (simp add: vm_execute_def Let_def assms(1) vm_banner_silent crashed_def)

text \<open>A host whose guests end with exit code 3.\<close>

definition failing_vm_host :: "nat vm_host" where
  "failing_vm_host =
     stream_host.extend (host.extend (demo_host Run_Timeout)
        \<lparr>sh_feed_stdin = (\<lambda>w _. (None, w)), sh_wait = (\<lambda>w. (Some 0, w))\<rparr>)
       \<lparr>vh_wait_and_read = (\<lambda>w _. (Run_Exit 3 [] [], w))\<rparr>"

lemma microvm_hides_exit_code_witness:
  "\<exists>r. vm_execute (new_microvm \<lparr>pf_linux = False, pf_kvm_exists = False, pf_kvm_access = False,
        pf_firecracker = False\<rparr> 1 128) failing_vm_host (imported_registry (lit ''python3'')) 0
        (default_request (lit ''x'')) = (Inr r, 4) \<and> rs_exit_code r = Some 0"
proof -
  let ?vm = "new_microvm \<lparr>pf_linux = False, pf_kvm_exists = False, pf_kvm_access = False,
      pf_firecracker = False\<rparr> 1 128"
  have h: "ho_python failing_vm_host = lit ''python3''"
    "ho_make_temp failing_vm_host 0 = (Inr (lit ''/tmp/t''), 1)"
    "\<And>p b. ho_write_file failing_vm_host 1 p b = (None, 2)"
    "\<And>c i. ho_spawn failing_vm_host 2 c i = (None, 3)"
    "\<And>t. vh_wait_and_read failing_vm_host 3 t = (Run_Exit 3 [] [], 3)"
    "ho_cleanup failing_vm_host 3 = 4"
    by (simp_all add: failing_vm_host_def demo_host_def host.defs stream_host.defs)
  let ?st = "python_strategy (lit ''python3'')"
  let ?src = "path_join (host.truncate failing_vm_host) (lit ''/tmp/t'')
      (lit ''solution'' @ ls_file_extension ?st)"
  have "fst (get_strategy (ho_python failing_vm_host) (rq_language (default_request (lit ''x'')))
      (imported_registry (lit ''python3''))) = Inr ?st"
    using demo_python by (simp add: h default_request_def)
  moreover have "\<not> ls_is_compiled ?st" by (simp add: python_strategy_def)
  moreover have "utf8_text (rq_source_code (default_request (lit ''x'')))"
    by (simp add: default_request_def lit_def scalar_def is_surrogate_def)
  moreover have "vm_spawn failing_vm_host (default_request (lit ''x'')) (ls_execution_command ?st ?src) 2
      = (None, 3)"
    by (simp add: vm_spawn_def h default_request_def)
  ultimately have "guest_exited ?vm failing_vm_host (imported_registry (lit ''python3''))
      (default_request (lit ''x'')) 0 3 [] [] 3"
    unfolding guest_exited_def
    by (intro exI [of _ ?st] exI [of _ "lit ''/tmp/t''"] exI [of _ 1] exI [of _ 2] exI [of _ 3] conjI)
      (assumption | rule h)+
  from microvm_hides_exit_code [OF refl this] h(6) show ?thesis by auto
qed

end
