(* ===== verification/Docker_Sandbox.thy ===== *)
theory Docker_Sandbox
  imports Microvm_Sandbox
begin

text \<open>
  The container driver (worker/sandbox/docker_sandbox.py).  The Docker daemon is the record
  \<open>docker_host\<close>; the thread that reads the container's socket is seen through the chunks it
  has put into the log queue at each turn of the polling loop.  \<open>dh_turns\<close> gives the turns
  of that loop that begin before the deadline; the clock advances, so the turn after them
  finds the deadline passed.
\<close>

section \<open>The daemon\<close>

datatype docker_exn = Docker_Error pstr | Not_Docker py_exn

text \<open>The options \<open>containers.create\<close> is called with.\<close>

record container_options =
  co_image :: pstr
  co_command :: "pstr list"
  co_stdin_open :: bool
  co_tty :: bool
  co_network_mode :: pstr
  co_read_only :: bool
  co_tmpfs :: "(pstr \<times> pstr) list"
  co_user :: pstr
  co_cap_drop :: "pstr list"
  co_security_opt :: "pstr list"
  co_mem_limit :: pstr
  co_memswap_limit :: pstr
  co_cpu_period :: int
  co_cpu_quota :: int
  co_pids_limit :: int
  co_labels :: "(pstr \<times> pstr) list"
  co_environment :: "(pstr \<times> pstr) list"

text \<open>The \<open>State\<close> dictionary of a container; a missing key is \<open>None\<close>.\<close>

record container_state =
  is_running :: "bool option"
  is_exit_code :: "int option"
  is_oom_killed :: "bool option"

text \<open>
  One turn of the loop: what reached the queue before it is drained, what \<open>reload\<close> gave
  (\<open>None\<close>: it raised, which is suppressed), and what reached the queue before \<open>empty\<close> is
  asked again.
\<close>

record poll_turn =
  pt_arrived :: "bytes option list"
  pt_reload :: "container_state option"
  pt_late :: "bytes option list"

record 'w docker_host =
  dh_create :: "'w \<Rightarrow> container_options \<Rightarrow> docker_exn option \<times> 'w"
  dh_attach :: "'w \<Rightarrow> docker_exn option \<times> 'w"
  dh_start :: "'w \<Rightarrow> docker_exn option \<times> 'w"
  dh_send :: "'w \<Rightarrow> bytes \<Rightarrow> 'w"
  dh_turns :: "'w \<Rightarrow> pyfloat \<Rightarrow> poll_turn list \<times> 'w"
  dh_rest :: "'w \<Rightarrow> bytes option list"
  dh_kill :: "'w \<Rightarrow> 'w"
  dh_inspect :: "'w \<Rightarrow> (docker_exn + container_state) \<times> 'w"
  dh_remove :: "'w \<Rightarrow> 'w"
  dh_elapsed_ms :: "'w \<Rightarrow> int"

section \<open>Creating and starting the container\<close>

fun json_truthy :: "json \<Rightarrow> bool" where
  "json_truthy JNull = False"
| "json_truthy (JBool b) = b"
| "json_truthy (JInt i) = (i \<noteq> 0)"
| "json_truthy (JFloat x) = (x \<noteq> Fin 0)"
| "json_truthy (JStr s) = (s \<noteq> [])"
| "json_truthy (JArr xs) = (xs \<noteq> [])"
| "json_truthy (JObj kvs) = (kvs \<noteq> [])"

definition security_opt :: "(pyfloat \<Rightarrow> pstr) \<Rightarrow> json option \<Rightarrow> pstr list" where
  "security_opt sf seccomp_profile =
     lit ''no-new-privileges:true'' #
     (case seccomp_profile of
        Some p \<Rightarrow> if json_truthy p then [lit ''seccomp='' @ dumps sf p] else []
      | None \<Rightarrow> [])"

definition container_options_of ::
  "(pyfloat \<Rightarrow> pstr) \<Rightarrow> json option \<Rightarrow> execution_request \<Rightarrow> container_options" where
  "container_options_of sf seccomp_profile rq =
     \<lparr>co_image = lit ''lab-sandbox-'' @ rq_language rq @ lit '':3.11'',
      co_command = [lit ''python3'', lit ''-u'', lit ''-B'', lit ''-c'', rq_source_code rq],
      co_stdin_open = True, co_tty = True, co_network_mode = lit ''none'', co_read_only = True,
      co_tmpfs = [(lit ''/tmp'', lit ''rw,noexec,nosuid,size=16m'')], co_user = lit ''1001:1001'',
      co_cap_drop = [lit ''ALL''], co_security_opt = security_opt sf seccomp_profile,
      co_mem_limit = rq_memory_limit rq, co_memswap_limit = rq_memory_limit rq,
      co_cpu_period = 100000, co_cpu_quota = rq_cpu_quota rq, co_pids_limit = rq_max_pids rq,
      co_labels = [(lit ''sandbox_type'', lit ''isolated''), (lit ''managed_by'', lit ''rce_worker'')],
      co_environment = [(lit ''PYTHONUNBUFFERED'', lit ''1''), (lit ''PYTHONDONTWRITEBYTECODE'', lit ''1'')]\<rparr>"

text \<open>\<open>for attempt in range(3)\<close>: the argument is the number of attempts left after this one.\<close>

fun start_container :: "'w docker_host \<Rightarrow> nat \<Rightarrow> 'w \<Rightarrow> docker_exn option \<times> 'w" where
  "start_container dh left w =
     (case dh_start dh w of
        (None, w1) \<Rightarrow> (None, w1)
      | (Some (Not_Docker exc), w1) \<Rightarrow> (Some (Not_Docker exc), w1)
      | (Some (Docker_Error m), w1) \<Rightarrow>
          (case left of
             Suc k \<Rightarrow> if py_contains (lit ''netns'') (py_lower m) then start_container dh k w1
                      else (Some (Docker_Error m), w1)
           | 0 \<Rightarrow> (Some (Docker_Error m), w1)))"

declare start_container.simps [simp del]

text \<open>\<open>write_stdin\<close> on an attached socket; every exception is caught.\<close>

definition docker_write_stdin :: "'w docker_host \<Rightarrow> bool \<Rightarrow> pstr \<Rightarrow> 'w \<Rightarrow> 'w" where
  "docker_write_stdin dh attached data w =
     (if attached then
        case encode_utf8 (normalize_newlines data) of
          Inl exc \<Rightarrow> w
        | Inr data_bytes \<Rightarrow> dh_send dh w data_bytes
      else w)"

definition initial_stdin :: "pstr \<Rightarrow> pstr" where
  "initial_stdin payload =
     (if payload \<noteq> [] \<and> last payload = 10 then payload else payload @ [10]) @ [4]"

section \<open>The polling loop\<close>

record poll_state =
  ps_consumer :: stream_consumer
  ps_queue :: "bytes option list"
  ps_yielded :: "stream_chunk list"

definition take_item :: "bytes \<Rightarrow> poll_state \<Rightarrow> poll_state" where
  "take_item item s =
     (case consume_stdout (decode_utf8 item) (ps_consumer s) of
        (chunk_obj, c) \<Rightarrow>
          s\<lparr>ps_consumer := c,
            ps_yielded := ps_yielded s @ (case chunk_obj of Some x \<Rightarrow> [x] | None \<Rightarrow> [])\<rparr>)"

text \<open>The inner loop stops at the reader's sentinel and when the limit is exceeded.\<close>

fun drain :: "bytes option list \<Rightarrow> poll_state \<Rightarrow> poll_state" where
  "drain [] s = s\<lparr>ps_queue := []\<rparr>"
| "drain (None # q) s = s\<lparr>ps_queue := q\<rparr>"
| "drain (Some item # q) s =
     (let s1 = take_item item s
      in if sc_limit_exceeded (ps_consumer s1) then s1\<lparr>ps_queue := q\<rparr> else drain q s1)"

text \<open>The drain after the loop takes everything and skips sentinels and empty items.\<close>

fun drain_rest :: "bytes option list \<Rightarrow> poll_state \<Rightarrow> poll_state" where
  "drain_rest [] s = s\<lparr>ps_queue := []\<rparr>"
| "drain_rest (None # q) s = drain_rest q s"
| "drain_rest (Some item # q) s = drain_rest q (if item \<noteq> [] then take_item item s else s)"

datatype poll_end = Timed_Out | Limit_Hit | Exited

text \<open>The turn after the last one given finds the deadline passed.\<close>

fun poll_loop :: "poll_turn list \<Rightarrow> poll_state \<Rightarrow> poll_end \<times> poll_state" where
  "poll_loop [] s = (Timed_Out, s)"
| "poll_loop (t # ts) s =
     (let s1 = drain (ps_queue s @ pt_arrived t) s
      in if sc_limit_exceeded (ps_consumer s1) then (Limit_Hit, s1)
         else
           let s2 = s1\<lparr>ps_queue := ps_queue s1 @ pt_late t\<rparr>
           in case pt_reload t of
                Some st \<Rightarrow>
                  if is_running st = Some False \<and> ps_queue s2 = [] then (Exited, s2)
                  else poll_loop ts s2
              | None \<Rightarrow> poll_loop ts s2)"

section \<open>Streaming\<close>

definition docker_status :: "bool \<Rightarrow> bool \<Rightarrow> int \<Rightarrow> bool \<Rightarrow> execution_status" where
  "docker_status timed_out oom_killed exit_code limit_exceeded =
     (if timed_out then ES_TIME_LIMIT_EXCEEDED
      else if oom_killed \<or> exit_code = 137 \<and> \<not> timed_out then ES_MEMORY_LIMIT_EXCEEDED
      else if limit_exceeded then ES_OUTPUT_LIMIT_EXCEEDED
      else if exit_code = 0 then ES_COMPLETED
      else ES_RUNTIME_ERROR)"

definition docker_payload :: "execution_status \<Rightarrow> int \<Rightarrow> int \<Rightarrow> bool \<Rightarrow> (pstr \<times> json) list" where
  "docker_payload st exit_code duration_ms oom_killed =
     [(lit ''status'', JStr (status_value st)), (lit ''exit_code'', JInt exit_code),
      (lit ''duration_ms'', JInt duration_ms), (lit ''oom_killed'', JBool oom_killed)]"

definition docker_finish ::
  "(pyfloat \<Rightarrow> pstr) \<Rightarrow> 'w docker_host \<Rightarrow> bool \<Rightarrow> bool \<Rightarrow> 'w
     \<Rightarrow> (docker_exn + stream_chunk) \<times> 'w" where
  "docker_finish sf dh timed_out limit_exceeded w =
     (case dh_inspect dh w of
        (Inl exc, w1) \<Rightarrow> (Inl exc, w1)
      | (Inr st, w1) \<Rightarrow>
          (let exit_code = (case is_exit_code st of Some k \<Rightarrow> k | None \<Rightarrow> - 1);
               oom_killed = (case is_oom_killed st of Some b \<Rightarrow> b | None \<Rightarrow> False)
           in (Inr (complete_chunk sf
                 (docker_payload (docker_status timed_out oom_killed exit_code limit_exceeded)
                    exit_code (dh_elapsed_ms dh w1) oom_killed)), w1)))"

text \<open>From the attached socket to the completion frame, with the container running.\<close>

definition docker_monitor ::
  "(pyfloat \<Rightarrow> pstr) \<Rightarrow> 'w docker_host \<Rightarrow> execution_request \<Rightarrow> 'w
     \<Rightarrow> (stream_chunk list \<times> docker_exn option) \<times> 'w" where
  "docker_monitor sf dh rq w =
     (let w1 = (case rq_stdin_data rq of
                  Some payload \<Rightarrow>
                    if payload \<noteq> [] then docker_write_stdin dh True (initial_stdin payload) w else w
                | None \<Rightarrow> w);
          (turns, w2) = dh_turns dh w1 (rq_timeout_seconds rq);
          (ended, s) = poll_loop turns \<lparr>ps_consumer = new_consumer (rq_max_output_bytes rq),
                                        ps_queue = [], ps_yielded = []\<rparr>;
          w3 = (if ended = Exited then w2 else dh_kill dh w2);
          s1 = drain_rest (ps_queue s @ dh_rest dh w3) s;
          chunks = ps_yielded s1 @
            (if ended = Timed_Out then [chunk ERROR (timeout_notice sf (rq_timeout_seconds rq))] else [])
      in case docker_finish sf dh (ended = Timed_Out) (sc_limit_exceeded (ps_consumer s1)) w3 of
           (Inl exc, w4) \<Rightarrow> ((chunks, Some exc), w4)
         | (Inr final, w4) \<Rightarrow> ((chunks @ [final], None), w4))"

text \<open>The body of the \<open>try\<close>: create, attach, start, monitor.  The flag says whether a container exists.\<close>

definition docker_body ::
  "(pyfloat \<Rightarrow> pstr) \<Rightarrow> 'w docker_host \<Rightarrow> json option \<Rightarrow> execution_request \<Rightarrow> 'w
     \<Rightarrow> bool \<times> (stream_chunk list \<times> docker_exn option) \<times> 'w" where
  "docker_body sf dh seccomp_profile rq w =
     (case dh_create dh w (container_options_of sf seccomp_profile rq) of
        (Some exc, w1) \<Rightarrow> (False, ([], Some exc), w1)
      | (None, w1) \<Rightarrow>
          (case dh_attach dh w1 of
             (Some exc, w2) \<Rightarrow> (True, ([], Some exc), w2)
           | (None, w2) \<Rightarrow>
               (case start_container dh 2 w2 of
                  (Some exc, w3) \<Rightarrow> (True, ([], Some exc), w3)
                | (None, w3) \<Rightarrow> (True, docker_monitor sf dh rq w3))))"

definition docker_failure :: "pstr \<Rightarrow> stream_chunk" where
  "docker_failure m = chunk ERROR (lit ''[SYSTEM ERROR: Docker daemon failure: '' @ m @ lit '']'')"

text \<open>The generator for Python: the handler of \<open>DockerException\<close> and the \<open>finally\<close>.\<close>

definition docker_stream_python ::
  "(pyfloat \<Rightarrow> pstr) \<Rightarrow> 'w docker_host \<Rightarrow> json option \<Rightarrow> execution_request \<Rightarrow> 'w \<Rightarrow> yielded \<times> 'w" where
  "docker_stream_python sf dh seccomp_profile rq w =
     (case docker_body sf dh seccomp_profile rq w of
        (created, (chunks, exc), w1) \<Rightarrow>
          (let init = chunk STATUS (lit ''Initializing isolated sandbox container...'');
               w2 = (if created then dh_remove dh w1 else w1)
           in case exc of
                None \<Rightarrow> ((init # chunks, None), w2)
              | Some (Docker_Error m) \<Rightarrow> ((init # chunks @ [docker_failure m], None), w2)
              | Some (Not_Docker e) \<Rightarrow> ((init # chunks, Some e), w2)))"

text \<open>Other languages are streamed by a subprocess driver; \<open>evs\<close> schedules its pumps.\<close>

definition docker_stream ::
  "(pyfloat \<Rightarrow> pstr) \<Rightarrow> 'w docker_host \<Rightarrow> 'w stream_host \<Rightarrow> registry \<Rightarrow> json option \<Rightarrow>
   stream_event list \<Rightarrow> execution_request \<Rightarrow> 'w \<Rightarrow> (yielded \<times> 'w) option" where
  "docker_stream sf dh ho reg seccomp_profile evs rq w =
     (if py_lower (rq_language rq) \<noteq> lit ''python'' then
        case process_stream sf ho reg evs rq w of
          None \<Rightarrow> None
        | Some (Inl exc, w1) \<Rightarrow> Some (([], Some exc), w1)
        | Some (Inr chunks, w1) \<Rightarrow> Some ((chunks, None), w1)
      else Some (docker_stream_python sf dh seccomp_profile rq w))"

section \<open>Execution to completion\<close>

definition docker_collect :: "stream_chunk \<Rightarrow> stream_consumer \<Rightarrow> stream_consumer" where
  "docker_collect ck c =
     (case ck_event ck of
        STDOUT \<Rightarrow> snd (consume_stdout (ck_data ck) c)
      | STDERR \<Rightarrow> snd (consume_stderr (ck_data ck) c)
      | _ \<Rightarrow> c)"

definition docker_result :: "stream_consumer \<Rightarrow> execution_result" where
  "docker_result c =
     (default_result (if \<not> sc_limit_exceeded c then ES_COMPLETED else ES_OUTPUT_LIMIT_EXCEEDED))
       \<lparr>rs_stdout := get_full_stdout c, rs_stderr := get_full_stderr c, rs_execution_time_ms := 0\<rparr>"

definition docker_execute ::
  "(pyfloat \<Rightarrow> pstr) \<Rightarrow> 'w docker_host \<Rightarrow> 'w host \<Rightarrow> registry \<Rightarrow> json option \<Rightarrow> 'w driver" where
  "docker_execute sf dh ho reg seccomp_profile w rq =
     (if py_lower (rq_language rq) \<noteq> lit ''python'' then process_execute sf ho reg w rq
      else
        case docker_stream_python sf dh seccomp_profile rq w of
          ((chunks, Some exc), w1) \<Rightarrow> (Inl exc, w1)
        | ((chunks, None), w1) \<Rightarrow>
            (Inr (docker_result (fold docker_collect chunks (new_consumer (rq_max_output_bytes rq)))), w1))"

section \<open>What the loop has read\<close>

text \<open>The chunks a queue holds, and what has arrived during a list of turns.\<close>

definition queue_items :: "bytes option list \<Rightarrow> bytes list" where
  "queue_items q = concat (map (\<lambda>x. case x of None \<Rightarrow> [] | Some b \<Rightarrow> [b]) q)"

lemma queue_items_simps [simp]: "queue_items [] = []" "queue_items (None # q) = queue_items q"
  "queue_items (Some b # q) = b # queue_items q" "queue_items (p @ q) = queue_items p @ queue_items q"
  by (simp_all add: queue_items_def)

abbreviation item_feeds :: "bytes list \<Rightarrow> feed list" where
  "item_feeds bs \<equiv> map (\<lambda>b. Out (decode_utf8 b)) bs"

lemma item_feeds_ok: "list_all feed_ok (item_feeds bs)"
  by (induction bs) (simp_all add: utf8_decode_text del: utf8_decode.simps)

text \<open>\<open>s\<close> was reached from \<open>s0\<close> by reading \<open>bs\<close>.\<close>

definition has_read :: "bytes list \<Rightarrow> poll_state \<Rightarrow> poll_state \<Rightarrow> bool" where
  "has_read bs s0 s \<longleftrightarrow>
     ps_yielded s = ps_yielded s0 @ fst (run_sink consume (item_feeds bs) (ps_consumer s0)) \<and>
     ps_consumer s = snd (run_sink consume (item_feeds bs) (ps_consumer s0))"

lemma run_sink_snoc:
  "fst (run_sink put (fs @ [f]) s) =
     fst (run_sink put fs s) @ (case fst (put f (snd (run_sink put fs s))) of None \<Rightarrow> [] | Some x \<Rightarrow> [x])"
  by (induction fs arbitrary: s) (simp_all add: Let_def)

lemma has_read_Nil [simp]: "has_read [] s s"
  by (simp add: has_read_def)

lemma has_read_queue [simp]: "has_read bs s0 (s\<lparr>ps_queue := q\<rparr>) = has_read bs s0 s"
  by (simp add: has_read_def)

lemma has_read_take: "has_read bs s0 s \<Longrightarrow> has_read (bs @ [b]) s0 (take_item b s)"
  unfolding has_read_def
  by (auto simp: take_item_def run_sink_snoc run_sink_append Let_def split: prod.split option.split
      simp del: utf8_decode.simps)

lemma take_item_queue [simp]: "ps_queue (take_item b s) = ps_queue s"
  by (simp add: take_item_def split: prod.split)

lemma drain_read:
  "has_read bs s0 s \<Longrightarrow>
   \<exists>ds. has_read (bs @ ds) s0 (drain q s) \<and> queue_items q = ds @ queue_items (ps_queue (drain q s))"
proof (induction q s arbitrary: bs rule: drain.induct)
  case (1 s)
  then show ?case by (intro exI [of _ "[]"]) simp
next
  case (2 q s)
  then show ?case by (intro exI [of _ "[]"]) simp
next
  case (3 item q s)
  show ?case
  proof (cases "sc_limit_exceeded (ps_consumer (take_item item s))")
    case True
    then show ?thesis
      using has_read_take [OF 3(2), of item] by (intro exI [of _ "[item]"]) (simp add: Let_def)
  next
    case False
    obtain ds where "has_read ((bs @ [item]) @ ds) s0 (drain q (take_item item s))"
      "queue_items q = ds @ queue_items (ps_queue (drain q (take_item item s)))"
      using 3(1) [OF refl False has_read_take [OF 3(2)]] by blast
    then show ?thesis using False by (intro exI [of _ "item # ds"]) (simp add: Let_def)
  qed
qed

lemma drain_rest_read:
  "has_read bs s0 s \<Longrightarrow> [] \<notin> set (queue_items q) \<Longrightarrow> has_read (bs @ queue_items q) s0 (drain_rest q s)"
proof (induction q s arbitrary: bs rule: drain_rest.induct)
  case (3 item q s)
  then have "item \<noteq> []" "[] \<notin> set (queue_items q)" by auto
  then show ?case using 3(1) [of "bs @ [item]"] has_read_take [OF 3(2), of item] by simp
qed simp_all

text \<open>Everything that arrives is read or still queued, and nothing else is read.\<close>

definition turn_items :: "poll_turn \<Rightarrow> bytes list" where
  "turn_items t = queue_items (pt_arrived t) @ queue_items (pt_late t)"

lemma poll_loop_turn:
  assumes "poll_loop (t # ts) s = (e, s')"
  shows "let s1 = drain (ps_queue s @ pt_arrived t) s; s2 = s1\<lparr>ps_queue := ps_queue s1 @ pt_late t\<rparr>
         in e = Limit_Hit \<and> s' = s1 \<or> s' = s2 \<and> e \<noteq> Limit_Hit \<or> poll_loop ts s2 = (e, s')"
  using assms
  by (cases "pt_reload t") (auto simp: Let_def split: if_splits)

lemma poll_loop_read:
  "has_read bs s0 s \<Longrightarrow> poll_loop ts s = (e, s') \<Longrightarrow>
   \<exists>ds n. has_read (bs @ ds) s0 s' \<and>
     (e \<noteq> Limit_Hit \<longrightarrow>
        queue_items (ps_queue s) @ concat (map turn_items (take n ts)) = ds @ queue_items (ps_queue s'))"
proof (induction ts arbitrary: s bs)
  case Nil
  then show ?case by (intro exI [of _ "[]"] exI [of _ 0]) simp
next
  case (Cons t ts)
  let ?q = "ps_queue s @ pt_arrived t"
  let ?s1 = "drain ?q s"
  obtain ds where d: "has_read (bs @ ds) s0 ?s1"
    "queue_items (ps_queue s) @ queue_items (pt_arrived t) = ds @ queue_items (ps_queue ?s1)"
    using drain_read [OF Cons.prems(1), of ?q] by auto
  let ?s2 = "?s1\<lparr>ps_queue := ps_queue ?s1 @ pt_late t\<rparr>"
  have d2: "has_read (bs @ ds) s0 ?s2" using d(1) by simp
  have q2: "queue_items (ps_queue s) @ turn_items t = ds @ queue_items (ps_queue ?s2)"
    using d(2) by (simp add: turn_items_def)
  consider (limit) "e = Limit_Hit" "s' = ?s1" | (exit) "s' = ?s2" "e \<noteq> Limit_Hit"
    | (more) "poll_loop ts ?s2 = (e, s')"
    using poll_loop_turn [OF Cons.prems(2)] by (simp only: Let_def) blast
  then show ?case
  proof cases
    case limit
    then show ?thesis using d(1) by blast
  next
    case exit
    then show ?thesis using d2 q2
      by (intro exI [of _ ds] exI [of _ 1]) simp
  next
    case more
    obtain es n where r: "has_read ((bs @ ds) @ es) s0 s'"
      "e \<noteq> Limit_Hit \<longrightarrow> queue_items (ps_queue ?s2) @ concat (map turn_items (take n ts)) =
         es @ queue_items (ps_queue s')"
      using Cons.IH [OF d2 more] by blast
    have "queue_items (ps_queue s) @ concat (map turn_items (take (Suc n) (t # ts))) =
        ds @ queue_items (ps_queue ?s2) @ concat (map turn_items (take n ts))"
      using q2 by (metis append.assoc concat.simps(2) list.simps(9) take_Suc_Cons)
    with r(2) have "e \<noteq> Limit_Hit \<longrightarrow>
        queue_items (ps_queue s) @ concat (map turn_items (take (Suc n) (t # ts))) =
        (ds @ es) @ queue_items (ps_queue s')" by (simp only: append_assoc) blast
    moreover have "has_read (bs @ ds @ es) s0 s'" using r(1) by simp
    ultimately show ?thesis by blast
  qed
qed

section \<open>What is yielded is text\<close>

lemma utf8_text_show_int [simp]: "utf8_text (show_int i)"
  unfolding utf8_text_def list_all_iff
  using show_int_chars [of _ i] by (force simp: scalar_def is_surrogate_def)

lemma consume_text: "feed_ok f \<Longrightarrow> fst (consume f c) = Some x \<Longrightarrow> utf8_text (ck_data x)"
  by (cases f)
    (auto simp: consume_simps limit_notice_def stderr_notice_def utf8_decode_text scalar_def
      is_surrogate_def simp del: utf8_decode.simps split: if_splits)

lemma run_sink_texts: "list_all feed_ok fs \<Longrightarrow> texts_ok (fst (run_sink consume fs c))"
  by (induction fs arbitrary: c) (auto simp: Let_def consume_text split: option.split)

definition poll_start :: "int \<Rightarrow> poll_state" where
  "poll_start m = \<lparr>ps_consumer = new_consumer m, ps_queue = [], ps_yielded = []\<rparr>"

lemma has_read_start:
  "has_read bs (poll_start m) s \<longleftrightarrow>
     ps_yielded s = fst (run_sink consume (item_feeds bs) (new_consumer m)) \<and>
     ps_consumer s = snd (run_sink consume (item_feeds bs) (new_consumer m))"
  by (simp add: has_read_def poll_start_def)

text \<open>The drain after the loop reads some of the queue, whatever the queue holds.\<close>

lemma drain_rest_some: "has_read bs s0 s \<Longrightarrow> \<exists>ds. has_read (bs @ ds) s0 (drain_rest q s)"
proof (induction q s arbitrary: bs rule: drain_rest.induct)
  case (1 s)
  then show ?case by (intro exI [of _ "[]"]) simp
next
  case (3 item q s)
  have "\<exists>b. has_read (bs @ b) s0 (if item \<noteq> [] then take_item item s else s)"
    using has_read_take [OF 3(2), of item] 3(2)
    by (cases "item = []") (auto intro: exI [of _ "[]"] exI [of _ "[item]"])
  then obtain b ds where
    "has_read ((bs @ b) @ ds) s0 (drain_rest q (if item \<noteq> [] then take_item item s else s))"
    using 3(1) by blast
  then show ?case by (auto intro: exI [of _ "b @ ds"])
qed simp

lemma poll_yields:
  assumes "poll_loop ts (poll_start m) = (e, s)"
  shows "\<exists>bs. has_read bs (poll_start m) (drain_rest (ps_queue s @ q) s)"
proof -
  obtain ds where "has_read ([] @ ds) (poll_start m) s"
    using poll_loop_read [OF has_read_Nil assms] by blast
  from drain_rest_some [OF this] show ?thesis by auto
qed

lemma docker_monitor_texts: "texts_ok (fst (fst (docker_monitor sf dh rq w)))"
proof -
  obtain w1 turns w2 where t: "w1 = (case rq_stdin_data rq of
      Some payload \<Rightarrow> if payload \<noteq> [] then docker_write_stdin dh True (initial_stdin payload) w else w
    | None \<Rightarrow> w)" "dh_turns dh w1 (rq_timeout_seconds rq) = (turns, w2)"
    by (meson surj_pair)
  obtain e s where p: "poll_loop turns (poll_start (rq_max_output_bytes rq)) = (e, s)" by fastforce
  have "texts_ok (ps_yielded (drain_rest (ps_queue s @ q) s))" for q
    using poll_yields [OF p, of q] run_sink_texts [OF item_feeds_ok]
    by (metis has_read_start)
  then show ?thesis
    using t p by (simp add: docker_monitor_def poll_start_def docker_finish_def complete_chunk_def Let_def
        split: prod.split sum.split)
qed

lemma docker_stream_texts: "texts_ok (fst (fst (docker_stream_python sf dh prof rq w)))"
proof -
  obtain created chunks exc w1 where b: "docker_body sf dh prof rq w = (created, (chunks, exc), w1)"
    by (metis prod.collapse)
  then have "texts_ok chunks"
    using docker_monitor_texts [of sf dh rq]
    by (auto simp: docker_body_def split: prod.splits option.splits) (metis fst_conv)
  then show ?thesis
    by (simp add: docker_stream_python_def b docker_failure_def Let_def split: option.split docker_exn.split)
qed

lemma docker_collect_inv:
  assumes "ck_event ck = STDOUT \<longrightarrow> utf8_text (ck_data ck)" "consumer_inv c"
  shows "consumer_inv (docker_collect ck c) \<and> sc_max_bytes (docker_collect ck c) = sc_max_bytes c"
  using assms consume_max [of "Out (ck_data ck)" c] consume_max [of "Err (ck_data ck)" c]
  by (cases "ck_event ck") (auto simp: docker_collect_def consume_stdout_inv consume_stderr_inv)

lemma docker_collected:
  "texts_ok cs \<Longrightarrow> consumer_inv c \<Longrightarrow>
   consumer_inv (fold docker_collect cs c) \<and> sc_max_bytes (fold docker_collect cs c) = sc_max_bytes c"
  by (induction cs arbitrary: c) (simp_all add: docker_collect_inv)

lemma docker_python_cases:
  assumes "py_lower (rq_language rq) = lit ''python''" "fst (docker_execute sf dh ho reg prof w rq) = Inr r"
  obtains chunks w' where "docker_stream_python sf dh prof rq w = ((chunks, None), w')"
    and "r = docker_result (fold docker_collect chunks (new_consumer (rq_max_output_bytes rq)))"
    and "docker_execute sf dh ho reg prof w rq = (Inr r, w')"
proof -
  obtain chunks exc w' where s: "docker_stream_python sf dh prof rq w = ((chunks, exc), w')"
    by (metis prod.collapse)
  then show ?thesis
    using assms that [of chunks w'] by (cases exc) (simp_all add: docker_execute_def)
qed

lemma docker_output_ok:
  assumes "fst (docker_execute sf dh ho reg prof w rq) = Inr r"
  shows "output_ok rq r"
proof (cases "py_lower (rq_language rq) = lit ''python''")
  case True
  obtain chunks w' where c: "docker_stream_python sf dh prof rq w = ((chunks, None), w')"
    "r = docker_result (fold docker_collect chunks (new_consumer (rq_max_output_bytes rq)))"
    using docker_python_cases [OF True assms] by blast
  have "texts_ok chunks" using docker_stream_texts [of sf dh prof rq w] c(1) by simp
  from docker_collected [OF this consumer_inv_new, of "rq_max_output_bytes rq"] show ?thesis
    using inv_stdout c(2) by (auto simp: output_ok_def docker_result_def) metis
next
  case False
  then show ?thesis
    using assms process.output_cap [of sf ho reg w rq r] by (simp add: docker_execute_def)
qed

interpretation docker: sandbox_driver "docker_execute sf dh ho reg prof" for sf dh ho reg prof
  by unfold_locales (rule docker_output_ok)

section \<open>Containers that exist\<close>

text \<open>
  What the daemon does to the number of containers: a successful \<open>create\<close> adds one,
  \<open>remove(force=True)\<close> takes one away, everything else leaves the number alone.
\<close>

definition daemon_counts :: "('w \<Rightarrow> nat) \<Rightarrow> 'w docker_host \<Rightarrow> bool" where
  "daemon_counts live dh \<longleftrightarrow>
     (\<forall>w opts. live (snd (dh_create dh w opts)) =
        (if fst (dh_create dh w opts) = None then Suc (live w) else live w)) \<and>
     (\<forall>w. live (snd (dh_attach dh w)) = live w) \<and> (\<forall>w. live (snd (dh_start dh w)) = live w) \<and>
     (\<forall>w b. live (dh_send dh w b) = live w) \<and> (\<forall>w t. live (snd (dh_turns dh w t)) = live w) \<and>
     (\<forall>w. live (dh_kill dh w) = live w) \<and> (\<forall>w. live (snd (dh_inspect dh w)) = live w) \<and>
     (\<forall>w. live (dh_remove dh w) = live w - 1)"

lemma start_container_live:
  "daemon_counts live dh \<Longrightarrow> live (snd (start_container dh k w)) = live w"
proof (induction dh k w rule: start_container.induct)
  case (1 dh left w)
  obtain e w1 where s: "dh_start dh w = (e, w1)" by fastforce
  then have "live w1 = live w" using 1(2) by (auto simp: daemon_counts_def dest: spec [of _ w])
  with 1(1) [OF s [symmetric]] s 1(2) show ?case
    by (simp add: start_container.simps [of dh left w] split: option.split docker_exn.split nat.split)
qed

lemma docker_monitor_live:
  assumes "daemon_counts live dh"
  shows "live (snd (docker_monitor sf dh rq w)) = live w"
proof -
  have k: "live (dh_kill dh v) = live v" and i: "live (snd (dh_inspect dh v)) = live v"
    and s: "live (dh_send dh v b) = live v" and t: "live (snd (dh_turns dh v d)) = live v" for v b d
    using assms by (simp_all add: daemon_counts_def)
  define w1 where "w1 = (case rq_stdin_data rq of
      Some payload \<Rightarrow> if payload \<noteq> [] then docker_write_stdin dh True (initial_stdin payload) w else w
    | None \<Rightarrow> w)"
  have "live w1 = live w"
    by (simp add: w1_def docker_write_stdin_def s split: option.split sum.split)
  moreover obtain turns w2 where w2: "dh_turns dh w1 (rq_timeout_seconds rq) = (turns, w2)" by fastforce
  moreover have "live (snd (docker_finish sf dh a b v)) = live v" for a b v
    using i [of v] by (auto simp: docker_finish_def Let_def split: prod.split sum.split)
  ultimately show ?thesis
    using t [of w1 "rq_timeout_seconds rq"] k [of w2]
    unfolding docker_monitor_def w1_def [symmetric]
    by (auto simp: Let_def split: prod.split sum.split) (metis snd_conv)+
qed

lemma docker_body_live:
  assumes "daemon_counts live dh" "docker_body sf dh prof rq w = (created, r, w')"
  shows "live w' = (if created then Suc (live w) else live w)"
proof -
  obtain e1 w1 where c: "dh_create dh w (container_options_of sf prof rq) = (e1, w1)" by fastforce
  obtain e2 w2 where a: "dh_attach dh w1 = (e2, w2)" by fastforce
  obtain e3 w3 where t: "start_container dh 2 w2 = (e3, w3)" by fastforce
  have l1: "live w1 = (if e1 = None then Suc (live w) else live w)"
    using assms(1) c unfolding daemon_counts_def by (metis fst_conv snd_conv)
  have l2: "live w2 = live w1" using assms(1) a unfolding daemon_counts_def by (metis snd_conv)
  have l3: "live w3 = live w2" using start_container_live [OF assms(1), of 2 w2] t by simp
  have l4: "live (snd (docker_monitor sf dh rq w3)) = live w3" by (rule docker_monitor_live [OF assms(1)])
  show ?thesis
    using assms(2) c a t l1 l2 l3 l4
    by (cases e1; cases e2; cases e3) (auto simp: docker_body_def)
qed

section \<open>Properties\<close>


text \<open>A daemon on which a program prints one byte and is then killed; the world counts containers.\<close>

definition demo_daemon :: "nat docker_host" where
  "demo_daemon =
     \<lparr>dh_create = (\<lambda>w _. (None, Suc w)), dh_attach = (\<lambda>w. (None, w)), dh_start = (\<lambda>w. (None, w)),
      dh_send = (\<lambda>w _. w),
      dh_turns = (\<lambda>w _. ([\<lparr>pt_arrived = [Some [104]], pt_reload = None, pt_late = []\<rparr>], w)),
      dh_rest = (\<lambda>w. [None]), dh_kill = (\<lambda>w. w),
      dh_inspect = (\<lambda>w. (Inr \<lparr>is_running = Some False, is_exit_code = Some 137, is_oom_killed = Some False\<rparr>, w)),
      dh_remove = (\<lambda>w. w - 1), dh_elapsed_ms = (\<lambda>w. 5)\<rparr>"


text \<open>The container driver's \<open>execute\<close> cannot tell how a Python program ended, so the
  autograder over it only ever says accepted or wrong answer: a program that was killed for
  its time, ran out of memory or crashed is judged by the output it had printed.\<close>

lemma docker_verdicts_blind:
  assumes "py_lower (rq_language rq) = lit ''python''"
    and "fst (docker_execute sf dh ho reg prof w rq) = Inr r" and "0 \<le> gj_time_limit_ms job"
  shows "rs_status r \<in> {ES_COMPLETED, ES_OUTPUT_LIMIT_EXCEEDED} \<and> rs_exit_code r = None \<and>
         tv_status (judge_result fmt job tc r) \<in> {EV_ACCEPTED, EV_WRONG_ANSWER}"
proof -
  obtain c where r: "r = docker_result c"
    using docker_python_cases [OF assms(1,2)] by metis
  have "\<not> over_time job r" "\<not> over_memory job r" "\<not> crashed r"
    using assms(3)
    by (simp_all add: r docker_result_def default_result_def over_time_def over_memory_def crashed_def
        mem_bytes_of_def)
  then show ?thesis
    by (simp add: judge_result_def measured_def case_verdict_def split: prod.split)
      (simp add: r docker_result_def default_result_def)
qed

lemma docker_verdicts_blind_witness:
  "\<exists>r. fst (docker_execute (\<lambda>_. []) demo_daemon (demo_host Run_Timeout) [] None 0
          (default_request (lit ''x''))) = Inr r \<and>
       tv_status (judge_result plain_fmt demo_job (hd demo_cases) r) \<in> {EV_ACCEPTED, EV_WRONG_ANSWER}"
proof -
  have l: "py_lower (rq_language (default_request (lit ''x''))) = lit ''python''"
    by (simp add: default_request_def py_lower_def lower_char_def lit_def)
  have "snd (fst (docker_stream_python (\<lambda>_. []) demo_daemon None (default_request (lit ''x'')) 0)) = None"
    by (simp add: docker_stream_python_def docker_body_def demo_daemon_def start_container.simps
        docker_monitor_def docker_finish_def Let_def default_request_def split: prod.split)
  then obtain chunks w' where "docker_stream_python (\<lambda>_. []) demo_daemon None (default_request (lit ''x'')) 0
      = ((chunks, None), w')"
    by (metis prod.collapse)
  then obtain r where r: "fst (docker_execute (\<lambda>_. []) demo_daemon (demo_host Run_Timeout) [] None 0
      (default_request (lit ''x''))) = Inr r"
    by (simp add: docker_execute_def l)
  have "0 \<le> gj_time_limit_ms demo_job" by (simp add: demo_job_def)
  from docker_verdicts_blind [OF l r this] r show ?thesis by blast
qed

text \<open>The polling loop forwards what the program prints: the chunks yielded are what the
  consumer lets through of the chunks read, so their size stays within the ceiling and one
  notice; and when the loop was not stopped for its output, everything that arrived in the
  turns it took and in the final drain has been yielded, in order.\<close>

lemma docker_stream_delivers:
  assumes "poll_loop turns (poll_start m) = (ended, s)" and "[] \<notin> set (queue_items (ps_queue s @ rest))"
    and "s' = drain_rest (ps_queue s @ rest) s"
  shows "chunk_bytes (ps_yielded s') \<le> nat m + notice_bytes m \<and>
         (ended \<noteq> Limit_Hit \<and> \<not> sc_limit_exceeded (ps_consumer s') \<longrightarrow>
            (\<exists>n. ps_yielded s' = map (\<lambda>b. chunk STDOUT (decode_utf8 b))
               (concat (map turn_items (take n turns)) @ queue_items rest)))"
proof -
  obtain ds n where d: "has_read ds (poll_start m) s"
    "ended \<noteq> Limit_Hit \<longrightarrow> concat (map turn_items (take n turns)) = ds @ queue_items (ps_queue s)"
    using poll_loop_read [OF has_read_Nil assms(1)] by (auto simp: poll_start_def)
  let ?bs = "ds @ queue_items (ps_queue s @ rest)"
  have r: "ps_yielded s' = fst (run_sink consume (item_feeds ?bs) (new_consumer m))"
    "ps_consumer s' = snd (run_sink consume (item_feeds ?bs) (new_consumer m))"
    using drain_rest_read [OF d(1) assms(2)] assms(3) by (simp_all add: has_read_start)
  have "int (chunk_bytes (ps_yielded s')) \<le> max 0 m + int (notice_bytes m)"
    using run_sink_bytes [OF item_feeds_ok consumer_inv_new, of m ?bs] r(1) by (simp add: new_consumer_def)
  then have "chunk_bytes (ps_yielded s') \<le> nat m + notice_bytes m" by simp
  moreover have "ps_yielded s' = map (\<lambda>b. chunk STDOUT (decode_utf8 b)) ?bs"
    if "\<not> sc_limit_exceeded (ps_consumer s')"
    using sink_open_output [of "item_feeds ?bs" "new_consumer m"] that r by (simp del: utf8_decode.simps)
  moreover have "?bs = concat (map turn_items (take n turns)) @ queue_items rest" if "ended \<noteq> Limit_Hit"
    using d(2) that by simp
  ultimately show ?thesis by metis
qed

lemma docker_stream_delivers_witness:
  "chunk_bytes (ps_yielded (drain_rest [None] (poll_start 10))) \<le> nat 10 + notice_bytes 10"
proof -
  have "poll_loop [] (poll_start 10) = (Timed_Out, poll_start 10)" by simp
  moreover have "[] \<notin> set (queue_items (ps_queue (poll_start 10) @ [None]))" by (simp add: poll_start_def)
  moreover have "drain_rest [None] (poll_start 10) =
      drain_rest (ps_queue (poll_start 10) @ [None]) (poll_start 10)" by (simp add: poll_start_def)
  ultimately show ?thesis using docker_stream_delivers by blast
qed

text \<open>A program stopped for printing too much is reported as having used too much memory:
  the driver kills it with \<open>SIGKILL\<close>, Docker then reports exit code 137, and the
  classification takes 137 for an out-of-memory kill before it looks at the output limit.\<close>

lemma docker_flood_reported_as_memory:
  assumes "rq_stdin_data rq = None" and "dh_turns dh w (rq_timeout_seconds rq) = (turns, w1)"
    and "poll_loop turns (poll_start (rq_max_output_bytes rq)) = (Limit_Hit, s)"
    and "dh_inspect dh (dh_kill dh w1) = (Inr st, w2)" and "is_exit_code st = Some 137"
  shows "\<exists>chunks oom. docker_monitor sf dh rq w =
    ((chunks @ [complete_chunk sf (docker_payload ES_MEMORY_LIMIT_EXCEEDED 137 (dh_elapsed_ms dh w2) oom)],
      None), w2)"
  using assms
  by (auto simp: docker_monitor_def docker_finish_def docker_status_def poll_start_def Let_def)

lemma docker_flood_reported_as_memory_witness:
  "\<exists>chunks oom. docker_monitor (\<lambda>_. []) demo_daemon
      ((default_request (lit ''x''))\<lparr>rq_max_output_bytes := 0\<rparr>) 1 =
    ((chunks @ [complete_chunk (\<lambda>_. []) (docker_payload ES_MEMORY_LIMIT_EXCEEDED 137
       (dh_elapsed_ms demo_daemon 1) oom)], None), 1)"
proof -
  let ?rq = "(default_request (lit ''x''))\<lparr>rq_max_output_bytes := 0\<rparr>"
  let ?turns = "[\<lparr>pt_arrived = [Some [104]], pt_reload = None, pt_late = []\<rparr>]"
  have d: "decode_utf8 [104] = [104]"
    using utf8_roundtrip [of "[104]" Replace_Errors] by (simp add: enc_char_def scalar_def is_surrogate_def)
  have t: "dh_turns demo_daemon 1 (rq_timeout_seconds ?rq) = (?turns, 1)" by (simp add: demo_daemon_def)
  obtain s where p: "poll_loop ?turns (poll_start (rq_max_output_bytes ?rq)) = (Limit_Hit, s)"
    by (simp add: poll_start_def take_item_def consume_simps new_consumer_def d enc_char_def
        del: utf8_decode.simps)
  have i: "dh_inspect demo_daemon (dh_kill demo_daemon 1) =
      (Inr \<lparr>is_running = Some False, is_exit_code = Some 137, is_oom_killed = Some False\<rparr>, 1)"
    by (simp add: demo_daemon_def)
  show ?thesis
    by (rule docker_flood_reported_as_memory [OF _ t p i]) (simp_all add: default_request_def)
qed

end
