(* ===== verification/Pty_Session.thy ===== *)
theory Pty_Session
  imports Process_Sandbox
begin

text \<open>
  The pseudo-terminal session (worker/sandbox/pty_session.py).  The operating system is the
  record \<open>pty_os\<close>; an operation whose exceptions the code catches says only whether it
  succeeded.  Descriptors are integers.  The section on descriptors shows that a session
  gives back what it took.
\<close>

section \<open>The session\<close>

datatype stdin_data = Text pstr | Raw bytes

record pty =
  pty_cols :: int
  pty_rows :: int
  pty_master :: "int option"
  pty_slave :: "int option"
  pty_child :: "int option"
  pty_is_open :: bool
  pty_input_queue :: "bytes list"

definition new_pty :: "int \<Rightarrow> int \<Rightarrow> pty" where
  "new_pty cols rows =
     \<lparr>pty_cols = cols, pty_rows = rows, pty_master = None, pty_slave = None, pty_child = None,
      pty_is_open = False, pty_input_queue = []\<rparr>"

text \<open>
  \<open>po_setup\<close> stands for the \<open>fcntl\<close> and \<open>termios\<close> calls of \<open>open\<close>; \<open>po_read\<close> waits for the
  descriptor and gives \<open>None\<close> for an \<open>OSError\<close> or a cancellation.
\<close>

record 'w pty_os =
  po_posix :: bool
  po_openpty :: "'w \<Rightarrow> (py_exn + int \<times> int) \<times> 'w"
  po_winsize :: "'w \<Rightarrow> int \<Rightarrow> int \<Rightarrow> int \<Rightarrow> bool \<times> 'w"
  po_setup :: "'w \<Rightarrow> int \<Rightarrow> int \<Rightarrow> py_exn option \<times> 'w"
  po_write :: "'w \<Rightarrow> int \<Rightarrow> bytes \<Rightarrow> 'w"
  po_read :: "'w \<Rightarrow> int \<Rightarrow> nat \<Rightarrow> bytes option \<times> 'w"
  po_kill :: "'w \<Rightarrow> int \<Rightarrow> int \<Rightarrow> bool \<times> 'w"
  po_close :: "'w \<Rightarrow> int \<Rightarrow> 'w"

text \<open>\<open>struct.pack("HHHH", ...)\<close> raises on a number that is not an unsigned 16-bit one.\<close>

definition fits_ushort :: "int \<Rightarrow> bool" where
  "fits_ushort n \<longleftrightarrow> 0 \<le> n \<and> n < 65536"

definition set_window_size :: "'w pty_os \<Rightarrow> int \<Rightarrow> int \<Rightarrow> pty \<Rightarrow> 'w \<Rightarrow> bool \<times> pty \<times> 'w" where
  "set_window_size os cols rows p w =
     (let p1 = p\<lparr>pty_cols := max 10 cols, pty_rows := max 4 rows\<rparr>
      in case pty_master p1 of
           None \<Rightarrow> (True, p1, w)
         | Some fd \<Rightarrow>
             if \<not> po_posix os then (True, p1, w)
             else if fits_ushort (pty_rows p1) \<and> fits_ushort (pty_cols p1) then
               (case po_winsize os w fd (pty_rows p1) (pty_cols p1) of (ok, w1) \<Rightarrow> (ok, p1, w1))
             else (False, p1, w))"

definition pty_close :: "'w pty_os \<Rightarrow> pty \<Rightarrow> 'w \<Rightarrow> pty \<times> 'w" where
  "pty_close os p w =
     (let p1 = p\<lparr>pty_is_open := False\<rparr>
      in if po_posix os then
           let w1 = (case pty_slave p1 of Some fd \<Rightarrow> po_close os w fd | None \<Rightarrow> w);
               w2 = (case pty_master p1 of Some fd \<Rightarrow> po_close os w1 fd | None \<Rightarrow> w1)
           in (p1\<lparr>pty_slave := None, pty_master := None\<rparr>, w2)
         else (p1, w))"

definition pty_open ::
  "'w pty_os \<Rightarrow> pty \<Rightarrow> 'w \<Rightarrow> (py_exn + (int option \<times> int option)) \<times> pty \<times> 'w" where
  "pty_open os p w =
     (if \<not> po_posix os then (Inr (None, None), p\<lparr>pty_is_open := True\<rparr>, w)
      else
        case po_openpty os w of
          (Inl exc, w1) \<Rightarrow> (case pty_close os p w1 of (p1, w2) \<Rightarrow> (Inl exc, p1, w2))
        | (Inr (master, slave), w1) \<Rightarrow>
            (let p1 = p\<lparr>pty_master := Some master, pty_slave := Some slave\<rparr>
             in case set_window_size os (pty_cols p1) (pty_rows p1) p1 w1 of
                  (ok, p2, w2) \<Rightarrow>
                    (case po_setup os w2 master slave of
                       (Some exc, w3) \<Rightarrow>
                         (case pty_close os p2 w3 of (p3, w4) \<Rightarrow> (Inl exc, p3, w4))
                     | (None, w3) \<Rightarrow>
                         (Inr (Some master, Some slave), p2\<lparr>pty_is_open := True\<rparr>, w3))))"

definition stdin_bytes :: "stdin_data \<Rightarrow> py_exn + bytes" where
  "stdin_bytes data = (case data of Text s \<Rightarrow> encode_utf8 s | Raw b \<Rightarrow> Inr b)"

definition write_input :: "'w pty_os \<Rightarrow> stdin_data \<Rightarrow> pty \<Rightarrow> 'w \<Rightarrow> py_exn option \<times> pty \<times> 'w" where
  "write_input os data p w =
     (case stdin_bytes data of
        Inl exc \<Rightarrow> (Some exc, p, w)
      | Inr data_bytes \<Rightarrow>
          if \<not> pty_is_open p then (None, p, w)
          else
            (case (if po_posix os then pty_master p else None) of
               Some fd \<Rightarrow> (None, p, po_write os w fd data_bytes)
             | None \<Rightarrow> (None, p\<lparr>pty_input_queue := pty_input_queue p @ [data_bytes]\<rparr>, w)))"

definition read_output :: "'w pty_os \<Rightarrow> nat \<Rightarrow> pty \<Rightarrow> 'w \<Rightarrow> bytes \<times> 'w" where
  "read_output os max_bytes p w =
     (if \<not> pty_is_open p then ([], w)
      else
        case (if po_posix os then pty_master p else None) of
          Some fd \<Rightarrow>
            (case po_read os w fd max_bytes of
               (Some b, w1) \<Rightarrow> (b, w1)
             | (None, w1) \<Rightarrow> ([], w1))
        | None \<Rightarrow> ([], w))"

definition pty_send_signal :: "'w pty_os \<Rightarrow> int \<Rightarrow> pty \<Rightarrow> 'w \<Rightarrow> bool \<times> 'w" where
  "pty_send_signal os sig p w =
     (case pty_child p of None \<Rightarrow> (False, w) | Some pid \<Rightarrow> po_kill os w pid sig)"

section \<open>Use of a session\<close>

text \<open>What a caller may do between opening and closing.\<close>

datatype pty_use = Use_Resize int int | Use_Write stdin_data | Use_Read nat | Use_Signal int

definition pty_use_step :: "'w pty_os \<Rightarrow> pty_use \<Rightarrow> pty \<times> 'w \<Rightarrow> pty \<times> 'w" where
  "pty_use_step os u pw =
     (case u of
        Use_Resize cols rows \<Rightarrow> snd (set_window_size os cols rows (fst pw) (snd pw))
      | Use_Write data \<Rightarrow> snd (write_input os data (fst pw) (snd pw))
      | Use_Read n \<Rightarrow> (fst pw, snd (read_output os n (fst pw) (snd pw)))
      | Use_Signal sig \<Rightarrow> (fst pw, snd (pty_send_signal os sig (fst pw) (snd pw))))"

text \<open>\<open>with PTYSession() as s: ...\<close>; when \<open>open\<close> raises the body does not run.\<close>

definition pty_with :: "'w pty_os \<Rightarrow> int \<Rightarrow> int \<Rightarrow> pty_use list \<Rightarrow> 'w \<Rightarrow> py_exn option \<times> pty \<times> 'w" where
  "pty_with os cols rows uses w =
     (case pty_open os (new_pty cols rows) w of
        (Inl exc, p1, w1) \<Rightarrow> (Some exc, p1, w1)
      | (Inr fds, p1, w1) \<Rightarrow>
          (case fold (pty_use_step os) uses (p1, w1) of
             (p2, w2) \<Rightarrow> (None, pty_close os p2 w2)))"

section \<open>Descriptors\<close>

text \<open>
  \<open>held w\<close> are the descriptors open in a world: \<open>openpty\<close> opens two new ones, \<open>close\<close>
  closes one, nothing else opens or closes any.
\<close>

definition os_counts :: "('w \<Rightarrow> int set) \<Rightarrow> 'w pty_os \<Rightarrow> bool" where
  "os_counts held os \<longleftrightarrow>
     (\<forall>w. case po_openpty os w of
            (Inl exc, w1) \<Rightarrow> held w1 = held w
          | (Inr (m, s), w1) \<Rightarrow>
              m \<notin> held w \<and> s \<notin> held w \<and> m \<noteq> s \<and> held w1 = {m, s} \<union> held w) \<and>
     (\<forall>w fd r c. held (snd (po_winsize os w fd r c)) = held w) \<and>
     (\<forall>w m s. held (snd (po_setup os w m s)) = held w) \<and>
     (\<forall>w fd b. held (po_write os w fd b) = held w) \<and>
     (\<forall>w fd n. held (snd (po_read os w fd n)) = held w) \<and>
     (\<forall>w pid sig. held (snd (po_kill os w pid sig)) = held w) \<and>
     (\<forall>w fd. held (po_close os w fd) = held w - {fd})"

text \<open>The descriptors a session refers to.\<close>

definition pty_fds :: "pty \<Rightarrow> int set" where
  "pty_fds p = set_option (pty_master p) \<union> set_option (pty_slave p)"

lemma set_window_size_fds:
  assumes "os_counts held os" "set_window_size os cols rows p w = (ok, p', w')"
  shows "pty_master p' = pty_master p \<and> pty_slave p' = pty_slave p \<and> held w' = held w"
proof -
  have "po_winsize os w fd r c = (b, w1) \<Longrightarrow> held w1 = held w" for fd r c b w1
    using assms(1) unfolding os_counts_def by (metis snd_conv)
  note h = this
  show ?thesis
    using assms(2)
    by (auto simp: set_window_size_def Let_def split: option.splits if_splits prod.splits dest: h)
qed

lemma pty_close_fds:
  assumes "os_counts held os" "po_posix os" "pty_close os p w = (p', w')"
  shows "held w' = held w - pty_fds p \<and> pty_fds p' = {} \<and> \<not> pty_is_open p'"
proof -
  have "held (po_close os w fd) = held w - {fd}" for w fd using assms(1) by (simp add: os_counts_def)
  then show ?thesis
    using assms(2,3)
    by (cases "pty_master p"; cases "pty_slave p") (auto simp: pty_close_def pty_fds_def Let_def)
qed

lemma pty_use_fds:
  assumes "os_counts held os"
  shows "pty_fds (fst (pty_use_step os u (p, w))) = pty_fds p \<and>
         held (snd (pty_use_step os u (p, w))) = held w"
proof (cases u)
  case (Use_Resize c r)
  obtain ok p' w' where s: "set_window_size os c r p w = (ok, p', w')" by (metis prod_cases3)
  then show ?thesis
    using set_window_size_fds [OF assms s] by (simp add: Use_Resize pty_use_step_def pty_fds_def)
next
  case (Use_Write d)
  have "held (po_write os w fd b) = held w" for fd b using assms by (simp add: os_counts_def)
  then show ?thesis
    by (simp add: Use_Write pty_use_step_def write_input_def pty_fds_def split: sum.split option.split)
next
  case (Use_Read n)
  have "held (snd (po_read os w fd n)) = held w" for fd using assms by (simp add: os_counts_def)
  then show ?thesis
    by (auto simp: Use_Read pty_use_step_def read_output_def split: option.split prod.split)
      (metis snd_conv)+
next
  case (Use_Signal sig)
  have "held (snd (po_kill os w pid sig)) = held w" for pid using assms by (simp add: os_counts_def)
  then show ?thesis by (simp add: Use_Signal pty_use_step_def pty_send_signal_def split: option.split)
qed

lemma pty_uses_fds:
  assumes "os_counts held os"
  shows "pty_fds (fst (fold (pty_use_step os) us (p, w))) = pty_fds p \<and>
         held (snd (fold (pty_use_step os) us (p, w))) = held w"
proof (induction us arbitrary: p w)
  case (Cons u us)
  obtain p' w' where s: "pty_use_step os u (p, w) = (p', w')" by fastforce
  then show ?case using pty_use_fds [OF assms, of u p w] Cons.IH [of p' w'] by simp
qed simp

section \<open>Properties\<close>

text \<open>A terminal session gives back every descriptor it took: after a session is opened,
  used in any way and closed, and also when opening it fails half way, the process holds
  exactly the descriptors it held before, and the session refers to none.\<close>

lemma pty_releases_descriptors:
  assumes "os_counts held os" and "po_posix os" and "pty_with os cols rows uses w = (exc, p, w')"
  shows "held w' = held w \<and> pty_fds p = {} \<and> \<not> pty_is_open p"
proof -
  let ?p = "new_pty cols rows"
  obtain o1 w1 where o: "po_openpty os w = (o1, w1)" by fastforce
  have op: "case po_openpty os w of (Inl exc, w1) \<Rightarrow> held w1 = held w
      | (Inr (m, s), w1) \<Rightarrow> m \<notin> held w \<and> s \<notin> held w \<and> m \<noteq> s \<and> held w1 = {m, s} \<union> held w"
    using assms(1) by (simp add: os_counts_def)
  note close = pty_close_fds [OF assms(1,2)]
  show ?thesis
  proof (cases o1)
    case (Inl e)
    obtain p1 w2 where c: "pty_close os ?p w1 = (p1, w2)" by fastforce
    have "pty_fds ?p = {}" by (simp add: new_pty_def pty_fds_def)
    with close [OF c] show ?thesis
      using assms(2,3) o op Inl c by (auto simp: pty_with_def pty_open_def)
  next
    case (Inr ms)
    obtain m s where ms: "ms = (m, s)" by fastforce
    let ?p1 = "?p\<lparr>pty_master := Some m, pty_slave := Some s\<rparr>"
    obtain ok p2 w2 where z: "set_window_size os (pty_cols ?p1) (pty_rows ?p1) ?p1 w1 = (ok, p2, w2)"
      by (metis prod_cases3)
    obtain e w3 where u: "po_setup os w2 m s = (e, w3)" by fastforce
    have "held w3 = held w2" using assms(1) u unfolding os_counts_def by (metis snd_conv)
    then have h: "held w3 = {m, s} \<union> held w" "held w \<inter> {m, s} = {}" "pty_fds p2 = {m, s}"
      using set_window_size_fds [OF assms(1) z] op by (auto simp: o Inr ms pty_fds_def)
    have opened: "pty_open os ?p w =
        (case e of Some exc \<Rightarrow> (Inl exc, pty_close os p2 w3)
         | None \<Rightarrow> (Inr (Some m, Some s), p2\<lparr>pty_is_open := True\<rparr>, w3))"
      using assms(2) o Inr ms z u by (simp add: pty_open_def Let_def split: prod.split option.split)
    show ?thesis
    proof (cases e)
      case (Some exc')
      obtain p3 w4 where c: "pty_close os p2 w3 = (p3, w4)" by fastforce
      then show ?thesis using assms(3) opened Some close [OF c] h by (auto simp: pty_with_def)
    next
      case None
      let ?p3 = "p2\<lparr>pty_is_open := True\<rparr>"
      obtain p4 w4 where f: "fold (pty_use_step os) uses (?p3, w3) = (p4, w4)" by fastforce
      obtain p5 w5 where c: "pty_close os p4 w4 = (p5, w5)" by fastforce
      have "pty_fds p4 = {m, s}" "held w4 = {m, s} \<union> held w"
        using pty_uses_fds [OF assms(1), of uses ?p3 w3] f h by (simp_all add: pty_fds_def)
      with close [OF c] h(2) show ?thesis
        using assms(3) opened None f c by (auto simp: pty_with_def)
    qed
  qed
qed

text \<open>A system whose world is the set of open descriptors, on which setting up the terminal fails.\<close>

definition demo_pty_os :: "int set pty_os" where
  "demo_pty_os =
     \<lparr>po_posix = True,
      po_openpty = (\<lambda>w. if 5 \<in> w \<or> 6 \<in> w then (Inl (OtherError []), w) else (Inr (5, 6), {5, 6} \<union> w)),
      po_winsize = (\<lambda>w _ _ _. (True, w)), po_setup = (\<lambda>w _ _. (Some (OtherError []), w)),
      po_write = (\<lambda>w _ _. w), po_read = (\<lambda>w _ _. (None, w)), po_kill = (\<lambda>w _ _. (False, w)),
      po_close = (\<lambda>w fd. w - {fd})\<rparr>"

lemma pty_releases_descriptors_witness:
  "id (snd (snd (pty_with demo_pty_os 80 24 [Use_Resize 100 50] {0}))) = {0}"
proof -
  have a: "os_counts id demo_pty_os" by (auto simp: os_counts_def demo_pty_os_def)
  have b: "po_posix demo_pty_os" by (simp add: demo_pty_os_def)
  obtain exc p w' where c: "pty_with demo_pty_os 80 24 [Use_Resize 100 50] {0} = (exc, p, w')"
    by (metis prod_cases3)
  show ?thesis using pty_releases_descriptors [OF a b c] c by simp
qed

end
