(* ===== verification/Sandbox_Factory.thy ===== *)
theory Sandbox_Factory
  imports Docker_Sandbox Pty_Session
begin

text \<open>
  The interactive operations of the three drivers and the choice between them
  (worker/sandbox/factory.py).  \<open>driver_of\<close> turns a choice into the driver's \<open>execute\<close>, so
  the contract every driver interprets holds of whatever the factory returns.
\<close>

section \<open>Interactive operations\<close>

text \<open>
  The live part of a subprocess or micro-VM driver.  \<open>ac_pty\<close> is the session the code
  consults first; no code of the repository ever assigns one.
\<close>

record active =
  ac_pty :: "pty option"
  ac_process :: bool
  ac_stdin :: bool

definition idle :: active where
  "idle = \<lparr>ac_pty = None, ac_process = False, ac_stdin = False\<rparr>"

text \<open>Writing to the pipe of the process (exceptions caught) and signalling it.\<close>

record 'w process_ops =
  px_pty :: "'w pty_os"
  px_write :: "'w \<Rightarrow> bytes \<Rightarrow> 'w"
  px_signal :: "'w \<Rightarrow> int \<Rightarrow> bool \<times> 'w"

definition input_text :: "stdin_data \<Rightarrow> pstr" where
  "input_text data = (case data of Text s \<Rightarrow> s | Raw b \<Rightarrow> decode_utf8 b)"

text \<open>The two pipe drivers differ in what they make of the data; \<open>conv\<close> is that part.\<close>

definition write_pipe ::
  "(stdin_data \<Rightarrow> py_exn + bytes) \<Rightarrow> 'w process_ops \<Rightarrow> stdin_data \<Rightarrow> active \<Rightarrow> 'w
     \<Rightarrow> py_exn option \<times> active \<times> 'w" where
  "write_pipe conv ops data ac w =
     (case ac_pty ac of
        Some p \<Rightarrow>
          (case write_input (px_pty ops) data p w of
             (exc, p1, w1) \<Rightarrow> (exc, ac\<lparr>ac_pty := Some p1\<rparr>, w1))
      | None \<Rightarrow>
          if ac_process ac \<and> ac_stdin ac then
            (case conv data of
               Inl exc \<Rightarrow> (Some exc, ac, w)
             | Inr data_bytes \<Rightarrow> (None, ac, px_write ops w data_bytes))
          else (None, ac, w))"

definition process_write_stdin ::
  "'w process_ops \<Rightarrow> stdin_data \<Rightarrow> active \<Rightarrow> 'w \<Rightarrow> py_exn option \<times> active \<times> 'w" where
  "process_write_stdin = write_pipe (\<lambda>data. encode_utf8 (normalize_newlines (input_text data)))"

definition microvm_write_stdin ::
  "'w process_ops \<Rightarrow> stdin_data \<Rightarrow> active \<Rightarrow> 'w \<Rightarrow> py_exn option \<times> active \<times> 'w" where
  "microvm_write_stdin = write_pipe stdin_bytes"

definition resize_terminal ::
  "'w process_ops \<Rightarrow> int \<Rightarrow> int \<Rightarrow> active \<Rightarrow> 'w \<Rightarrow> bool \<times> active \<times> 'w" where
  "resize_terminal ops cols rows ac w =
     (case ac_pty ac of
        Some p \<Rightarrow>
          (case set_window_size (px_pty ops) cols rows p w of
             (ok, p1, w1) \<Rightarrow> (ok, ac\<lparr>ac_pty := Some p1\<rparr>, w1))
      | None \<Rightarrow> (False, ac, w))"

definition send_signal :: "'w process_ops \<Rightarrow> int \<Rightarrow> active \<Rightarrow> 'w \<Rightarrow> bool \<times> 'w" where
  "send_signal ops sig ac w =
     (case ac_pty ac of
        Some p \<Rightarrow> pty_send_signal (px_pty ops) sig p w
      | None \<Rightarrow> if ac_process ac then px_signal ops w sig else (False, w))"

text \<open>The micro-VM driver has the same two operations.\<close>

definition vm_resize_terminal ::
  "'w process_ops \<Rightarrow> int \<Rightarrow> int \<Rightarrow> active \<Rightarrow> 'w \<Rightarrow> bool \<times> active \<times> 'w" where
  "vm_resize_terminal = resize_terminal"

definition vm_send_signal :: "'w process_ops \<Rightarrow> int \<Rightarrow> active \<Rightarrow> 'w \<Rightarrow> bool \<times> 'w" where
  "vm_send_signal = send_signal"

text \<open>Whom \<open>_terminate_subprocess\<close> kills, in order.\<close>

datatype kill_target = Process_Group | Process_Only

definition terminate_subprocess :: "bool \<Rightarrow> bool \<Rightarrow> kill_target list" where
  "terminate_subprocess win32 has_pid =
     (if \<not> win32 \<and> has_pid then [Process_Group] else []) @ [Process_Only]"

definition docker_inject :: "'w docker_host \<Rightarrow> bool \<Rightarrow> stdin_data \<Rightarrow> 'w \<Rightarrow> 'w" where
  "docker_inject dh attached data w = docker_write_stdin dh attached (input_text data) w"

text \<open>\<open>kill_container\<close> says whether Docker raised.\<close>

definition docker_send_signal ::
  "('w \<Rightarrow> int \<Rightarrow> bool \<times> 'w) \<Rightarrow> int \<Rightarrow> bool \<Rightarrow> 'w \<Rightarrow> bool \<times> 'w" where
  "docker_send_signal kill_container sig has_container w =
     (if has_container then kill_container w sig else (False, w))"

section \<open>The choice of a driver\<close>

text \<open>
  What the factory probes: whether the Docker client connects and answers a ping, whether a
  file exists, and what loading a seccomp profile gives.
\<close>

record surroundings =
  sr_docker :: bool
  sr_exists :: "pstr \<Rightarrow> bool"
  sr_load_json :: "pstr \<Rightarrow> py_exn + json"
  sr_platform :: platform

datatype sandbox_choice = Process_Box | Docker_Box "json option" | Microvm_Box microvm

text \<open>\<open>DockerSandbox(profile_path)\<close>: a path that is given, not empty and exists is loaded.\<close>

definition new_docker :: "surroundings \<Rightarrow> pstr option \<Rightarrow> py_exn + sandbox_choice" where
  "new_docker sr profile_path =
     (case profile_path of
        None \<Rightarrow> Inr (Docker_Box None)
      | Some path \<Rightarrow>
          if path \<noteq> [] \<and> sr_exists sr path then
            (case sr_load_json sr path of Inl exc \<Rightarrow> Inl exc | Inr j \<Rightarrow> Inr (Docker_Box (Some j)))
          else Inr (Docker_Box None))"

definition try_docker :: "surroundings \<Rightarrow> pstr option \<Rightarrow> sandbox_choice" where
  "try_docker sr seccomp_path =
     (if \<not> sr_docker sr then Process_Box
      else
        let profile_path =
              (if sr_exists sr (case seccomp_path of Some p \<Rightarrow> p | None \<Rightarrow> []) then seccomp_path else None)
        in case new_docker sr profile_path of Inl exc \<Rightarrow> Process_Box | Inr box \<Rightarrow> box)"

definition create_sandbox ::
  "surroundings \<Rightarrow> pstr \<Rightarrow> bool \<Rightarrow> pstr option \<Rightarrow> int \<Rightarrow> int \<Rightarrow> sandbox_choice" where
  "create_sandbox sr driver_type force_process seccomp_path vcpus mem_size_mib =
     (if force_process then Process_Box
      else
        let driver_str = py_lower driver_type
        in if driver_str = driver_value DT_PROCESS then Process_Box
           else if driver_str = driver_value DT_MICROVM then
             Microvm_Box (new_microvm (sr_platform sr) vcpus mem_size_mib)
           else if driver_str = driver_value DT_DOCKER then try_docker sr seccomp_path
           else if is_kvm_available (sr_platform sr) then
             Microvm_Box (new_microvm (sr_platform sr) vcpus mem_size_mib)
           else try_docker sr seccomp_path)"

text \<open>The \<open>execute\<close> of the chosen driver.\<close>

definition driver_of ::
  "(pyfloat \<Rightarrow> pstr) \<Rightarrow> 'w docker_host \<Rightarrow> 'w vm_host \<Rightarrow> registry \<Rightarrow> sandbox_choice \<Rightarrow> 'w driver" where
  "driver_of sf dh ho reg box =
     (case box of
        Process_Box \<Rightarrow> process_execute sf (host.truncate ho) reg
      | Docker_Box prof \<Rightarrow> docker_execute sf dh (host.truncate ho) reg prof
      | Microvm_Box vm \<Rightarrow> vm_execute vm ho reg)"

interpretation chosen: sandbox_driver "driver_of sf dh ho reg box" for sf dh ho reg box
  by unfold_locales
    (auto simp: driver_of_def process.output_cap docker.output_cap microvm_driver.output_cap
      split: sandbox_choice.splits)

section \<open>Properties\<close>

text \<open>The factory always returns a working driver, and isolation is only ever weakened
  when it has to be: the unprivileged subprocess driver is chosen exactly when it was asked
  for or forced, or when a container was wanted (or nothing else was available) and Docker
  could not be reached or its profile not be loaded; a micro-VM is chosen exactly when it is
  asked for, or none of the three is named and the hardware supports it.\<close>

lemma factory_choice:
  "(create_sandbox sr d force path vcpus mem = Process_Box \<longleftrightarrow>
      force \<or> py_lower d = lit ''process'' \<or>
      py_lower d \<noteq> lit ''microvm'' \<and>
      (if py_lower d = lit ''docker'' then True else \<not> is_kvm_available (sr_platform sr)) \<and>
      (if sr_docker sr
       then \<exists>p exc. path = Some p \<and> p \<noteq> [] \<and> sr_exists sr p \<and> sr_load_json sr p = Inl exc
       else True)) \<and>
   ((\<exists>vm. create_sandbox sr d force path vcpus mem = Microvm_Box vm) \<longleftrightarrow>
      \<not> force \<and> (py_lower d = lit ''microvm'' \<or>
        py_lower d \<notin> {lit ''process'', lit ''docker''} \<and> is_kvm_available (sr_platform sr)))"
proof -
  have t: "try_docker sr path = Process_Box \<longleftrightarrow>
      \<not> sr_docker sr \<or> (\<exists>p exc. path = Some p \<and> p \<noteq> [] \<and> sr_exists sr p \<and> sr_load_json sr p = Inl exc)"
    by (cases path; cases "sr_load_json sr (the path)")
      (auto simp: try_docker_def new_docker_def split: sum.splits)
  have m: "try_docker sr path \<noteq> Microvm_Box vm" for vm
    by (auto simp: try_docker_def new_docker_def Let_def split: sum.splits option.splits)
  have ne: "lit ''process'' \<noteq> lit ''microvm''" "lit ''process'' \<noteq> lit ''docker''" "lit ''microvm'' \<noteq> lit ''docker''"
    by simp_all
  show ?thesis
    using t m ne by (simp add: create_sandbox_def Let_def)
qed

text \<open>C34. Whatever driver the factory chooses and however the program behaves, the standard
  output in the result fits the request's ceiling.\<close>

theorem every_driver_caps_output:
  assumes "fst (driver_of sf dh ho reg (create_sandbox sr d force path vcpus mem) w rq) = Inr r"
  shows "utf8_len (rs_stdout r) \<le> nat (rq_max_output_bytes rq)"
  using assms by (rule chosen.output_bounded)

theorem every_driver_caps_output_witness:
  "\<exists>r. fst (driver_of (\<lambda>_. []) demo_daemon failing_vm_host (imported_registry (lit ''python3''))
          (create_sandbox \<lparr>sr_docker = True, sr_exists = (\<lambda>_. False), sr_load_json = (\<lambda>_. Inr JNull),
              sr_platform = \<lparr>pf_linux = True, pf_kvm_exists = False, pf_kvm_access = False,
                pf_firecracker = False\<rparr>\<rparr> (lit ''auto'') False None 1 128)
          0 (default_request (lit ''x''))) = Inr r \<and> utf8_len (rs_stdout r) \<le> 1048576"
proof -
  let ?sr = "\<lparr>sr_docker = True, sr_exists = (\<lambda>_. False), sr_load_json = (\<lambda>_. Inr JNull),
      sr_platform = \<lparr>pf_linux = True, pf_kvm_exists = False, pf_kvm_access = False, pf_firecracker = False\<rparr>\<rparr>"
  let ?rq = "default_request (lit ''x'')"
  have l: "py_lower (rq_language ?rq) = lit ''python''" "py_lower (lit ''auto'') = lit ''auto''"
    by (simp_all add: default_request_def py_lower_def lower_char_def lit_def)
  have c: "create_sandbox ?sr (lit ''auto'') False None 1 128 = Docker_Box None"
    by (simp add: create_sandbox_def l try_docker_def new_docker_def is_kvm_available_def)
  have "snd (fst (docker_stream_python (\<lambda>_. []) demo_daemon None ?rq 0)) = None"
    by (simp add: docker_stream_python_def docker_body_def demo_daemon_def start_container.simps
        docker_monitor_def docker_finish_def Let_def default_request_def split: prod.split)
  then obtain chunks w' where "docker_stream_python (\<lambda>_. []) demo_daemon None ?rq 0 = ((chunks, None), w')"
    by (metis prod.collapse)
  then obtain r where r: "fst (driver_of (\<lambda>_. []) demo_daemon failing_vm_host
      (imported_registry (lit ''python3'')) (create_sandbox ?sr (lit ''auto'') False None 1 128) 0 ?rq) = Inr r"
    by (simp add: c driver_of_def docker_execute_def l)
  with every_driver_caps_output [OF r] show ?thesis
    by (simp add: default_request_def)
qed

end
