(* ===== verification/Janitor.thy ===== *)
theory Janitor
  imports Docker_Sandbox
begin

text \<open>
  The janitor (worker/janitor/reaper.py): it removes the sandbox containers that have been
  alive for longer than a lease.  \<open>now\<close> and what the timestamp parser gives are microseconds
  since the epoch; \<open>parse_ts\<close> is \<open>datetime.fromisoformat\<close> read as UTC, \<open>None\<close> when it raises.
\<close>

record janitor_container =
  jc_id :: pstr
  jc_created :: "pstr option"

text \<open>\<open>jd_list\<close> lists the containers with the label; removing one may raise.\<close>

record 'w janitor_docker =
  jd_connect :: bool
  jd_list :: "'w \<Rightarrow> janitor_container list option"
  jd_remove :: "'w \<Rightarrow> pstr \<Rightarrow> bool \<times> 'w"

text \<open>\<open>created_raw[:26].rstrip("Z")\<close>\<close>

definition created_clean :: "pstr \<Rightarrow> pstr" where
  "created_clean s = rev (dropWhile (\<lambda>c. c = 90) (rev (take 26 s)))"

text \<open>\<open>None\<close>: the container is skipped, because it has no timestamp or parsing it raises.\<close>

definition container_age :: "(pstr \<Rightarrow> int option) \<Rightarrow> int \<Rightarrow> janitor_container \<Rightarrow> int option" where
  "container_age parse_ts now c =
     (case jc_created c of
        None \<Rightarrow> None
      | Some created_raw \<Rightarrow>
          if created_raw = [] then None
          else map_option (\<lambda>created. now - created) (parse_ts (created_clean created_raw)))"

definition is_stale :: "(pstr \<Rightarrow> int option) \<Rightarrow> int \<Rightarrow> int \<Rightarrow> janitor_container \<Rightarrow> bool" where
  "is_stale parse_ts now max_lease_seconds c =
     (case container_age parse_ts now c of Some age \<Rightarrow> age > max_lease_seconds * 1000000 | None \<Rightarrow> False)"

fun reap_loop ::
  "(pstr \<Rightarrow> int option) \<Rightarrow> 'w janitor_docker \<Rightarrow> int \<Rightarrow> int \<Rightarrow> janitor_container list \<Rightarrow> 'w
     \<Rightarrow> pstr list \<times> 'w" where
  "reap_loop parse_ts jd now lease [] w = ([], w)"
| "reap_loop parse_ts jd now lease (c # cs) w =
     (if is_stale parse_ts now lease c then
        (case jd_remove jd w (jc_id c) of
           (True, w1) \<Rightarrow> apfst ((#) (jc_id c)) (reap_loop parse_ts jd now lease cs w1)
         | (False, w1) \<Rightarrow> reap_loop parse_ts jd now lease cs w1)
      else reap_loop parse_ts jd now lease cs w)"

definition reap_stale_containers ::
  "(pstr \<Rightarrow> int option) \<Rightarrow> 'w janitor_docker \<Rightarrow> int \<Rightarrow> int \<Rightarrow> 'w \<Rightarrow> pstr list \<times> 'w" where
  "reap_stale_containers parse_ts jd now max_lease_seconds w =
     (if \<not> jd_connect jd then ([], w)
      else
        case jd_list jd w of
          None \<Rightarrow> ([], w)
        | Some containers \<Rightarrow> reap_loop parse_ts jd now max_lease_seconds containers w)"

definition default_max_lease :: int where
  "default_max_lease = 30"

section \<open>What is removed\<close>

text \<open>
  \<open>alive w\<close> are the ids of the containers in a world.  Removing one that is there may fail
  and then leaves everything; the listing names each container once.
\<close>

definition janitor_docker_ok :: "('w \<Rightarrow> pstr set) \<Rightarrow> 'w janitor_docker \<Rightarrow> bool" where
  "janitor_docker_ok alive jd \<longleftrightarrow>
     (\<forall>w i. alive (snd (jd_remove jd w i)) = (if fst (jd_remove jd w i) then alive w - {i} else alive w)) \<and>
     (\<forall>w cs. jd_list jd w = Some cs \<longrightarrow> distinct (map jc_id cs) \<and> set (map jc_id cs) \<subseteq> alive w)"

lemma is_stale_iff:
  "is_stale parse_ts now lease c \<longleftrightarrow>
     (\<exists>ts created. jc_created c = Some ts \<and> parse_ts (created_clean ts) = Some created \<and> ts \<noteq> [] \<and>
        lease * 1000000 < now - created)"
  by (auto simp: is_stale_def container_age_def split: option.splits)

lemma reap_loop_effect:
  assumes "janitor_docker_ok alive jd"
  shows "set (fst (reap_loop parse_ts jd now lease cs w)) \<subseteq> jc_id ` {c \<in> set cs. is_stale parse_ts now lease c} \<and>
    alive (snd (reap_loop parse_ts jd now lease cs w)) = alive w - set (fst (reap_loop parse_ts jd now lease cs w))"
proof (induction cs arbitrary: w)
  case (Cons c cs)
  obtain ok w1 where r: "jd_remove jd w (jc_id c) = (ok, w1)" by fastforce
  then have "alive w1 = (if ok then alive w - {jc_id c} else alive w)"
    using assms unfolding janitor_docker_ok_def by (metis fst_conv snd_conv)
  then show ?case using Cons.IH [of w1] Cons.IH [of w] r
    by (cases ok; cases "is_stale parse_ts now lease c") auto
qed simp

text \<open>The janitor removes only containers older than the lease, reports exactly the ones
  it removed, and touches nothing else: a container without a readable creation time or
  within its lease survives, and one failing removal does not stop the scan.\<close>

lemma janitor_reaps_only_stale:
  assumes "janitor_docker_ok alive jd" and "reap_stale_containers parse_ts jd now lease w = (reaped, w')"
  shows "alive w' = alive w - set reaped \<and>
         (\<forall>i \<in> set reaped. \<exists>cs c ts created. jd_list jd w = Some cs \<and> c \<in> set cs \<and> jc_id c = i \<and>
            jc_created c = Some ts \<and> parse_ts (created_clean ts) = Some created \<and>
            lease * 1000000 < now - created \<and> i \<in> alive w)"
proof (cases "jd_connect jd \<and> jd_list jd w \<noteq> None")
  case True
  then obtain cs where cs: "jd_list jd w = Some cs" "reap_loop parse_ts jd now lease cs w = (reaped, w')"
    using assms(2) by (auto simp: reap_stale_containers_def)
  then have "set (map jc_id cs) \<subseteq> alive w" using assms(1) by (simp add: janitor_docker_ok_def)
  then show ?thesis
    using reap_loop_effect [OF assms(1), of parse_ts now lease cs w] cs
    by (auto simp: is_stale_iff dest!: subsetD)
next
  case False
  then show ?thesis using assms(2) by (auto simp: reap_stale_containers_def split: option.splits)
qed

definition one_container :: "pstr set janitor_docker" where
  "one_container =
     \<lparr>jd_connect = True,
      jd_list = (\<lambda>w. if [49] \<in> w then Some [\<lparr>jc_id = [49], jc_created = Some [48]\<rparr>] else Some []),
      jd_remove = (\<lambda>w i. (True, w - {i}))\<rparr>"

definition demo_parse :: "pstr \<Rightarrow> int option" where
  "demo_parse s = Some 1000000"

lemma one_container_ok: "janitor_docker_ok id one_container"
  by (simp add: janitor_docker_ok_def one_container_def)

lemma janitor_reaps_only_stale_witness:
  "reap_stale_containers demo_parse one_container 46000000 30 {[49], [50]} = ([[49]], {[50]}) \<and>
   id {[50]} = id {[49], [50]} - set [[49 :: nat]]"
proof -
  have r: "reap_stale_containers demo_parse one_container 46000000 30 {[49], [50]} = ([[49]], {[50]})"
    by (auto simp: reap_stale_containers_def one_container_def is_stale_def container_age_def demo_parse_def)
  from janitor_reaps_only_stale [OF one_container_ok r] r show ?thesis by blast
qed

text \<open>The default lease is shorter than the run time a request may ask for, so the janitor
  kills legitimate programs: of every valid request with a deadline beyond 31 seconds, a
  container that is still running within its own deadline is already stale.\<close>

lemma janitor_lease_too_short:
  assumes "float_less (Fin 31) (rq_timeout_seconds rq)"
    and "jc_created c = Some ts" and "ts \<noteq> []" and "parse_ts (created_clean ts) = Some created"
  shows "\<exists>now. created < now \<and>
           float_less (Fin (of_int (now - created) / 1000000)) (rq_timeout_seconds rq) \<and>
           is_stale parse_ts now default_max_lease c"
  using assms
  by (intro exI [of _ "created + 31000000"])
    (simp add: is_stale_def container_age_def default_max_lease_def)

lemma janitor_lease_too_short_witness:
  "request_valid ((default_request [])\<lparr>rq_timeout_seconds := Fin 120\<rparr>) \<and>
   (\<exists>now. 1000000 < now \<and> float_less (Fin (of_int (now - 1000000) / 1000000)) (Fin 120) \<and>
      is_stale demo_parse now default_max_lease \<lparr>jc_id = [49], jc_created = Some [48]\<rparr>)"
proof
  let ?rq = "(default_request [])\<lparr>rq_timeout_seconds := Fin 120\<rparr>"
  show "request_valid ?rq" by (simp add: request_valid_def default_request_def)
  have "\<exists>now. 1000000 < now \<and>
      float_less (Fin (of_int (now - 1000000) / 1000000)) (rq_timeout_seconds ?rq) \<and>
      is_stale demo_parse now default_max_lease \<lparr>jc_id = [49], jc_created = Some [48]\<rparr>"
    by (rule janitor_lease_too_short [where ts = "[48]"]) (simp_all add: demo_parse_def)
  then show "\<exists>now. 1000000 < now \<and> float_less (Fin (of_int (now - 1000000) / 1000000)) (Fin 120) \<and>
      is_stale demo_parse now default_max_lease \<lparr>jc_id = [49], jc_created = Some [48]\<rparr>" by simp
qed

end
