(* ===== verification/Py_Uuid.thy ===== *)
theory Py_Uuid
  imports Py_Json
begin

text \<open>
  Python's \<open>uuid.UUID\<close> as the backend and the worker use it: \<open>str(u)\<close> of an identifier and
  \<open>uuid.UUID(text)\<close>, which drops the decorations, requires 32 characters and reads them with
  \<open>int(text, 16)\<close>.  An identifier is its 128-bit number.  Writing and reading are inverse.
\<close>

type_synonym uuid = nat

section \<open>Writing\<close>

fun hex_digits :: "nat \<Rightarrow> nat \<Rightarrow> pstr" where
  "hex_digits 0 n = []"
| "hex_digits (Suc k) n = hex_digits k (n div 16) @ [hex_digit (n mod 16)]"

definition show_uuid :: "uuid \<Rightarrow> pstr" where
  "show_uuid u =
     (let h = hex_digits 32 u
      in take 8 h @ 45 # take 4 (drop 8 h) @ 45 # take 4 (drop 12 h) @ 45 # take 4 (drop 16 h) @
         45 # drop 20 h)"

section \<open>Reading\<close>

text \<open>\<open>s.replace(needle, "")\<close>\<close>

function remove_text :: "pstr \<Rightarrow> pstr \<Rightarrow> pstr" where
  "remove_text needle [] = []"
| "remove_text needle (c # cs) =
     (if needle \<noteq> [] \<and> take (length needle) (c # cs) = needle
      then remove_text needle (drop (length needle) (c # cs))
      else c # remove_text needle cs)"
  by pat_completeness auto
termination by (relation "measure (\<lambda>(needle, s). length s)") (auto simp: neq_Nil_conv)

definition strip_chars :: "(nat \<Rightarrow> bool) \<Rightarrow> pstr \<Rightarrow> pstr" where
  "strip_chars p s = rev (dropWhile p (rev (dropWhile p s)))"

text \<open>The characters \<open>int\<close> skips at both ends: the C locale's white space and any other Unicode one.\<close>

definition int_space :: "nat \<Rightarrow> bool" where
  "int_space c \<longleftrightarrow> (if c < 128 then c \<in> {9, 10, 11, 12, 13, 32} else py_isspace c)"

definition hex_char :: "nat \<Rightarrow> nat option" where
  "hex_char c =
     (if 48 \<le> c \<and> c \<le> 57 then Some (c - 48)
      else if 97 \<le> c \<and> c \<le> 102 then Some (c - 87)
      else if 65 \<le> c \<and> c \<le> 70 then Some (c - 55)
      else None)"

definition hex_number :: "pstr \<Rightarrow> nat" where
  "hex_number ds = foldl (\<lambda>v d. v * 16 + the (hex_char d)) 0 ds"

text \<open>Hexadecimal digits with single underscores between them.\<close>

fun hex_group :: "bool \<Rightarrow> pstr \<Rightarrow> pstr option" where
  "hex_group after_digit [] = (if after_digit then Some [] else None)"
| "hex_group after_digit (c # cs) =
     (if c = 95 then (if after_digit then hex_group False cs else None)
      else if hex_char c = None then None
      else map_option ((#) c) (hex_group True cs))"

definition py_int16 :: "pstr \<Rightarrow> int option" where
  "py_int16 s =
     (let t = map to_ascii_decimal (strip_chars int_space s);
          (neg, d) = read_sign t;
          body =
            (if length d \<ge> 2 \<and> d ! 0 = 48 \<and> (d ! 1 = 120 \<or> d ! 1 = 88)
             then (let r = drop 2 d in if r \<noteq> [] \<and> hd r = 95 then tl r else r)
             else d)
      in map_option (\<lambda>ds. if neg then - int (hex_number ds) else int (hex_number ds))
           (hex_group False body))"

definition uuid_of :: "pstr \<Rightarrow> uuid option" where
  "uuid_of s =
     (let hex = remove_text (lit ''uuid:'') (remove_text (lit ''urn:'') s);
          hex = filter (\<lambda>c. c \<noteq> 45) (strip_chars (\<lambda>c. c = 123 \<or> c = 125) hex)
      in if length hex \<noteq> 32 then None
         else case py_int16 hex of
                Some i \<Rightarrow> if 0 \<le> i \<and> i < 2 ^ 128 then Some (nat i) else None
              | None \<Rightarrow> None)"

section \<open>They are inverse\<close>

definition is_hex :: "nat \<Rightarrow> bool" where
  "is_hex c \<longleftrightarrow> 48 \<le> c \<and> c \<le> 57 \<or> 97 \<le> c \<and> c \<le> 102"

lemma hex_digit_is_hex: "n < 16 \<Longrightarrow> is_hex (hex_digit n)" "n < 16 \<Longrightarrow> hex_char (hex_digit n) = Some n"
  by (auto simp: hex_digit_def is_hex_def hex_char_def)

lemma hex_digits_hex: "list_all is_hex (hex_digits k n)"
  by (induction k arbitrary: n) (simp_all add: hex_digit_is_hex)

lemma length_hex_digits [simp]: "length (hex_digits k n) = k"
  by (induction k arbitrary: n) simp_all

lemma hex_number_digits: "hex_number (hex_digits k n) = n mod 16 ^ k"
proof (induction k arbitrary: n)
  case (Suc k)
  have "n mod 16 ^ Suc k = n div 16 mod 16 ^ k * 16 + n mod 16"
    using mod_mult2_eq [of n 16 "16 ^ k"] by simp
  then show ?case
    using Suc.IH [of "n div 16"] by (simp add: hex_number_def hex_digit_is_hex)
qed (simp add: hex_number_def)

lemma remove_text_absent: "needle \<noteq> [] \<Longrightarrow> hd needle \<notin> set s \<Longrightarrow> remove_text needle s = s"
  by (induction needle s rule: remove_text.induct) (auto simp: neq_Nil_conv)

lemma strip_chars_absent: "list_all (\<lambda>c. \<not> p c) s \<Longrightarrow> strip_chars p s = s"
proof -
  have d: "list_all (\<lambda>c. \<not> p c) t \<Longrightarrow> dropWhile p t = t" for t by (cases t) simp_all
  show "list_all (\<lambda>c. \<not> p c) s \<Longrightarrow> strip_chars p s = s"
    using d [of s] d [of "rev s"] by (simp add: strip_chars_def)
qed

lemma hex_group_hex: "list_all is_hex s \<Longrightarrow> hex_group b s = (if s = [] \<and> \<not> b then None else Some s)"
  by (induction s arbitrary: b) (auto simp: is_hex_def hex_char_def)

lemma py_int16_hex:
  assumes "list_all is_hex s" "s \<noteq> []"
  shows "py_int16 s = Some (int (hex_number s))"
proof -
  have "strip_chars int_space s = s"
    using assms(1) by (intro strip_chars_absent) (auto simp: list_all_iff int_space_def is_hex_def)
  moreover have "map to_ascii_decimal s = s"
    using assms(1) by (intro map_idI) (auto simp: list_all_iff to_ascii_decimal_def is_hex_def)
  moreover have "read_sign s = (False, s)"
    using assms by (cases s) (auto simp: is_hex_def)
  moreover have "\<not> (length s \<ge> 2 \<and> s ! 0 = 48 \<and> (s ! 1 = 120 \<or> s ! 1 = 88))"
  proof
    assume a: "length s \<ge> 2 \<and> s ! 0 = 48 \<and> (s ! 1 = 120 \<or> s ! 1 = 88)"
    then have "is_hex (s ! 1)" using assms(1) by (simp add: list_all_length)
    with a show False by (auto simp: is_hex_def)
  qed
  ultimately have "py_int16 s =
      map_option (\<lambda>ds. int (hex_number ds)) (hex_group False s)"
    unfolding py_int16_def by (simp only: Let_def prod.case if_False)
  then show ?thesis using assms by (simp add: hex_group_hex)
qed

lemma show_uuid_filter: "filter (\<lambda>c. c \<noteq> 45) (show_uuid u) = hex_digits 32 u"
proof -
  let ?h = "hex_digits 32 u"
  have f: "filter (\<lambda>c. c \<noteq> 45) s = s" if "set s \<subseteq> set ?h" for s
  proof -
    have "45 \<notin> set s"
      using hex_digits_hex [of 32 u] that by (force simp: list_all_iff is_hex_def)
    then show ?thesis by (auto simp: filter_id_conv)
  qed
  have "take 8 ?h @ take 4 (drop 8 ?h) @ take 4 (drop 12 ?h) @ take 4 (drop 16 ?h) @ drop 20 ?h = ?h"
  proof -
    have "take 4 (drop 16 ?h) @ drop 20 ?h = drop 16 ?h"
      using append_take_drop_id [of 4 "drop 16 ?h"] by (simp add: drop_drop)
    moreover have "take 4 (drop 12 ?h) @ drop 16 ?h = drop 12 ?h"
      using append_take_drop_id [of 4 "drop 12 ?h"] by (simp add: drop_drop)
    moreover have "take 4 (drop 8 ?h) @ drop 12 ?h = drop 8 ?h"
      using append_take_drop_id [of 4 "drop 8 ?h"] by (simp add: drop_drop)
    ultimately show ?thesis using append_take_drop_id [of 8 ?h] by metis
  qed
  moreover have "set (take 8 ?h) \<subseteq> set ?h" "set (take 4 (drop k ?h)) \<subseteq> set ?h" "set (drop k ?h) \<subseteq> set ?h" for k
    by (meson set_drop_subset set_take_subset subset_trans)+
  ultimately show ?thesis by (simp add: show_uuid_def Let_def f)
qed

lemma show_uuid_chars: "c \<in> set (show_uuid u) \<Longrightarrow> is_hex c \<or> c = 45"
proof -
  assume c: "c \<in> set (show_uuid u)"
  have "c \<noteq> 45 \<Longrightarrow> c \<in> set (hex_digits 32 u)"
    using c unfolding show_uuid_filter [symmetric] by simp
  then show ?thesis using hex_digits_hex [of 32 u] by (auto simp: list_all_iff)
qed

lemma uuid_roundtrip: "u < 2 ^ 128 \<Longrightarrow> uuid_of (show_uuid u) = Some u"
proof -
  assume u: "u < 2 ^ 128"
  have no: "x \<notin> set (show_uuid u)" if "\<not> is_hex x" "x \<noteq> 45" for x
    using show_uuid_chars that by blast
  have "remove_text (lit ''urn:'') (show_uuid u) = show_uuid u"
    "remove_text (lit ''uuid:'') (show_uuid u) = show_uuid u"
    by (rule remove_text_absent, simp, rule no, simp_all add: lit_def is_hex_def)+
  moreover have "strip_chars (\<lambda>c. c = 123 \<or> c = 125) (show_uuid u) = show_uuid u"
    using no [of 123] no [of 125] by (intro strip_chars_absent) (auto simp: list_all_iff is_hex_def)
  moreover have "py_int16 (hex_digits 32 u) = Some (int u)"
    using py_int16_hex [OF hex_digits_hex, of 32 u] u
    by (simp add: hex_number_digits del: hex_digits.simps)
      (metis length_0_conv length_hex_digits zero_neq_numeral)
  ultimately show ?thesis
    using u by (simp add: uuid_of_def show_uuid_filter)
qed

lemma show_uuid_inject: "u < 2 ^ 128 \<Longrightarrow> v < 2 ^ 128 \<Longrightarrow> show_uuid u = show_uuid v \<Longrightarrow> u = v"
  using uuid_roundtrip by (metis option.inject)

lemma show_uuid_text [simp]: "utf8_text (show_uuid u)"
  using show_uuid_chars [of _ u]
  by (force simp: utf8_text_def list_all_iff is_hex_def scalar_def is_surrogate_def)

end
