(* ===== verification/Backend_Data.thy ===== *)
theory Backend_Data
  imports Worker_Tasks Py_Uuid
begin

text \<open>
  The data of the web backend (backend/app/models): the rows of its tables, the database as
  one record of tables, and the reply of an endpoint.  A table lists its rows in the order
  they were inserted.  Identifiers are drawn by the caller of an operation, as \<open>uuid4\<close>
  draws them; \<open>created_at\<close> is a clock reading in microseconds.
\<close>

section \<open>Rows\<close>

record user_row =
  us_id :: uuid
  us_username :: pstr
  us_email :: pstr
  us_hashed_password :: pstr
  us_role :: pstr
  us_is_active :: bool

text \<open>The telemetry column: an empty dictionary, or a dumped grading summary.\<close>

record submission_row =
  sb_id :: uuid
  sb_user_id :: uuid
  sb_problem_id :: "uuid option"
  sb_language :: pstr
  sb_source_code :: pstr
  sb_stdin_data :: "pstr option"
  sb_status :: pstr
  sb_score :: "int option"
  sb_max_score :: "int option"
  sb_grading_status :: "pstr option"
  sb_exit_code :: "int option"
  sb_execution_time_ms :: "int option"
  sb_peak_memory_bytes :: "int option"
  sb_output_summary :: "pstr option"
  sb_telemetry :: "grading_summary option"
  sb_created_at :: int

record test_case_row =
  te_id :: uuid
  te_input_data :: pstr
  te_expected_output :: pstr
  te_is_hidden :: bool
  te_weight :: int
  te_order :: int
  te_explanation :: "pstr option"

record problem_row =
  pr_id :: uuid
  pr_title :: pstr
  pr_slug :: pstr
  pr_description :: pstr
  pr_difficulty :: pstr
  pr_time_limit_ms :: int
  pr_memory_limit_mb :: int
  pr_is_published :: bool
  pr_created_at :: int
  pr_test_cases :: "test_case_row list"

record room_row =
  ro_id :: uuid
  ro_name :: pstr
  ro_owner_id :: uuid
  ro_language :: pstr
  ro_current_code :: pstr
  ro_is_active :: bool
  ro_max_members :: int
  ro_created_at :: int

record member_row =
  mb_id :: uuid
  mb_room_id :: uuid
  mb_user_id :: uuid
  mb_role :: pstr

record database =
  db_users :: "user_row list"
  db_submissions :: "submission_row list"
  db_problems :: "problem_row list"
  db_rooms :: "room_row list"
  db_members :: "member_row list"

definition empty_database :: database where
  "empty_database =
     \<lparr>db_users = [], db_submissions = [], db_problems = [], db_rooms = [], db_members = []\<rparr>"

section \<open>Replies\<close>

text \<open>An endpoint answers, raises an \<open>HTTPException\<close>, or fails with status 500.\<close>

datatype 'a reply = Reply 'a | Http_Error nat pstr | Crash

text \<open>\<open>scalar_one_or_none()\<close>: more than one row raises \<open>MultipleResultsFound\<close>.\<close>

definition one_or_none :: "'a list \<Rightarrow> 'a option reply" where
  "one_or_none rows =
     (case rows of [] \<Rightarrow> Reply None | [r] \<Rightarrow> Reply (Some r) | _ \<Rightarrow> Crash)"

lemma one_or_none_simps [simp]: "one_or_none [] = Reply None" "one_or_none [r] = Reply (Some r)"
  by (simp_all add: one_or_none_def)

text \<open>A query by a key that is unique finds the row.\<close>

lemma filter_unique:
  "distinct (map f xs) \<Longrightarrow> x \<in> set xs \<Longrightarrow> filter (\<lambda>y. f y = f x) xs = [x]"
proof (induction xs)
  case (Cons a xs)
  show ?case
  proof (cases "f a = f x")
    case True
    then have "filter (\<lambda>y. f y = f x) xs = []"
      using Cons.prems(1) True by (auto simp: filter_empty_conv) (metis image_eqI)
    moreover have "a = x" using Cons.prems True by auto
    ultimately show ?thesis by simp
  next
    case False
    then show ?thesis using Cons by auto
  qed
qed simp

lemma filter_at_most_one:
  "distinct (map f xs) \<Longrightarrow> filter (\<lambda>y. f y = k) xs = [] \<or> (\<exists>x \<in> set xs. filter (\<lambda>y. f y = k) xs = [x] \<and> f x = k)"
proof (cases "\<exists>x \<in> set xs. f x = k")
  case True
  assume d: "distinct (map f xs)"
  obtain x where "x \<in> set xs" "f x = k" using True by blast
  then show ?thesis using filter_unique [OF d] by metis
next
  case False
  then show ?thesis by (auto simp: filter_empty_conv)
qed

lemma one_or_none_unique:
  "distinct (map f xs) \<Longrightarrow> \<exists>r. one_or_none (filter (\<lambda>y. f y = k) xs) = Reply r \<and>
     (\<forall>x. r = Some x \<longrightarrow> x \<in> set xs \<and> f x = k)"
  using filter_at_most_one [of f xs k] by fastforce

text \<open>The value at a position in a page: \<open>offset(...)\<close>, \<open>limit(...)\<close>.\<close>

definition page_of :: "int \<Rightarrow> int \<Rightarrow> 'a list \<Rightarrow> 'a list" where
  "page_of page page_size rows = take (nat page_size) (drop (nat ((page - 1) * page_size)) rows)"

text \<open>The pages of positive size, one after the other, are all the rows.\<close>

lemma pages_all:
  assumes "0 < sz"
  shows "concat (map (\<lambda>p. page_of (int p + 1) sz xs) [0..<n]) = take (n * nat sz) xs"
proof (induction n)
  case (Suc n)
  have "page_of (int n + 1) sz xs = take (nat sz) (drop (n * nat sz) xs)"
    using assms by (simp add: page_of_def nat_mult_distrib)
  moreover have "take (Suc n * nat sz) xs = take (n * nat sz) xs @ take (nat sz) (drop (n * nat sz) xs)"
    using take_add [of "n * nat sz" "nat sz" xs] by (simp add: add.commute)
  ultimately show ?case using Suc by (simp del: mult_Suc)
qed simp

end
