(* ===== verification/Accounts.thy ===== *)
theory Accounts
  imports Backend_Data
begin

text \<open>
  Accounts: passwords and tokens (backend/app/core/security.py), the user service, the
  dependencies that authenticate a request (backend/app/api/deps.py) and the endpoints of
  api/v1/endpoints/auth.py.  bcrypt, the JWT library and the e-mail validator are arguments.
\<close>

section \<open>Passwords\<close>

text \<open>\<open>hashpw\<close> and \<open>checkpw\<close> may raise.\<close>

record bcrypt =
  bc_hashpw :: "bytes \<Rightarrow> pstr \<Rightarrow> py_exn + pstr"
  bc_checkpw :: "bytes \<Rightarrow> bytes \<Rightarrow> py_exn + bool"

definition password_bytes :: "pstr \<Rightarrow> py_exn + bytes" where
  "password_bytes password =
     (case encode_utf8 password of Inl exc \<Rightarrow> Inl exc | Inr b \<Rightarrow> Inr (take 72 b))"

text \<open>Only \<open>ValueError\<close> and \<open>TypeError\<close> are caught; bcrypt raises no other.\<close>

definition verify_password :: "bcrypt \<Rightarrow> pstr \<Rightarrow> pstr \<Rightarrow> bool" where
  "verify_password bc plain_password hashed_password =
     (case (password_bytes plain_password, encode_utf8 hashed_password) of
        (Inr pw_bytes, Inr hash_bytes) \<Rightarrow>
          (case bc_checkpw bc pw_bytes hash_bytes of Inr b \<Rightarrow> b | Inl exc \<Rightarrow> False)
      | _ \<Rightarrow> False)"

definition get_password_hash :: "bcrypt \<Rightarrow> pstr \<Rightarrow> pstr \<Rightarrow> py_exn + pstr" where
  "get_password_hash bc salt password =
     (case password_bytes password of Inl exc \<Rightarrow> Inl exc | Inr b \<Rightarrow> bc_hashpw bc b salt)"

section \<open>Tokens\<close>

record jwt =
  jw_encode :: "(pstr \<times> json) list \<Rightarrow> pstr"
  jw_decode :: "int \<Rightarrow> pstr \<Rightarrow> (pstr \<times> json) list option"

definition access_token_expire_minutes :: int where
  "access_token_expire_minutes = 30"

text \<open>Times are microseconds; the library writes \<open>exp\<close> in whole seconds.\<close>

definition access_claims :: "int \<Rightarrow> pstr \<Rightarrow> int option \<Rightarrow> (pstr \<times> json) list" where
  "access_claims now subject expires_delta =
     (let expire = now + (case expires_delta of
            Some d \<Rightarrow> if d \<noteq> 0 then d else access_token_expire_minutes * 60000000
          | None \<Rightarrow> access_token_expire_minutes * 60000000)
      in [(lit ''exp'', JInt (expire div 1000000)), (lit ''sub'', JStr subject),
          (lit ''type'', JStr (lit ''access''))])"

definition create_access_token :: "jwt \<Rightarrow> int \<Rightarrow> pstr \<Rightarrow> int option \<Rightarrow> pstr" where
  "create_access_token jw now subject expires_delta = jw_encode jw (access_claims now subject expires_delta)"

definition decode_token :: "jwt \<Rightarrow> int \<Rightarrow> pstr \<Rightarrow> (pstr \<times> json) list option" where
  "decode_token jw now token = jw_decode jw now token"

section \<open>The user service\<close>

record user_create =
  uc_email :: pstr
  uc_username :: pstr
  uc_password :: pstr
  uc_role :: pstr

definition username_char :: "nat \<Rightarrow> bool" where
  "username_char c \<longleftrightarrow>
     97 \<le> c \<and> c \<le> 122 \<or> 65 \<le> c \<and> c \<le> 90 \<or> 48 \<le> c \<and> c \<le> 57 \<or> c \<in> {95, 46, 45}"

definition account_roles :: "pstr list" where
  "account_roles = [lit ''student'', lit ''instructor'', lit ''admin'']"

text \<open>\<open>UserCreate\<close>: the bounds and patterns pydantic checks; \<open>is_email\<close> is \<open>EmailStr\<close>.\<close>

definition user_create_valid :: "(pstr \<Rightarrow> bool) \<Rightarrow> user_create \<Rightarrow> bool" where
  "user_create_valid is_email uc \<longleftrightarrow>
     is_email (uc_email uc) \<and>
     3 \<le> length (uc_username uc) \<and> length (uc_username uc) \<le> 50 \<and>
     list_all username_char (uc_username uc) \<and>
     8 \<le> length (uc_password uc) \<and> length (uc_password uc) \<le> 128 \<and>
     List.member account_roles (uc_role uc)"

definition get_user_by_email :: "database \<Rightarrow> pstr \<Rightarrow> user_row option reply" where
  "get_user_by_email db email = one_or_none (filter (\<lambda>u. us_email u = email) (db_users db))"

definition get_user_by_username :: "database \<Rightarrow> pstr \<Rightarrow> user_row option reply" where
  "get_user_by_username db username =
     one_or_none (filter (\<lambda>u. us_username u = username) (db_users db))"

text \<open>Both columns are unique: committing a duplicate raises \<open>IntegrityError\<close>.\<close>

definition create_user ::
  "bcrypt \<Rightarrow> pstr \<Rightarrow> uuid \<Rightarrow> user_create \<Rightarrow> database \<Rightarrow> user_row reply \<times> database" where
  "create_user bc salt new_id user_in db =
     (case get_password_hash bc salt (uc_password user_in) of
        Inl exc \<Rightarrow> (Crash, db)
      | Inr hashed_password \<Rightarrow>
          (let user = \<lparr>us_id = new_id, us_username = uc_username user_in, us_email = uc_email user_in,
                       us_hashed_password = hashed_password, us_role = uc_role user_in,
                       us_is_active = True\<rparr>
           in if list_ex (\<lambda>u. us_email u = us_email user \<or> us_username u = us_username user \<or>
                   us_id u = new_id) (db_users db)
              then (Crash, db)
              else (Reply user, db\<lparr>db_users := db_users db @ [user]\<rparr>)))"

definition authenticate_user :: "bcrypt \<Rightarrow> pstr \<Rightarrow> pstr \<Rightarrow> database \<Rightarrow> user_row option reply" where
  "authenticate_user bc username_or_email password db =
     (case one_or_none (filter (\<lambda>u. us_username u = username_or_email \<or> us_email u = username_or_email)
              (db_users db)) of
        Reply (Some user) \<Rightarrow>
          Reply (if verify_password bc password (us_hashed_password user) then Some user else None)
      | r \<Rightarrow> r)"

section \<open>Authenticating a request\<close>

definition credentials_exception :: "'a reply" where
  "credentials_exception = Http_Error 401 (lit ''Could not validate credentials'')"

definition get_current_user :: "jwt \<Rightarrow> int \<Rightarrow> pstr \<Rightarrow> database \<Rightarrow> user_row reply" where
  "get_current_user jw now token db =
     (case decode_token jw now token of
        None \<Rightarrow> credentials_exception
      | Some payload \<Rightarrow>
          (case map_of payload (lit ''sub'') of
             None \<Rightarrow> credentials_exception
           | Some JNull \<Rightarrow> credentials_exception
           | Some (JStr user_id_str) \<Rightarrow>
               (case uuid_of user_id_str of
                  None \<Rightarrow> credentials_exception
                | Some user_uuid \<Rightarrow>
                    (case one_or_none (filter (\<lambda>u. us_id u = user_uuid) (db_users db)) of
                       Reply (Some user) \<Rightarrow>
                         if us_is_active user then Reply user
                         else Http_Error 400 (lit ''Inactive user account'')
                     | Reply None \<Rightarrow> credentials_exception
                     | Http_Error code m \<Rightarrow> Http_Error code m
                     | Crash \<Rightarrow> Crash))
           | Some v \<Rightarrow> Crash))"

definition is_admin :: "user_row \<Rightarrow> bool" where
  "is_admin user \<longleftrightarrow> us_role user = lit ''admin''"

definition get_current_admin_user :: "jwt \<Rightarrow> int \<Rightarrow> pstr \<Rightarrow> database \<Rightarrow> user_row reply" where
  "get_current_admin_user jw now token db =
     (case get_current_user jw now token db of
        Reply user \<Rightarrow>
          if \<not> is_admin user
          then Http_Error 403 (lit ''Insufficient permissions. Administrator role required.'')
          else Reply user
      | r \<Rightarrow> r)"

section \<open>The endpoints\<close>

text \<open>A body that is not \<open>user_create_valid\<close> is answered with 422 before the endpoint runs.\<close>

definition register_user ::
  "bcrypt \<Rightarrow> pstr \<Rightarrow> uuid \<Rightarrow> user_create \<Rightarrow> database \<Rightarrow> user_row reply \<times> database" where
  "register_user bc salt new_id user_in db =
     (case get_user_by_email db (uc_email user_in) of
        Reply (Some existing) \<Rightarrow>
          (Http_Error 400 (lit ''An account with this email already exists.''), db)
      | Reply None \<Rightarrow>
          (case get_user_by_username db (uc_username user_in) of
             Reply (Some existing) \<Rightarrow>
               (Http_Error 400 (lit ''An account with this username already exists.''), db)
           | Reply None \<Rightarrow> create_user bc salt new_id user_in db
           | _ \<Rightarrow> (Crash, db))
      | _ \<Rightarrow> (Crash, db))"

record token_response =
  tk_access_token :: pstr
  tk_token_type :: pstr
  tk_expires_in :: int

text \<open>The two login endpoints differ only in how they are given the two texts.\<close>

definition login ::
  "bcrypt \<Rightarrow> jwt \<Rightarrow> int \<Rightarrow> pstr \<Rightarrow> pstr \<Rightarrow> database \<Rightarrow> token_response reply" where
  "login bc jw now username_or_email password db =
     (case authenticate_user bc username_or_email password db of
        Reply (Some user) \<Rightarrow>
          if \<not> us_is_active user then Http_Error 400 (lit ''Inactive user account.'')
          else
            Reply \<lparr>tk_access_token =
                     create_access_token jw now (show_uuid (us_id user))
                       (Some (access_token_expire_minutes * 60000000)),
                   tk_token_type = lit ''bearer'',
                   tk_expires_in = access_token_expire_minutes * 60\<rparr>
      | Reply None \<Rightarrow> Http_Error 401 (lit ''Incorrect username/email or password.'')
      | Http_Error code m \<Rightarrow> Http_Error code m
      | Crash \<Rightarrow> Crash)"

definition login_json ::
  "bcrypt \<Rightarrow> jwt \<Rightarrow> int \<Rightarrow> pstr \<Rightarrow> pstr \<Rightarrow> database \<Rightarrow> token_response reply" where
  "login_json = login"

section \<open>The accounts table\<close>

text \<open>
  Identifiers, user names and e-mail addresses are unique, and no user name can be taken for
  an e-mail address: one has no \<open>@\<close> and the other has one.
\<close>

definition accounts_inv :: "user_row list \<Rightarrow> bool" where
  "accounts_inv us \<longleftrightarrow>
     distinct (map us_id us) \<and> distinct (map us_username us) \<and> distinct (map us_email us) \<and>
     list_all (\<lambda>u. 64 \<notin> set (us_username u) \<and> 64 \<in> set (us_email u) \<and>
       List.member account_roles (us_role u)) us"

lemma accounts_inv_Nil [simp]: "accounts_inv []"
  by (simp add: accounts_inv_def)

text \<open>What the e-mail validator promises: an address contains an \<open>@\<close>.\<close>

definition email_ok :: "(pstr \<Rightarrow> bool) \<Rightarrow> bool" where
  "email_ok is_email \<longleftrightarrow> (\<forall>e. is_email e \<longrightarrow> 64 \<in> set e)"

lemma register_cases:
  assumes "register_user bc salt new_id uc db = (r, db')"
  obtains "db' = db" and "\<forall>u. r \<noteq> Reply u"
  | h where "get_password_hash bc salt (uc_password uc) = Inr h"
    and "r = Reply \<lparr>us_id = new_id, us_username = uc_username uc, us_email = uc_email uc,
               us_hashed_password = h, us_role = uc_role uc, us_is_active = True\<rparr>"
    and "db' = db\<lparr>db_users := db_users db @ [\<lparr>us_id = new_id, us_username = uc_username uc,
               us_email = uc_email uc, us_hashed_password = h, us_role = uc_role uc, us_is_active = True\<rparr>]\<rparr>"
    and "uc_email uc \<notin> us_email ` set (db_users db)" and "uc_username uc \<notin> us_username ` set (db_users db)"
    and "new_id \<notin> us_id ` set (db_users db)"
  using assms
  by (auto simp: register_user_def create_user_def list_ex_iff Let_def image_iff
      split: reply.splits option.splits sum.splits if_splits) metis

lemma register_inv:
  assumes "register_user bc salt new_id uc db = (r, db')" "accounts_inv (db_users db)"
    and "user_create_valid is_email uc" "email_ok is_email"
  shows "accounts_inv (db_users db')"
  using assms(1)
proof (rule register_cases)
  fix h
  assume "db' = db\<lparr>db_users := db_users db @ [\<lparr>us_id = new_id, us_username = uc_username uc,
      us_email = uc_email uc, us_hashed_password = h, us_role = uc_role uc, us_is_active = True\<rparr>]\<rparr>"
    and "uc_email uc \<notin> us_email ` set (db_users db)" "uc_username uc \<notin> us_username ` set (db_users db)"
    and "new_id \<notin> us_id ` set (db_users db)"
  moreover have "64 \<notin> set (uc_username uc)" "64 \<in> set (uc_email uc)" "List.member account_roles (uc_role uc)"
    using assms(3,4) by (auto simp: user_create_valid_def email_ok_def list_all_iff username_char_def)
  ultimately show ?thesis using assms(2) by (simp add: accounts_inv_def)
qed (use assms(2) in simp)

text \<open>A login name matches at most one account.\<close>

lemma login_match:
  assumes "accounts_inv us"
  shows "filter (\<lambda>u. us_username u = x \<or> us_email u = x) us =
    (if 64 \<in> set x then filter (\<lambda>u. us_email u = x) us else filter (\<lambda>u. us_username u = x) us)"
proof -
  have "64 \<notin> set (us_username u) \<and> 64 \<in> set (us_email u)" if "u \<in> set us" for u
    using assms that by (simp add: accounts_inv_def list_all_iff)
  then show ?thesis by (auto intro!: filter_cong)
qed

lemma login_unambiguous:
  assumes "accounts_inv us"
  shows "\<exists>r. one_or_none (filter (\<lambda>u. us_username u = x \<or> us_email u = x) us) = Reply r"
proof -
  have "distinct (map us_email us)" "distinct (map us_username us)"
    using assms by (simp_all add: accounts_inv_def)
  then show ?thesis
    unfolding login_match [OF assms]
    using one_or_none_unique [of us_email us x] one_or_none_unique [of us_username us x] by auto
qed

section \<open>What the libraries promise\<close>

text \<open>A password checks against its own hash, which is text.\<close>

definition bcrypt_ok :: "bcrypt \<Rightarrow> bool" where
  "bcrypt_ok bc \<longleftrightarrow>
     (\<forall>b salt h. bc_hashpw bc b salt = Inr h \<longrightarrow>
        utf8_text h \<and> bc_checkpw bc b (utf8_encode h) = Inr True)"

text \<open>A token decodes to its claims until it has expired.\<close>

definition jwt_ok :: "jwt \<Rightarrow> bool" where
  "jwt_ok jw \<longleftrightarrow>
     (\<forall>now subject d later e. utf8_text subject \<longrightarrow>
        map_of (access_claims now subject d) (lit ''exp'') = Some (JInt e) \<longrightarrow>
        jw_decode jw later (jw_encode jw (access_claims now subject d)) =
          (if later div 1000000 \<le> e then Some (access_claims now subject d) else None))"

lemma verify_own_password:
  assumes "bcrypt_ok bc" "get_password_hash bc salt pw = Inr h"
  shows "verify_password bc pw h"
proof -
  obtain b where b: "password_bytes pw = Inr b" "bc_hashpw bc b salt = Inr h"
    using assms(2) by (auto simp: get_password_hash_def split: sum.splits)
  then have "utf8_text h" "bc_checkpw bc b (utf8_encode h) = Inr True"
    using assms(1) unfolding bcrypt_ok_def by blast+
  then show ?thesis using b by (simp add: verify_password_def encode_utf8_def)
qed

lemma token_decodes:
  assumes "jwt_ok jw" "later < now + access_token_expire_minutes * 60000000" "utf8_text subject"
  shows "jw_decode jw later (jw_encode jw (access_claims now subject (Some (access_token_expire_minutes * 60000000)))) =
    Some (access_claims now subject (Some (access_token_expire_minutes * 60000000)))"
proof -
  have "later div 1000000 \<le> (now + 1800000000) div 1000000"
    using assms(2) by (intro zdiv_mono1) (simp_all add: access_token_expire_minutes_def)
  moreover have "map_of (access_claims now subject (Some (access_token_expire_minutes * 60000000))) (lit ''exp'') =
      Some (JInt ((now + 1800000000) div 1000000))"
    by (simp add: access_claims_def access_token_expire_minutes_def)
  ultimately show ?thesis using assms(1,3) by (simp add: jwt_ok_def)
qed

lemma current_user_of_token:
  assumes "jwt_ok jw" "distinct (map us_id (db_users db))" "u \<in> set (db_users db)"
    and "us_id u < 2 ^ 128" "us_is_active u" "later < now + access_token_expire_minutes * 60000000"
  shows "get_current_user jw later
    (create_access_token jw now (show_uuid (us_id u)) (Some (access_token_expire_minutes * 60000000))) db = Reply u"
proof -
  let ?c = "access_claims now (show_uuid (us_id u)) (Some (access_token_expire_minutes * 60000000))"
  have "jw_decode jw later (jw_encode jw ?c) = Some ?c"
    by (rule token_decodes [OF assms(1,6)]) simp
  moreover have "map_of ?c (lit ''sub'') = Some (JStr (show_uuid (us_id u)))"
    by (simp add: access_claims_def Let_def)
  moreover have "filter (\<lambda>v. us_id v = us_id u) (db_users db) = [u]"
    using filter_unique [OF assms(2,3)] .
  ultimately show ?thesis
    using uuid_roundtrip [OF assms(4)] assms(5)
    by (simp add: get_current_user_def decode_token_def create_access_token_def)
qed

lemma authenticate_own:
  assumes "accounts_inv (db_users db)" "u \<in> set (db_users db)" "x = us_username u \<or> x = us_email u"
  shows "authenticate_user bc x pw db = Reply (if verify_password bc pw (us_hashed_password u) then Some u else None)"
proof -
  have d: "distinct (map us_email (db_users db))" "distinct (map us_username (db_users db))"
    and at: "64 \<notin> set (us_username u)" "64 \<in> set (us_email u)"
    using assms(1,2) by (simp_all add: accounts_inv_def list_all_iff)
  have "filter (\<lambda>v. us_username v = x \<or> us_email v = x) (db_users db) = [u]"
    using assms(3) filter_unique [OF d(1) assms(2)] filter_unique [OF d(2) assms(2)] at
    unfolding login_match [OF assms(1)] by auto
  then show ?thesis by (simp add: authenticate_user_def)
qed

section \<open>Properties\<close>


text \<open>A hash that accepts everything, and tokens that are their claims in JSON.\<close>

definition demo_bcrypt :: bcrypt where
  "demo_bcrypt = \<lparr>bc_hashpw = (\<lambda>_ _. Inr (lit ''h'')), bc_checkpw = (\<lambda>_ _. Inr True)\<rparr>"

definition demo_jwt :: jwt where
  "demo_jwt =
     \<lparr>jw_encode = (\<lambda>claims. dumps (\<lambda>_. []) (JObj claims)),
      jw_decode = (\<lambda>now token.
        case loads token of
          Some (JObj claims) \<Rightarrow>
            (case map_of claims (lit ''exp'') of
               Some (JInt e) \<Rightarrow> if now div 1000000 \<le> e then Some claims else None
             | _ \<Rightarrow> None)
        | _ \<Rightarrow> None)\<rparr>"

lemma demo_jwt_ok: "jwt_ok demo_jwt"
proof -
  have p: "json_plain (JObj (access_claims now s d))" if "utf8_text s" for now s d
    using that by (simp add: access_claims_def Let_def)
  show ?thesis
    unfolding jwt_ok_def
  proof (intro allI impI)
    fix now s d later e
    assume "utf8_text s" "map_of (access_claims now s d) (lit ''exp'') = Some (JInt e)"
    then show "jw_decode demo_jwt later (jw_encode demo_jwt (access_claims now s d)) =
        (if later div 1000000 \<le> e then Some (access_claims now s d) else None)"
      using loads_dumps [OF p, of s "\<lambda>_. []" now d] by (simp add: demo_jwt_def del: dumps.simps)
  qed
qed

definition demo_account :: user_create where
  "demo_account =
     \<lparr>uc_email = lit ''ann@lab'', uc_username = lit ''ann'', uc_password = lit ''secret-12'',
      uc_role = lit ''student''\<rparr>"

lemma demo_account_valid: "user_create_valid (\<lambda>e. 64 \<in> set e) demo_account"
  by (simp add: user_create_valid_def demo_account_def account_roles_def username_char_def lit_def)

lemma demo_register:
  "register_user demo_bcrypt [] 7 demo_account empty_database =
     (Reply \<lparr>us_id = 7, us_username = lit ''ann'', us_email = lit ''ann@lab'',
        us_hashed_password = lit ''h'', us_role = lit ''student'', us_is_active = True\<rparr>,
      empty_database\<lparr>db_users := [\<lparr>us_id = 7, us_username = lit ''ann'', us_email = lit ''ann@lab'',
        us_hashed_password = lit ''h'', us_role = lit ''student'', us_is_active = True\<rparr>]\<rparr>)"
  by (simp add: register_user_def get_user_by_email_def get_user_by_username_def create_user_def
      get_password_hash_def password_bytes_def encode_utf8_def demo_bcrypt_def demo_account_def
      empty_database_def Let_def)


end
