(* ===== verification/Rate_Limiter.thy ===== *)
theory Rate_Limiter
  imports Sandbox_Models
begin

text \<open>
  The sliding window rate limiter (backend/app/core/rate_limiter.py).  The sorted set in
  Redis is an argument; each of the two transactions of a call is one operation of it.  The
  call is split at the point between them, so that concurrent calls can be interleaved.
\<close>

section \<open>The limiter\<close>

record rate_limiter =
  rl_max_requests :: int
  rl_window_seconds :: int
  rl_scope :: pstr

definition default_limiter :: rate_limiter where
  "default_limiter =
     \<lparr>rl_max_requests = 15, rl_window_seconds = 60, rl_scope = lit ''submissions''\<rparr>"

text \<open>
  \<open>zs_evaluate key hi now\<close>: remove the members scored from 0 to \<open>hi\<close> and count the rest.
  \<open>zs_record key member score ttl now\<close>: add a member and renew the key's expiry.
\<close>

record 'r zset_store =
  zs_evaluate :: "pstr \<Rightarrow> pyfloat \<Rightarrow> rat \<Rightarrow> 'r \<Rightarrow> (py_exn + nat) \<times> 'r"
  zs_record :: "pstr \<Rightarrow> pstr \<Rightarrow> rat \<Rightarrow> int \<Rightarrow> rat \<Rightarrow> 'r \<Rightarrow> py_exn option \<times> 'r"

definition limit_key :: "rate_limiter \<Rightarrow> pstr option \<Rightarrow> pstr option \<Rightarrow> pstr" where
  "limit_key rl client_host user_id =
     (let client_ip = (case client_host of Some h \<Rightarrow> h | None \<Rightarrow> lit ''unknown'');
          identifier =
            (if opt_truthy user_id then lit ''user:'' @ the user_id else lit ''ip:'' @ client_ip)
      in lit ''rce:ratelimit:'' @ rl_scope rl @ [58] @ identifier)"

text \<open>\<open>f"{now}:{uuid4().hex[:8]}"\<close>\<close>

definition member_id :: "(pyfloat \<Rightarrow> pstr) \<Rightarrow> rat \<Rightarrow> pstr \<Rightarrow> pstr" where
  "member_id sf now token = sf (Fin now) @ [58] @ token"

definition window_start :: "rate_limiter \<Rightarrow> rat \<Rightarrow> pyfloat" where
  "window_start rl now = float_sub (Fin now) (fl (of_int (rl_window_seconds rl)))"

datatype decision = Admitted | Rejected pstr | Failed_Open

definition rejection :: "rate_limiter \<Rightarrow> decision" where
  "rejection rl =
     Rejected (lit ''Rate limit exceeded: maximum '' @ show_int (rl_max_requests rl) @
       lit '' requests per '' @ show_int (rl_window_seconds rl) @ lit ''s.'')"

text \<open>The first transaction: \<open>None\<close> means the call goes on to the second.\<close>

definition rate_check ::
  "'r zset_store \<Rightarrow> rate_limiter \<Rightarrow> pstr \<Rightarrow> rat \<Rightarrow> 'r \<Rightarrow> decision option \<times> 'r" where
  "rate_check zs rl key now r =
     (case zs_evaluate zs key (window_start rl now) now r of
        (Inl exc, r1) \<Rightarrow> (Some Failed_Open, r1)
      | (Inr current_count, r1) \<Rightarrow>
          if int current_count \<ge> rl_max_requests rl then (Some (rejection rl), r1) else (None, r1))"

definition rate_record ::
  "'r zset_store \<Rightarrow> rate_limiter \<Rightarrow> pstr \<Rightarrow> pstr \<Rightarrow> rat \<Rightarrow> 'r \<Rightarrow> decision \<times> 'r" where
  "rate_record zs rl key member now r =
     (case zs_record zs key member now (rl_window_seconds rl + 5) now r of
        (Some exc, r1) \<Rightarrow> (Failed_Open, r1)
      | (None, r1) \<Rightarrow> (Admitted, r1))"

definition rate_limit ::
  "'r zset_store \<Rightarrow> rate_limiter \<Rightarrow> pstr \<Rightarrow> pstr \<Rightarrow> rat \<Rightarrow> 'r \<Rightarrow> decision \<times> 'r" where
  "rate_limit zs rl key member now r =
     (case rate_check zs rl key now r of
        (Some d, r1) \<Rightarrow> (d, r1)
      | (None, r1) \<Rightarrow> rate_record zs rl key member now r1)"

text \<open>Calls of one client one after the other: the members and times of those admitted.\<close>

fun admitted_calls ::
  "'r zset_store \<Rightarrow> rate_limiter \<Rightarrow> pstr \<Rightarrow> (pstr \<times> rat) list \<Rightarrow> 'r \<Rightarrow> (pstr \<times> rat) list \<times> 'r" where
  "admitted_calls zs rl key [] r = ([], r)"
| "admitted_calls zs rl key ((m, now) # calls) r =
     (case rate_limit zs rl key m now r of
        (d, r1) \<Rightarrow>
          (case admitted_calls zs rl key calls r1 of
             (as, r2) \<Rightarrow> (if d = Admitted then (m, now) # as else as, r2)))"

text \<open>Concurrent calls: all count before any records.\<close>

fun check_all :: "'r zset_store \<Rightarrow> rate_limiter \<Rightarrow> pstr \<Rightarrow> rat \<Rightarrow> nat \<Rightarrow> 'r \<Rightarrow> decision option list \<times> 'r" where
  "check_all zs rl key now 0 r = ([], r)"
| "check_all zs rl key now (Suc n) r =
     (case rate_check zs rl key now r of
        (d, r1) \<Rightarrow> (case check_all zs rl key now n r1 of (ds, r2) \<Rightarrow> (d # ds, r2)))"

fun record_all :: "'r zset_store \<Rightarrow> rate_limiter \<Rightarrow> pstr \<Rightarrow> rat \<Rightarrow> pstr list \<Rightarrow> 'r \<Rightarrow> decision list \<times> 'r" where
  "record_all zs rl key now [] r = ([], r)"
| "record_all zs rl key now (m # ms) r =
     (case rate_record zs rl key m now r of
        (d, r1) \<Rightarrow> (case record_all zs rl key now ms r1 of (ds, r2) \<Rightarrow> (d # ds, r2)))"

section \<open>The sorted set\<close>

text \<open>
  \<open>view r t key\<close> are the members with their scores that a client sees at time \<open>t\<close> if nothing
  is done to the key: Redis drops the whole key when its time to live has passed.
\<close>

definition zset_ok :: "('r \<Rightarrow> rat \<Rightarrow> pstr \<Rightarrow> (pstr \<times> rat) set) \<Rightarrow> 'r zset_store \<Rightarrow> bool" where
  "zset_ok view zs \<longleftrightarrow>
     (\<forall>key hi t r. \<exists>r1. zs_evaluate zs key hi t r = (Inr (card (view r1 t key)), r1) \<and>
        (\<forall>t' \<ge> t. view r1 t' key =
           {x \<in> view r t' key. \<not> (0 \<le> snd x \<and> float_le (Fin (snd x)) hi)})) \<and>
     (\<forall>key m s ttl t r. \<exists>r1. zs_record zs key m s ttl t r = (None, r1) \<and>
        (\<forall>t' \<ge> t. view r1 t' key =
           (if t' < t + of_int ttl then insert (m, s) {x \<in> view r t key. fst x \<noteq> m} else {})))"

lemma zset_evaluateE:
  assumes "zset_ok view zs"
  obtains r1 where "zs_evaluate zs key (Fin x) t r = (Inr (card (view r1 t key)), r1)"
    and "\<And>t'. t \<le> t' \<Longrightarrow> view r1 t' key = {a \<in> view r t' key. \<not> (0 \<le> snd a \<and> snd a \<le> x)}"
proof -
  have "\<forall>key hi t r. \<exists>r1. zs_evaluate zs key hi t r = (Inr (card (view r1 t key)), r1) \<and>
      (\<forall>t' \<ge> t. view r1 t' key = {x \<in> view r t' key. \<not> (0 \<le> snd x \<and> float_le (Fin (snd x)) hi)})"
    using assms unfolding zset_ok_def by (rule conjunct1)
  from this [rule_format, of key "Fin x" t r] that show ?thesis by auto
qed

lemma zset_recordE:
  assumes "zset_ok view zs"
  obtains r1 where "zs_record zs key m s ttl t r = (None, r1)"
    and "\<And>t'. t \<le> t' \<Longrightarrow> view r1 t' key =
      (if t' < t + of_int ttl then insert (m, s) {x \<in> view r t key. fst x \<noteq> m} else {})"
proof -
  have "\<forall>key m s ttl t r. \<exists>r1. zs_record zs key m s ttl t r = (None, r1) \<and>
      (\<forall>t' \<ge> t. view r1 t' key =
        (if t' < t + of_int ttl then insert (m, s) {x \<in> view r t key. fst x \<noteq> m} else {}))"
    using assms unfolding zset_ok_def by (rule conjunct2)
  from this [rule_format, of key m s ttl t r] that show ?thesis by blast
qed

text \<open>A clock reading of the years before 2038: a float whose last binary digit is worth \<open>2 ^ -22\<close>.\<close>

definition clock_time :: "rat \<Rightarrow> bool" where
  "clock_time t \<longleftrightarrow> (\<exists>k :: int. 0 \<le> k \<and> k < 2 ^ 53 \<and> t = of_int k / 2 ^ 22)"

lemma fl_clock:
  assumes "clock_time t"
  shows "fl t = Fin t"
proof -
  obtain k :: int where k: "0 \<le> k" "k < 2 ^ 53" "t = of_int k / 2 ^ 22"
    using assms by (auto simp: clock_time_def)
  show ?thesis
  proof (cases "k = 0")
    case False
    then have pos: "0 < t" using k by simp
    define e where "e = max (- 1074) (ilog2 \<bar>t\<bar> - 52)"
    define v where "v = of_int (rnd_even (\<bar>t\<bar> / 2 powi e)) * (2::rat) powi e"
    have "(of_int k :: rat) < 2 ^ 53" using k(2) by (metis of_int_less_iff of_int_numeral of_int_power)
    then have t31: "t < 2 powi 31" by (simp add: k(3) power_int_def field_simps)
    then have e: "e \<le> - 22" using ilog2_less [OF pos t31] pos by (simp add: e_def)
    have "\<bar>t\<bar> / 2 powi e = of_int k / 2 powi (e + 22)"
      using pos by (simp add: k(3) power_int_add power_int_numeral)
    moreover obtain m :: int where "(of_int k :: rat) / 2 powi (e + 22) = of_int m"
      using fl_unit_int [of "e + 22" k] e by auto
    ultimately have "v = \<bar>t\<bar>" by (simp add: v_def) (simp add: field_simps)
    then have v: "v = t" using pos by simp
    have "v < 2 ^ 1024" unfolding v using t31 by (rule less_le_trans) (simp add: power_int_def)
    then show ?thesis
      using pos fl_nonzero [of t e v] v by (simp add: e_def v_def)
  qed (simp add: k)
qed

text \<open>So the start of the window is exact.\<close>

lemma window_start_exact:
  assumes "clock_time now" "0 \<le> W" "of_int W \<le> now" "W < 2 ^ 31" "rl_window_seconds rl = W"
  shows "window_start rl now = Fin (now - of_int W)"
proof -
  obtain k :: int where k: "0 \<le> k" "k < 2 ^ 53" "now = of_int k / 2 ^ 22"
    using assms(1) by (auto simp: clock_time_def)
  have "now - of_int W = of_int (k - W * 2 ^ 22) / 2 ^ 22" by (simp add: k(3) field_simps)
  moreover have "(of_int (W * 2 ^ 22) :: rat) \<le> of_int k"
    using assms(3) by (simp add: k(3) field_simps)
  then have "W * 2 ^ 22 \<le> k" by (simp only: of_int_le_iff)
  moreover have "k - W * 2 ^ 22 < 2 ^ 53" using k(2) assms(2) by (smt (verit) zero_le_mult_iff zero_le_power)
  ultimately have "clock_time (now - of_int W)" unfolding clock_time_def by (metis diff_ge_0_iff_ge)
  moreover have "fl (of_int W) = Fin (of_int W)" using assms(2,4) by (intro fl_of_int) simp
  ultimately show ?thesis by (simp add: window_start_def assms(5) fl_clock)
qed

section \<open>The log of admitted calls\<close>

text \<open>
  \<open>as\<close> are the calls admitted so far, the last at time \<open>T\<close> or before: the store still holds
  those of the current window and holds nothing else, and no window holds too many.
\<close>

definition in_window :: "rat \<Rightarrow> rat \<Rightarrow> (pstr \<times> rat) list \<Rightarrow> (pstr \<times> rat) set" where
  "in_window W t as = {a \<in> set as. t - W < snd a \<and> snd a \<le> t}"

definition limiter_inv ::
  "('r \<Rightarrow> rat \<Rightarrow> pstr \<Rightarrow> (pstr \<times> rat) set) \<Rightarrow> rate_limiter \<Rightarrow> pstr \<Rightarrow> (pstr \<times> rat) list \<Rightarrow> rat \<Rightarrow> 'r \<Rightarrow> bool"
  where
  "limiter_inv view rl key as T r \<longleftrightarrow>
     (\<forall>a \<in> set as. 0 \<le> snd a \<and> snd a \<le> T) \<and>
     (\<forall>t \<ge> T. {a \<in> set as. t - of_int (rl_window_seconds rl) < snd a} \<subseteq> view r t key \<and>
        view r t key \<subseteq> set as) \<and>
     (\<forall>t. int (card (in_window (of_int (rl_window_seconds rl)) t as)) \<le> rl_max_requests rl)"

lemma in_window_snoc:
  "in_window W t (as @ [a]) = (if t - W < snd a \<and> snd a \<le> t then insert a (in_window W t as) else in_window W t as)"
  by (auto simp: in_window_def)

lemma window_contents:
  fixes f :: "'a \<Rightarrow> rat"
  assumes "\<forall>a \<in> S. 0 \<le> f a \<and> f a \<le> n" "A \<subseteq> S" "{a \<in> S. w < f a} \<subseteq> A"
  shows "{x \<in> A. \<not> (0 \<le> f x \<and> f x \<le> w)} = {a \<in> S. w < f a \<and> f a \<le> n}"
proof -
  have "\<not> f x < 0" if "x \<in> S" for x using assms(1) that by (auto simp: not_less)
  then show ?thesis using assms by (auto simp: subset_iff not_le)
qed

lemma limiter_step:
  assumes ok: "zset_ok view zs" and inv: "limiter_inv view rl key as T r"
    and T: "T \<le> now" and start: "window_start rl now = Fin (now - of_int (rl_window_seconds rl))"
    and W: "0 \<le> rl_window_seconds rl" and now: "0 \<le> now" and new: "m \<notin> fst ` set as"
    and step: "rate_limit zs rl key m now r = (d, r')"
  shows "limiter_inv view rl key (if d = Admitted then as @ [(m, now)] else as) now r'"
proof -
  let ?W = "of_int (rl_window_seconds rl) :: rat"
  obtain r1 where e: "zs_evaluate zs key (Fin (now - ?W)) now r = (Inr (card (view r1 now key)), r1)"
    and v1: "\<And>t. now \<le> t \<Longrightarrow> view r1 t key = {x \<in> view r t key. \<not> (0 \<le> snd x \<and> snd x \<le> now - ?W)}"
    by (rule zset_evaluateE [OF ok, of key "now - ?W" now r]) (rule that, assumption+)
  have past: "\<forall>a \<in> set as. 0 \<le> snd a \<and> snd a \<le> T"
    and sub: "\<And>t. T \<le> t \<Longrightarrow> {a \<in> set as. t - ?W < snd a} \<subseteq> view r t key \<and> view r t key \<subseteq> set as"
    and win: "\<And>t. int (card (in_window ?W t as)) \<le> rl_max_requests rl"
    using inv by (simp_all add: limiter_inv_def)
  have keep: "{a \<in> set as. t - ?W < snd a} \<subseteq> view r1 t key \<and> view r1 t key \<subseteq> set as" if "now \<le> t" for t
    using sub [of t] v1 that T by auto
  have cnt: "view r1 now key = in_window ?W now as"
  proof -
    have "\<forall>a \<in> set as. 0 \<le> snd a \<and> snd a \<le> now" using past T order_trans by blast
    moreover have "view r now key \<subseteq> set as" "{a \<in> set as. now - ?W < snd a} \<subseteq> view r now key"
      using sub [OF T] by blast+
    ultimately show ?thesis
      unfolding v1 [OF order_refl] in_window_def by (intro window_contents)
  qed
  note e = e [unfolded cnt, folded start]
  show ?thesis
  proof (cases "rl_max_requests rl \<le> int (card (in_window ?W now as))")
    case True
    then have "d \<noteq> Admitted \<and> r' = r1"
      using step e by (auto simp: rate_limit_def rate_check_def rejection_def)
    then show ?thesis using past keep win T by (fastforce simp: limiter_inv_def)
  next
    case False
    obtain r2 where z: "zs_record zs key m now (rl_window_seconds rl + 5) now r1 = (None, r2)"
      and v2: "\<And>t. now \<le> t \<Longrightarrow> view r2 t key =
        (if t < now + of_int (rl_window_seconds rl + 5)
         then insert (m, now) {x \<in> view r1 now key. fst x \<noteq> m} else {})"
      by (rule zset_recordE [OF ok, of key m now "rl_window_seconds rl + 5" now r1])
        (rule that, assumption+)
    have d: "d = Admitted" "r' = r2"
      using step e z False by (auto simp: rate_limit_def rate_check_def rate_record_def)
    have m: "{x \<in> view r1 now key. fst x \<noteq> m} = in_window ?W now as"
      using cnt new by (auto simp: in_window_def)
    have "{a \<in> set (as @ [(m, now)]). t - ?W < snd a} \<subseteq> view r2 t key \<and>
        view r2 t key \<subseteq> set (as @ [(m, now)])" if t: "now \<le> t" for t
    proof (cases "t < now + of_int (rl_window_seconds rl + 5)")
      case True
      then have "view r2 t key = insert (m, now) (in_window ?W now as)" using v2 t m by simp
      then show ?thesis using t past T by (auto simp: in_window_def)
    next
      case False
      then have "now < t - ?W" using W by simp
      then have "{a \<in> set (as @ [(m, now)]). t - ?W < snd a} = {}" using past T by fastforce
      then show ?thesis using v2 t False by simp
    qed
    moreover have "int (card (in_window ?W t (as @ [(m, now)]))) \<le> rl_max_requests rl" for t
    proof (cases "t - ?W < now \<and> now \<le> t")
      case True
      have "in_window ?W t as \<subseteq> in_window ?W now as"
        using True past T by (auto simp: in_window_def)
      moreover have fin: "finite (in_window ?W now as)" by (simp add: in_window_def)
      ultimately have "card (in_window ?W t as) \<le> card (in_window ?W now as)" by (rule card_mono [rotated])
      moreover have "card (insert (m, now) (in_window ?W t as)) \<le> Suc (card (in_window ?W t as))"
        by (rule card_insert_le_m1) simp_all
      ultimately show ?thesis using False True by (simp add: in_window_snoc)
    next
      case False
      then have "in_window ?W t (as @ [(m, now)]) = in_window ?W t as" by (auto simp: in_window_def)
      then show ?thesis using win [of t] by simp
    qed
    moreover have "\<forall>a \<in> set (as @ [(m, now)]). 0 \<le> snd a \<and> snd a \<le> now" using past T now by auto
    ultimately show ?thesis by (simp add: limiter_inv_def d)
  qed
qed

lemma admitted_inv:
  assumes ok: "zset_ok view zs" and W: "0 \<le> rl_window_seconds rl" "rl_window_seconds rl < 2 ^ 31"
  shows "limiter_inv view rl key as T r \<Longrightarrow> sorted (T # map snd calls) \<Longrightarrow>
    distinct (map fst as @ map fst calls) \<Longrightarrow>
    list_all (\<lambda>c. clock_time (snd c) \<and> of_int (rl_window_seconds rl) \<le> snd c) calls \<Longrightarrow>
    \<exists>T' r'. limiter_inv view rl key (as @ fst (admitted_calls zs rl key calls r)) T' r'"
proof (induction calls arbitrary: as T r)
  case Nil
  then show ?case by auto
next
  case (Cons c calls)
  obtain m now where c: "c = (m, now)" by fastforce
  obtain d r1 where d: "rate_limit zs rl key m now r = (d, r1)" by fastforce
  have "clock_time now" "of_int (rl_window_seconds rl) \<le> now" using Cons.prems(4) by (simp_all add: c)
  then have start: "window_start rl now = Fin (now - of_int (rl_window_seconds rl))" and "0 \<le> now"
    using window_start_exact W by (auto intro: order_trans [of _ "of_int (rl_window_seconds rl)"])
  moreover have "T \<le> now" "m \<notin> fst ` set as" using Cons.prems(2,3) by (auto simp: c)
  ultimately have inv: "limiter_inv view rl key (if d = Admitted then as @ [(m, now)] else as) now r1"
    using limiter_step [OF ok Cons.prems(1) _ start W(1) _ _ d] by blast
  have "sorted (now # map snd calls)" "distinct (map fst (if d = Admitted then as @ [(m, now)] else as) @ map fst calls)"
    "list_all (\<lambda>c. clock_time (snd c) \<and> of_int (rl_window_seconds rl) \<le> snd c) calls"
    using Cons.prems by (auto simp: c)
  then obtain T' r' where "limiter_inv view rl key ((if d = Admitted then as @ [(m, now)] else as) @
      fst (admitted_calls zs rl key calls r1)) T' r'"
    using Cons.IH [OF inv] by blast
  moreover have "as @ fst (admitted_calls zs rl key ((m, now) # calls) r) =
      (if d = Admitted then as @ [(m, now)] else as) @ fst (admitted_calls zs rl key calls r1)"
    by (simp add: d split: prod.split)
  ultimately show ?case unfolding c by metis
qed

section \<open>Properties\<close>


text \<open>A store of one key: its members and when they expire.\<close>

definition demo_zset :: "((pstr \<times> rat) set \<times> rat) zset_store" where
  "demo_zset =
     \<lparr>zs_evaluate = (\<lambda>key hi t r.
        let s = {x \<in> (if t < snd r then fst r else {}). \<not> (0 \<le> snd x \<and> float_le (Fin (snd x)) hi)}
        in (Inr (card s), (s, snd r))),
      zs_record = (\<lambda>key m s ttl t r.
        (None, (insert (m, s) {x \<in> (if t < snd r then fst r else {}). fst x \<noteq> m}, t + of_int ttl)))\<rparr>"

definition demo_view :: "(pstr \<times> rat) set \<times> rat \<Rightarrow> rat \<Rightarrow> pstr \<Rightarrow> (pstr \<times> rat) set" where
  "demo_view r t key = (if t < snd r then fst r else {})"

lemma demo_zset_ok: "zset_ok demo_view demo_zset"
  by (auto simp: zset_ok_def demo_view_def demo_zset_def Let_def)


text \<open>Overlapping calls defeat the limiter: however many calls of a client count before any
  of them records, and even if only one place is left, all of them are admitted, so the
  number admitted at one instant is unbounded.\<close>

lemma rate_limit_race:
  assumes "zset_ok view zs" and "window_start rl now = Fin x"
    and "int (card {a \<in> view r now key. \<not> (0 \<le> snd a \<and> snd a \<le> x)}) < rl_max_requests rl"
  shows "fst (check_all zs rl key now n r) = replicate n None \<and>
         fst (record_all zs rl key now ms (snd (check_all zs rl key now n r))) =
           replicate (length ms) Admitted"
proof
  show "fst (check_all zs rl key now n r) = replicate n None"
    using assms(3)
  proof (induction n arbitrary: r)
    case (Suc n)
    obtain r1 where e: "zs_evaluate zs key (Fin x) now r = (Inr (card (view r1 now key)), r1)"
      and v': "\<And>t. now \<le> t \<Longrightarrow> view r1 t key = {a \<in> view r t key. \<not> (0 \<le> snd a \<and> snd a \<le> x)}"
      by (rule zset_evaluateE [OF assms(1), of key x now r]) (rule that, assumption+)
    have v: "view r1 now key = {a \<in> view r now key. \<not> (0 \<le> snd a \<and> snd a \<le> x)}" by (rule v') simp
    have "{a \<in> view r1 now key. \<not> (0 \<le> snd a \<and> snd a \<le> x)} =
        {a \<in> view r now key. \<not> (0 \<le> snd a \<and> snd a \<le> x)}"
      unfolding v by auto
    then have "fst (check_all zs rl key now n r1) = replicate n None" using Suc by simp
    moreover have "rate_check zs rl key now r = (None, r1)"
      using e v Suc.prems by (simp add: rate_check_def assms(2))
    ultimately show ?case by (simp split: prod.split) (metis fst_conv)
  qed simp
  show "fst (record_all zs rl key now ms r') = replicate (length ms) Admitted" for r'
  proof (induction ms arbitrary: r')
    case (Cons m ms)
    obtain r2 where "zs_record zs key m now (rl_window_seconds rl + 5) now r' = (None, r2)"
      by (rule zset_recordE [OF assms(1), of key m now "rl_window_seconds rl + 5" now r'])
    then show ?case using Cons [of r2] by (simp add: rate_record_def split: prod.split) (metis fst_conv)
  qed simp
qed

lemma rate_limit_race_witness:
  "fst (check_all demo_zset (default_limiter\<lparr>rl_max_requests := 1\<rparr>) [] 100 3 ({}, 0)) = replicate 3 None \<and>
   fst (record_all demo_zset (default_limiter\<lparr>rl_max_requests := 1\<rparr>) [] 100 [[1], [2], [3]]
     (snd (check_all demo_zset (default_limiter\<lparr>rl_max_requests := 1\<rparr>) [] 100 3 ({}, 0)))) =
   replicate (length [[1 :: nat], [2], [3]]) Admitted"
proof (rule rate_limit_race [OF demo_zset_ok])
  have "clock_time 100" unfolding clock_time_def by (rule exI [of _ "100 * 2 ^ 22"]) simp
  then show "window_start (default_limiter\<lparr>rl_max_requests := 1\<rparr>) 100 = Fin 40"
    using window_start_exact [of 100 60 "default_limiter\<lparr>rl_max_requests := 1\<rparr>"]
    by (simp add: default_limiter_def)
  show "int (card {a \<in> demo_view ({}, 0) 100 []. \<not> (0 \<le> snd a \<and> snd a \<le> 40)}) <
      rl_max_requests (default_limiter\<lparr>rl_max_requests := 1\<rparr>)"
    by (simp add: demo_view_def)
qed

end
