(* ===== verification/Submissions.thy ===== *)
theory Submissions
  imports "HOL-Library.Multiset" Accounts
begin

text \<open>
  Submissions: the service that stores them and puts jobs on the queue
  (backend/app/services/submission_service.py) and the endpoints of
  api/v1/endpoints/submissions.py.  Ties in \<open>created_at\<close>, which SQL may order as it likes,
  are kept in the order of insertion.
\<close>

section \<open>Creating\<close>

record submission_create =
  sc_source_code :: pstr
  sc_language :: pstr
  sc_stdin_data :: "pstr option"
  sc_timeout_seconds :: "int option"

definition submission_create_valid :: "submission_create \<Rightarrow> bool" where
  "submission_create_valid sub \<longleftrightarrow>
     1 \<le> length (sc_source_code sub) \<and> length (sc_source_code sub) \<le> 65536 \<and>
     (case sc_stdin_data sub of None \<Rightarrow> True | Some s \<Rightarrow> length s \<le> 1048576) \<and>
     (case sc_timeout_seconds sub of None \<Rightarrow> True | Some t \<Rightarrow> 1 \<le> t \<and> t \<le> 120)"

definition new_submission :: "uuid \<Rightarrow> int \<Rightarrow> uuid \<Rightarrow> pstr \<Rightarrow> pstr \<Rightarrow> submission_row" where
  "new_submission new_id now user_id language source_code =
     \<lparr>sb_id = new_id, sb_user_id = user_id, sb_problem_id = None, sb_language = language,
      sb_source_code = source_code, sb_stdin_data = None, sb_status = lit ''PENDING'',
      sb_score = None, sb_max_score = None, sb_grading_status = None, sb_exit_code = None,
      sb_execution_time_ms = None, sb_peak_memory_bytes = None, sb_output_summary = None,
      sb_telemetry = None, sb_created_at = now\<rparr>"

text \<open>The settings a job is sent with.\<close>

definition execution_timeout_seconds :: int where
  "execution_timeout_seconds = 30"

definition int_or :: "int option \<Rightarrow> int \<Rightarrow> int" where
  "int_or x d = (case x of Some i \<Rightarrow> if i \<noteq> 0 then i else d | None \<Rightarrow> d)"

text \<open>\<open>trace\<close> are the headers the tracing library injects.\<close>

definition task_payload ::
  "(pstr \<times> pstr) list \<Rightarrow> submission_create \<Rightarrow> submission_row \<Rightarrow> (pstr \<times> json) list" where
  "task_payload trace sub_in submission =
     [(lit ''submission_id'', JStr (show_uuid (sb_id submission))),
      (lit ''user_id'', JStr (show_uuid (sb_user_id submission))),
      (lit ''source_code'', JStr (sb_source_code submission)),
      (lit ''language'', JStr (sb_language submission)),
      (lit ''stdin_data'', case sb_stdin_data submission of None \<Rightarrow> JNull | Some s \<Rightarrow> JStr s),
      (lit ''timeout_seconds'', JInt (int_or (sc_timeout_seconds sub_in) execution_timeout_seconds)),
      (lit ''memory_limit'', JStr (lit ''128m'')),
      (lit ''cpu_quota'', JInt 50000),
      (lit ''max_pids'', JInt 64),
      (lit ''max_output_bytes'', JInt 1048576),
      (lit ''trace_context'', JObj (map (apsnd JStr) trace))]"

text \<open>The stored row, the database, and the payload pushed to the queue.\<close>

definition create_submission ::
  "(pyfloat \<Rightarrow> pstr) \<Rightarrow> (pstr \<times> pstr) list \<Rightarrow> uuid \<Rightarrow> int \<Rightarrow> uuid \<Rightarrow> submission_create \<Rightarrow> database
     \<Rightarrow> submission_row \<times> database \<times> pstr" where
  "create_submission sf trace new_id now user_id sub_in db =
     (let submission = (new_submission new_id now user_id (sc_language sub_in) (sc_source_code sub_in))
                         \<lparr>sb_stdin_data := sc_stdin_data sub_in\<rparr>
      in (submission, db\<lparr>db_submissions := db_submissions db @ [submission]\<rparr>,
          dumps sf (JObj (task_payload trace sub_in submission))))"

text \<open>
  The endpoint.  \<open>queue_up\<close>: whether the push to Redis succeeds; when it fails the row is
  already committed.
\<close>

definition submit_code ::
  "(pyfloat \<Rightarrow> pstr) \<Rightarrow> pstr \<Rightarrow> registry \<Rightarrow> bool \<Rightarrow> (pstr \<times> pstr) list \<Rightarrow> uuid \<Rightarrow> int \<Rightarrow> user_row \<Rightarrow>
   submission_create \<Rightarrow> database \<Rightarrow> submission_row reply \<times> database \<times> pstr list" where
  "submit_code sf python_exe reg queue_up trace new_id now current_user sub_in db =
     (if \<not> submission_create_valid sub_in then (Http_Error 422 [], db, [])
      else if \<not> fst (is_supported python_exe (sc_language sub_in) reg) then
        (Http_Error 400
           (lit ''Unsupported language runtime '' @ 39 # sc_language sub_in @ 39 # lit ''. Supported runtimes: '' @
            py_join [44, 32] (map li_id (fst (list_supported python_exe reg))) @ lit ''.''), db, [])
      else
        case create_submission sf trace new_id now (us_id current_user) sub_in db of
          (submission, db1, payload) \<Rightarrow>
            if queue_up then (Reply submission, db1, [payload])
            else (Http_Error 500 (lit ''Failed to submit execution job to broker.''), db1, []))"

section \<open>Reading\<close>

text \<open>The \<open>where\<close> clauses of a query by an ordinary user and by an administrator.\<close>

definition may_read :: "user_row \<Rightarrow> submission_row \<Rightarrow> bool" where
  "may_read current_user sub \<longleftrightarrow> is_admin current_user \<or> sb_user_id sub = us_id current_user"

definition get_submission :: "database \<Rightarrow> uuid \<Rightarrow> user_row \<Rightarrow> submission_row option reply" where
  "get_submission db submission_id current_user =
     one_or_none (filter (\<lambda>s. sb_id s = submission_id \<and> may_read current_user s) (db_submissions db))"

definition list_submissions ::
  "database \<Rightarrow> user_row \<Rightarrow> int \<Rightarrow> int \<Rightarrow> submission_row list \<times> nat" where
  "list_submissions db current_user page page_size =
     (let rows = filter (may_read current_user) (db_submissions db)
      in (page_of page page_size (sort_key (\<lambda>s. - sb_created_at s) rows), length rows))"

text \<open>The endpoints; a page number is at least 1 and a page holds 1 to 100 rows.\<close>

definition get_submission_details :: "database \<Rightarrow> uuid \<Rightarrow> user_row \<Rightarrow> submission_row reply" where
  "get_submission_details db submission_id current_user =
     (case get_submission db submission_id current_user of
        Reply (Some submission) \<Rightarrow> Reply submission
      | Reply None \<Rightarrow> Http_Error 404 (lit ''Submission not found or access denied.'')
      | Http_Error code m \<Rightarrow> Http_Error code m
      | Crash \<Rightarrow> Crash)"

definition list_user_submissions ::
  "database \<Rightarrow> user_row \<Rightarrow> int \<Rightarrow> int \<Rightarrow> (submission_row list \<times> nat) reply" where
  "list_user_submissions db current_user page page_size =
     (if 1 \<le> page \<and> 1 \<le> page_size \<and> page_size \<le> 100
      then Reply (list_submissions db current_user page page_size)
      else Http_Error 422 [])"

lemma one_or_none_Some: "one_or_none xs = Reply (Some x) \<longleftrightarrow> xs = [x]"
  by (auto simp: one_or_none_def split: list.splits)

lemma get_submission_Some:
  "get_submission db i u = Reply (Some s) \<Longrightarrow> s \<in> set (db_submissions db) \<and> sb_id s = i \<and> may_read u s"
proof -
  assume "get_submission db i u = Reply (Some s)"
  then have "filter (\<lambda>s. sb_id s = i \<and> may_read u s) (db_submissions db) = [s]"
    by (simp add: get_submission_def one_or_none_Some)
  then have "s \<in> set (filter (\<lambda>s. sb_id s = i \<and> may_read u s) (db_submissions db))" by simp
  then show ?thesis by simp
qed

lemma set_page_of: "set (page_of p k xs) \<subseteq> set xs"
  unfolding page_of_def by (meson set_drop_subset set_take_subset subset_trans)

section \<open>Properties\<close>


definition demo_user :: user_row where
  "demo_user =
     \<lparr>us_id = 7, us_username = lit ''ann'', us_email = lit ''ann@lab'',
      us_hashed_password = lit ''h'', us_role = lit ''student'', us_is_active = True\<rparr>"

lemma demo_user_not_admin: "\<not> is_admin demo_user"
  by (simp add: is_admin_def demo_user_def)

definition demo_tenants :: database where
  "demo_tenants =
     empty_database\<lparr>db_submissions := [new_submission 1 5 7 [] [], new_submission 2 6 8 [] []]\<rparr>"

lemma demo_tenants_rows:
  "length (db_submissions demo_tenants) = 2"
  "filter (\<lambda>s. sb_user_id s = us_id demo_user) (db_submissions demo_tenants) = [new_submission 1 5 7 [] []]"
  by (simp_all add: demo_tenants_def demo_user_def new_submission_def)


end
