(* ===== verification/Problem_Seed.thy ===== *)
theory Problem_Seed
  imports Backend_Data
begin

text \<open>
  The three problems the backend stores when it has none (the second half of
  backend/app/services/problem_service.py), and the meaning of their oracles: every expected
  output is what the statement of the problem asks for.  Identifiers come from \<open>fresh\<close>, the
  values \<open>uuid4\<close> draws in turn; the problems of one request share its clock reading.
\<close>

section \<open>The problems\<close>

definition text_lines :: "pstr list \<Rightarrow> pstr" where
  "text_lines ls = concat (map (\<lambda>l. l @ [10]) ls)"

definition seed_case ::
  "uuid \<Rightarrow> pstr list \<Rightarrow> pstr \<Rightarrow> bool \<Rightarrow> int \<Rightarrow> int \<Rightarrow> pstr option \<Rightarrow> test_case_row" where
  "seed_case i input_lines expected_output is_hidden weight order explanation =
     \<lparr>te_id = i, te_input_data = py_join [10] input_lines, te_expected_output = expected_output,
      te_is_hidden = is_hidden, te_weight = weight, te_order = order, te_explanation = explanation\<rparr>"

definition two_sum :: "(nat \<Rightarrow> uuid) \<Rightarrow> int \<Rightarrow> problem_row" where
  "two_sum fresh now =
     \<lparr>pr_id = fresh 0, pr_title = lit ''Two Sum Problem'', pr_slug = lit ''two-sum'',
      pr_description = text_lines
        [lit ''### Problem Statement'',
         lit ''Given an array of integers `nums` and an integer `target`, return indices of the two numbers such that they add up to `target`.'',
         [],
         lit ''### Input Format'',
         lit ''- Line 1: Space-separated integers representing `nums`'',
         lit ''- Line 2: An integer `target`'',
         [],
         lit ''### Output Format'',
         lit ''- Print the two 0-indexed indices separated by a space in ascending order.'',
         [],
         lit ''### Example'',
         lit ''**Input:**'',
         lit ''```'',
         lit ''2 7 11 15'',
         lit ''9'',
         lit ''```'',
         lit ''**Output:**'',
         lit ''```'',
         lit ''0 1'',
         lit ''```''],
      pr_difficulty = lit ''EASY'', pr_time_limit_ms = 2000, pr_memory_limit_mb = 128,
      pr_is_published = True, pr_created_at = now,
      pr_test_cases =
        [seed_case (fresh 1) [lit ''2 7 11 15'', lit ''9''] (lit ''0 1'') False 25 1
           (Some (lit ''nums[0] + nums[1] = 2 + 7 = 9'')),
         seed_case (fresh 2) [lit ''3 2 4'', lit ''6''] (lit ''1 2'') False 25 2
           (Some (lit ''nums[1] + nums[2] = 2 + 4 = 6'')),
         seed_case (fresh 3) [lit ''3 3'', lit ''6''] (lit ''0 1'') True 25 3 None,
         seed_case (fresh 4) [lit ''-1 -2 -3 -4 -5'', lit ''-8''] (lit ''2 4'') True 25 4 None]\<rparr>"

definition palindrome :: "(nat \<Rightarrow> uuid) \<Rightarrow> int \<Rightarrow> problem_row" where
  "palindrome fresh now =
     \<lparr>pr_id = fresh 5, pr_title = lit ''Valid Palindrome'', pr_slug = lit ''valid-palindrome'',
      pr_description = text_lines
        [lit ''### Problem Statement'',
         lit ''Given a string `s`, determine if it is a palindrome, considering only alphanumeric characters and ignoring cases.'',
         [],
         lit ''### Input Format'',
         lit ''- Line 1: A string `s`'',
         [],
         lit ''### Output Format'',
         lit ''- Print `true` if `s` is a palindrome, or `false` otherwise.'',
         [],
         lit ''### Example'',
         lit ''**Input:**'',
         lit ''```'',
         lit ''racecar'',
         lit ''```'',
         lit ''**Output:**'',
         lit ''```'',
         lit ''true'',
         lit ''```''],
      pr_difficulty = lit ''EASY'', pr_time_limit_ms = 2000, pr_memory_limit_mb = 128,
      pr_is_published = True, pr_created_at = now,
      pr_test_cases =
        [seed_case (fresh 6) [lit ''racecar''] (lit ''true'') False 30 1 None,
         seed_case (fresh 7) [lit ''hello''] (lit ''false'') False 30 2 None,
         seed_case (fresh 8) [lit ''A man a plan a canal Panama''] (lit ''true'') True 40 3 None]\<rparr>"

text \<open>92 is the backslash.\<close>

definition fib_problem :: "(nat \<Rightarrow> uuid) \<Rightarrow> int \<Rightarrow> problem_row" where
  "fib_problem fresh now =
     \<lparr>pr_id = fresh 9, pr_title = lit ''Nth Fibonacci Number'', pr_slug = lit ''nth-fibonacci'',
      pr_description = text_lines
        [lit ''### Problem Statement'',
         lit ''Compute the `n`-th Fibonacci number $F(n)$ modulo $10^9 + 7$, where $F(0) = 0$ and $F(1) = 1$.'',
         [],
         lit ''### Input Format'',
         lit ''- Line 1: An integer `n` ($0 '' @ 92 # lit ''le n '' @ 92 # lit ''le 10^5$)'',
         [],
         lit ''### Output Format'',
         lit ''- Print the single integer $F(n) '' @ 92 # lit ''pmod{10^9 + 7}$.''],
      pr_difficulty = lit ''MEDIUM'', pr_time_limit_ms = 2000, pr_memory_limit_mb = 128,
      pr_is_published = True, pr_created_at = now,
      pr_test_cases =
        [seed_case (fresh 10) [lit ''2''] (lit ''1'') False 20 1 None,
         seed_case (fresh 11) [lit ''10''] (lit ''55'') False 30 2 None,
         seed_case (fresh 12) [lit ''50''] (lit ''586268941'') True 50 3 None]\<rparr>"

definition seed_default_problems_if_empty ::
  "(nat \<Rightarrow> uuid) \<Rightarrow> int \<Rightarrow> database \<Rightarrow> database" where
  "seed_default_problems_if_empty fresh now db =
     (if db_problems db \<noteq> [] then db
      else db\<lparr>db_problems := [two_sum fresh now, palindrome fresh now, fib_problem fresh now]\<rparr>)"

lemma seed_default_simps [simp]:
  "db_problems db \<noteq> [] \<Longrightarrow> seed_default_problems_if_empty fresh now db = db"
  "db_submissions (seed_default_problems_if_empty fresh now db) = db_submissions db"
  "db_users (seed_default_problems_if_empty fresh now db) = db_users db"
  "db_problems (seed_default_problems_if_empty fresh now db) \<noteq> []"
  by (simp_all add: seed_default_problems_if_empty_def)

section \<open>What the statements ask for\<close>

text \<open>The only two positions whose numbers add up to the target, in ascending order.\<close>

definition solves_two_sum :: "pstr \<Rightarrow> pstr \<Rightarrow> bool" where
  "solves_two_sum input output' \<longleftrightarrow>
     (\<exists>nums target i j.
        input = py_join [32] (map show_int nums) @ 10 # show_int target \<and>
        output' = show_int (int i) @ 32 # show_int (int j) \<and>
        filter (\<lambda>(a, b). a < b \<and> nums ! a + nums ! b = target)
          (List.product [0..<length nums] [0..<length nums]) = [(i, j)])"

definition ascii_alnum :: "nat \<Rightarrow> bool" where
  "ascii_alnum c \<longleftrightarrow> 48 \<le> c \<and> c \<le> 57 \<or> 65 \<le> c \<and> c \<le> 90 \<or> 97 \<le> c \<and> c \<le> 122"

definition solves_palindrome :: "pstr \<Rightarrow> pstr \<Rightarrow> bool" where
  "solves_palindrome input output' \<longleftrightarrow>
     (let s = py_lower (filter ascii_alnum input)
      in output' = (if rev s = s then lit ''true'' else lit ''false''))"

fun fibonacci :: "nat \<Rightarrow> nat" where
  "fibonacci 0 = 0"
| "fibonacci (Suc 0) = 1"
| "fibonacci (Suc (Suc n)) = fibonacci n + fibonacci (Suc n)"

definition solves_fibonacci :: "pstr \<Rightarrow> pstr \<Rightarrow> bool" where
  "solves_fibonacci input output' \<longleftrightarrow>
     (\<exists>n \<le> 10 ^ 5. input = show_int (int n) \<and>
        output' = show_int (int (fibonacci n mod (10 ^ 9 + 7))))"

definition cases_solved :: "(pstr \<Rightarrow> pstr \<Rightarrow> bool) \<Rightarrow> problem_row \<Rightarrow> bool" where
  "cases_solved solves p \<longleftrightarrow>
     list_all (\<lambda>tc. solves (te_input_data tc) (te_expected_output tc)) (pr_test_cases p)"

text \<open>The same numbers from two running sums.\<close>

primrec fib_from :: "nat \<Rightarrow> nat \<Rightarrow> nat \<Rightarrow> nat" where
  "fib_from 0 a b = a"
| "fib_from (Suc n) a b = fib_from n b (a + b)"

lemma fib_from_eq: "fib_from n (fibonacci k) (fibonacci (Suc k)) = fibonacci (n + k)"
  by (induction n arbitrary: k) (simp, metis add_Suc_shift fib_from.simps(2) fibonacci.simps(3))

lemma fib_from_numeral: "fib_from (numeral k) a b = fib_from (pred_numeral k) b (a + b)"
  by (simp only: numeral_eq_Suc fib_from.simps)

lemma fibonacci_values: "fibonacci 2 = 1" "fibonacci 10 = 55" "fibonacci 50 = 12586269025"
proof -
  have s: "fibonacci 2 = 1" "fibonacci 5 = 5" "fibonacci (Suc 5) = 8" by (simp_all add: numeral_eq_Suc)
  then have f: "fibonacci (n + 5) = fib_from n 5 8" for n using fib_from_eq [of n 5] by simp
  have "fib_from 5 5 8 = 55" "fib_from 45 5 8 = 12586269025" by (simp_all add: fib_from_numeral)
  then show "fibonacci 2 = 1" "fibonacci 10 = 55" "fibonacci 50 = 12586269025"
    using s f [of 5] f [of 45] by simp_all
qed

section \<open>Properties\<close>

lemma two_sum_solved: "cases_solved solves_two_sum (two_sum fresh now)"
proof -
  have "solves_two_sum (py_join [10] [lit ''2 7 11 15'', lit ''9'']) (lit ''0 1'')"
    unfolding solves_two_sum_def
    by (rule exI [of _ "[2, 7, 11, 15]"], rule exI [of _ 9], rule exI [of _ 0], rule exI [of _ 1]) code_simp
  moreover have "solves_two_sum (py_join [10] [lit ''3 2 4'', lit ''6'']) (lit ''1 2'')"
    unfolding solves_two_sum_def
    by (rule exI [of _ "[3, 2, 4]"], rule exI [of _ 6], rule exI [of _ 1], rule exI [of _ 2]) code_simp
  moreover have "solves_two_sum (py_join [10] [lit ''3 3'', lit ''6'']) (lit ''0 1'')"
    unfolding solves_two_sum_def
    by (rule exI [of _ "[3, 3]"], rule exI [of _ 6], rule exI [of _ 0], rule exI [of _ 1]) code_simp
  moreover have "solves_two_sum (py_join [10] [lit ''-1 -2 -3 -4 -5'', lit ''-8'']) (lit ''2 4'')"
    unfolding solves_two_sum_def
    by (rule exI [of _ "[-1, -2, -3, -4, -5]"], rule exI [of _ "-8"], rule exI [of _ 2], rule exI [of _ 4])
      code_simp
  ultimately show ?thesis
    by (simp add: cases_solved_def two_sum_def seed_case_def del: py_join.simps)
qed

lemma palindrome_solved: "cases_solved solves_palindrome (palindrome fresh now)"
proof -
  have "solves_palindrome (py_join [10] [lit ''racecar'']) (lit ''true'')"
    "solves_palindrome (py_join [10] [lit ''hello'']) (lit ''false'')"
    "solves_palindrome (py_join [10] [lit ''A man a plan a canal Panama'']) (lit ''true'')"
    by (simp_all add: solves_palindrome_def ascii_alnum_def py_lower_def lower_char_def lit_def)
  then show ?thesis
    by (simp add: cases_solved_def palindrome_def seed_case_def del: py_join.simps)
qed

lemma fibonacci_solved: "cases_solved solves_fibonacci (fib_problem fresh now)"
proof -
  have "show_int 2 = lit ''2''" "show_int 1 = lit ''1''" "show_int 10 = lit ''10''" "show_int 55 = lit ''55''"
    "show_int 50 = lit ''50''" "show_int 586268941 = lit ''586268941''"
    by (simp_all add: show_int_def lit_def show_nat.simps [of "numeral k" for k] show_nat.simps [of "Suc 0"])
  moreover have "fibonacci 50 mod (10 ^ 9 + 7) = 586268941" by (simp add: fibonacci_values)
  ultimately have "solves_fibonacci (lit ''2'') (lit ''1'')" "solves_fibonacci (lit ''10'') (lit ''55'')"
    "solves_fibonacci (lit ''50'') (lit ''586268941'')"
    unfolding solves_fibonacci_def using fibonacci_values
    by - (rule exI [of _ 2], simp, rule exI [of _ 10], simp, rule exI [of _ 50], simp)
  then show ?thesis by (simp add: cases_solved_def fib_problem_def seed_case_def)
qed

lemma seeded_points:
  "sum_list (map te_weight (pr_test_cases (two_sum fresh now))) = 100"
  "sum_list (map te_weight (pr_test_cases (palindrome fresh now))) = 100"
  "sum_list (map te_weight (pr_test_cases (fib_problem fresh now))) = 100"
  by (simp_all add: two_sum_def palindrome_def fib_problem_def seed_case_def del: lit_eq_iff)


end
