(* ===== verification/Problems.thy ===== *)
theory Problems
  imports Submissions Problem_Seed Grading_Claims
begin

text \<open>
  Problems and their grading: backend/app/services/problem_service.py and the endpoints of
  api/v1/endpoints/problems.py.  The sandbox driver is an argument: with
  \<open>force_process=True\<close> the factory returns the subprocess driver (Process_Sandbox,
  Sandbox_Factory), whose contract is the locale \<open>sandbox_driver\<close>.  Rows are read as they
  are stored: test cases in their order column, problems by their creation time, ties in
  the order of insertion.  The widths of integer columns are not modelled.
\<close>

section \<open>Schemas\<close>

record test_case_create =
  cc_input_data :: pstr
  cc_expected_output :: pstr
  cc_is_hidden :: bool
  cc_weight :: int
  cc_order :: int
  cc_explanation :: "pstr option"

record problem_create =
  pc_title :: pstr
  pc_slug :: pstr
  pc_description :: pstr
  pc_difficulty :: pstr
  pc_time_limit_ms :: int
  pc_memory_limit_mb :: int
  pc_is_published :: bool
  pc_test_cases :: "test_case_create list"

definition difficulties :: "pstr list" where
  "difficulties = [lit ''EASY'', lit ''MEDIUM'', lit ''HARD'']"

text \<open>The bounds of \<open>ProblemBase\<close>, which a request and every answer are checked against.\<close>

definition problem_base_valid :: "pstr \<Rightarrow> pstr \<Rightarrow> pstr \<Rightarrow> int \<Rightarrow> int \<Rightarrow> bool" where
  "problem_base_valid title slug difficulty time_limit_ms memory_limit_mb \<longleftrightarrow>
     length title \<le> 200 \<and> length slug \<le> 220 \<and> List.member difficulties difficulty \<and>
     100 \<le> time_limit_ms \<and> time_limit_ms \<le> 15000 \<and>
     16 \<le> memory_limit_mb \<and> memory_limit_mb \<le> 1024"

definition problem_create_valid :: "problem_create \<Rightarrow> bool" where
  "problem_create_valid p \<longleftrightarrow>
     problem_base_valid (pc_title p) (pc_slug p) (pc_difficulty p) (pc_time_limit_ms p) (pc_memory_limit_mb p)"

definition problem_row_valid :: "problem_row \<Rightarrow> bool" where
  "problem_row_valid p \<longleftrightarrow>
     problem_base_valid (pr_title p) (pr_slug p) (pr_difficulty p) (pr_time_limit_ms p) (pr_memory_limit_mb p)"

text \<open>An answer carries the problem's own columns, here the row without its test cases.\<close>

record problem_read =
  pd_problem :: problem_row
  pd_test_case_count :: int
  pd_sample_cases_count :: int

record problem_detail_read =
  dt_problem :: problem_row
  dt_sample_test_cases :: "test_case_row list"
  dt_total_test_cases :: int
  dt_total_points :: int

record grading_submission_create =
  gc_language :: pstr
  gc_source_code :: pstr

definition grading_submission_valid :: "grading_submission_create \<Rightarrow> bool" where
  "grading_submission_valid g \<longleftrightarrow> length (gc_language g) \<le> 30 \<and> gc_source_code g \<noteq> []"

text \<open>
  \<open>GradingResultRead\<close>: the summary without its metadata, its statuses as texts; every other
  field of a verdict is kept, so the verdict is paired with the text of its status.
\<close>

record grading_result_read =
  gd_summary :: grading_summary
  gd_overall_status :: pstr
  gd_test_case_statuses :: "pstr list"

definition grading_read :: "grading_summary \<Rightarrow> grading_result_read" where
  "grading_read summary =
     \<lparr>gd_summary = summary\<lparr>gs_metadata := []\<rparr>,
      gd_overall_status = verdict_value (gs_overall_status summary),
      gd_test_case_statuses = map (\<lambda>v. verdict_value (tv_status v)) (gs_test_case_results summary)\<rparr>"

section \<open>Finding problems\<close>

definition find_problem :: "database \<Rightarrow> pstr \<Rightarrow> problem_row option reply" where
  "find_problem db identifier =
     (case uuid_of identifier of
        Some val_uuid \<Rightarrow> one_or_none (filter (\<lambda>p. pr_id p = val_uuid) (db_problems db))
      | None \<Rightarrow> one_or_none (filter (\<lambda>p. pr_slug p = identifier) (db_problems db)))"

definition test_cases_of :: "problem_row \<Rightarrow> test_case_row list" where
  "test_cases_of prob = sort_key te_order (pr_test_cases prob)"

text \<open>
  The characters whose upper case is a letter of a difficulty; no character's upper case is
  longer and a part of one.
\<close>

definition upper_char :: "nat \<Rightarrow> nat" where
  "upper_char c = (if 97 \<le> c \<and> c \<le> 122 then c - 32 else if c = 383 then 83 else if c = 305 then 73 else c)"

definition difficulty_is :: "pstr option \<Rightarrow> problem_row \<Rightarrow> bool" where
  "difficulty_is difficulty p \<longleftrightarrow>
     \<not> opt_truthy difficulty \<or> pr_difficulty p = map upper_char (the difficulty)"

definition problem_read_of :: "problem_row \<Rightarrow> problem_read" where
  "problem_read_of prob =
     \<lparr>pd_problem = prob\<lparr>pr_test_cases := []\<rparr>,
      pd_test_case_count = int (length (pr_test_cases prob)),
      pd_sample_cases_count = int (length (filter (\<lambda>tc. \<not> te_is_hidden tc) (pr_test_cases prob)))\<rparr>"

text \<open>Building an answer from a row out of bounds raises \<open>ValidationError\<close>.\<close>

definition list_problems :: "database \<Rightarrow> pstr option \<Rightarrow> int \<Rightarrow> int \<Rightarrow> problem_read list reply" where
  "list_problems db difficulty skip limit =
     (let problems = take (nat limit) (drop (nat skip) (sort_key pr_created_at
            (filter (\<lambda>p. pr_is_published p \<and> difficulty_is difficulty p) (db_problems db))))
      in if list_all problem_row_valid problems then Reply (map problem_read_of problems) else Crash)"

definition detail_of :: "bool \<Rightarrow> problem_row \<Rightarrow> problem_detail_read" where
  "detail_of include_hidden prob =
     \<lparr>dt_problem = prob\<lparr>pr_test_cases := []\<rparr>,
      dt_sample_test_cases = filter (\<lambda>tc. \<not> te_is_hidden tc \<or> include_hidden) (test_cases_of prob),
      dt_total_test_cases = int (length (test_cases_of prob)),
      dt_total_points = sum_list (map te_weight (test_cases_of prob))\<rparr>"

definition get_problem_by_id_or_slug ::
  "database \<Rightarrow> pstr \<Rightarrow> bool \<Rightarrow> problem_detail_read option reply" where
  "get_problem_by_id_or_slug db identifier include_hidden =
     (case find_problem db identifier of
        Reply (Some prob) \<Rightarrow>
          if problem_row_valid prob then Reply (Some (detail_of include_hidden prob)) else Crash
      | Reply None \<Rightarrow> Reply None
      | Http_Error code m \<Rightarrow> Http_Error code m
      | Crash \<Rightarrow> Crash)"

section \<open>Creating problems\<close>

definition new_test_case :: "uuid \<Rightarrow> nat \<Rightarrow> test_case_create \<Rightarrow> test_case_row" where
  "new_test_case new_id idx tc_in =
     \<lparr>te_id = new_id, te_input_data = cc_input_data tc_in,
      te_expected_output = cc_expected_output tc_in, te_is_hidden = cc_is_hidden tc_in,
      te_weight = cc_weight tc_in,
      te_order = (if cc_order tc_in \<noteq> 0 then cc_order tc_in else int idx + 1),
      te_explanation = cc_explanation tc_in\<rparr>"

definition new_problem :: "(nat \<Rightarrow> uuid) \<Rightarrow> int \<Rightarrow> problem_create \<Rightarrow> problem_row" where
  "new_problem fresh now prob_in =
     \<lparr>pr_id = fresh 0, pr_title = pc_title prob_in, pr_slug = pc_slug prob_in,
      pr_description = pc_description prob_in, pr_difficulty = pc_difficulty prob_in,
      pr_time_limit_ms = pc_time_limit_ms prob_in, pr_memory_limit_mb = pc_memory_limit_mb prob_in,
      pr_is_published = pc_is_published prob_in, pr_created_at = now,
      pr_test_cases = map (\<lambda>(idx, tc_in). new_test_case (fresh (idx + 1)) idx tc_in)
        (enumerate 0 (pc_test_cases prob_in))\<rparr>"

text \<open>Slugs are unique: flushing a duplicate raises \<open>IntegrityError\<close>.\<close>

definition create_problem ::
  "(nat \<Rightarrow> uuid) \<Rightarrow> int \<Rightarrow> problem_create \<Rightarrow> database \<Rightarrow> problem_row reply \<times> database" where
  "create_problem fresh now prob_in db =
     (let prob = new_problem fresh now prob_in
      in if list_ex (\<lambda>p. pr_slug p = pr_slug prob \<or> pr_id p = pr_id prob) (db_problems db)
         then (Crash, db)
         else (Reply prob, db\<lparr>db_problems := db_problems db @ [prob]\<rparr>))"

section \<open>Grading a submission\<close>

definition test_case_data_of :: "test_case_row \<Rightarrow> test_case_data" where
  "test_case_data_of tc =
     \<lparr>tc_id = show_uuid (te_id tc), tc_input_data = te_input_data tc,
      tc_expected_output = te_expected_output tc, tc_is_hidden = te_is_hidden tc,
      tc_weight = te_weight tc, tc_order = te_order tc, tc_explanation = te_explanation tc\<rparr>"

definition tc_data_list :: "problem_row \<Rightarrow> test_case_data list" where
  "tc_data_list problem = map test_case_data_of (sort_key te_order (test_cases_of problem))"

definition problem_job :: "submission_row \<Rightarrow> problem_row \<Rightarrow> grading_job" where
  "problem_job submission problem =
     \<lparr>gj_submission_id = show_uuid (sb_id submission), gj_problem_id = show_uuid (pr_id problem),
      gj_source_code = sb_source_code submission, gj_language = sb_language submission,
      gj_time_limit_ms = pr_time_limit_ms problem, gj_memory_limit_mb = pr_memory_limit_mb problem,
      gj_mode = NORMALIZED\<rparr>"

definition grading_submission ::
  "uuid \<Rightarrow> int \<Rightarrow> uuid \<Rightarrow> problem_row \<Rightarrow> grading_submission_create \<Rightarrow> submission_row" where
  "grading_submission new_id now user_id problem submission_in =
     (new_submission new_id now user_id (gc_language submission_in) (gc_source_code submission_in))
       \<lparr>sb_problem_id := Some (pr_id problem), sb_status := lit ''GRADING''\<rparr>"

text \<open>The first commit, or the message of the \<open>ValueError\<close>.\<close>

datatype started = Not_Started py_exn | Lookup_Failed | Started problem_row submission_row

definition start_grading ::
  "uuid \<Rightarrow> int \<Rightarrow> uuid \<Rightarrow> pstr \<Rightarrow> grading_submission_create \<Rightarrow> database \<Rightarrow> started \<times> database" where
  "start_grading new_id now user_id problem_identifier submission_in db =
     (case find_problem db problem_identifier of
        Reply (Some problem) \<Rightarrow>
          if pr_test_cases problem = [] then
            (Not_Started (ValueError (lit ''Problem '' @ 39 # pr_title problem @ 39 #
               lit '' has no test cases configured.'')), db)
          else
            (let submission = grading_submission new_id now user_id problem submission_in
             in (Started problem submission,
                 db\<lparr>db_submissions := db_submissions db @ [submission]\<rparr>))
      | Reply None \<Rightarrow>
          (Not_Started (ValueError (lit ''Problem '' @ 39 # problem_identifier @ 39 # lit '' not found.'')), db)
      | _ \<Rightarrow> (Lookup_Failed, db))"

definition graded :: "grading_summary \<Rightarrow> submission_row \<Rightarrow> submission_row" where
  "graded summary submission =
     submission\<lparr>sb_score := Some (gs_total_score summary),
                sb_max_score := Some (gs_max_score summary),
                sb_grading_status := Some (verdict_value (gs_overall_status summary)),
                sb_status := lit ''COMPLETED'',
                sb_execution_time_ms := Some (gs_execution_time_ms summary),
                sb_peak_memory_bytes := Some (gs_peak_memory_bytes summary),
                sb_telemetry := Some summary\<rparr>"

definition finish_grading :: "grading_summary \<Rightarrow> uuid \<Rightarrow> database \<Rightarrow> database" where
  "finish_grading summary submission_id db =
     db\<lparr>db_submissions :=
          map (\<lambda>s. if sb_id s = submission_id then graded summary s else s) (db_submissions db)\<rparr>"

definition shown_to :: "bool \<Rightarrow> grading_summary \<Rightarrow> grading_result_read" where
  "shown_to privileged summary =
     grading_read (if \<not> privileged then sanitize_for_student summary else summary)"

text \<open>The exception or the scorecard, the database, and the world the driver leaves.\<close>

definition submit_and_grade_problem ::
  "formatting \<Rightarrow> 'w driver \<Rightarrow> uuid \<Rightarrow> int \<Rightarrow> uuid \<Rightarrow> pstr \<Rightarrow> grading_submission_create \<Rightarrow> bool \<Rightarrow>
   database \<Rightarrow> 'w \<Rightarrow> (py_exn + grading_result_read) option \<times> database \<times> 'w" where
  "submit_and_grade_problem fmt exec new_id now user_id problem_identifier submission_in privileged db w =
     (case start_grading new_id now user_id problem_identifier submission_in db of
        (Not_Started exc, db1) \<Rightarrow> (Some (Inl exc), db1, w)
      | (Lookup_Failed, db1) \<Rightarrow> (None, db1, w)
      | (Started problem submission, db1) \<Rightarrow>
          (case evaluate_submission fmt exec (problem_job submission problem) (tc_data_list problem) w of
             (Inl exc, w') \<Rightarrow> (Some (Inl exc), db1, w')
           | (Inr summary, w') \<Rightarrow>
               (Some (Inr (shown_to privileged summary)),
                finish_grading summary (sb_id submission) db1, w')))"

definition get_grading_scorecard ::
  "database \<Rightarrow> uuid \<Rightarrow> user_row \<Rightarrow> grading_result_read option reply" where
  "get_grading_scorecard db submission_id current_user =
     (case get_submission db submission_id current_user of
        Reply (Some sub) \<Rightarrow>
          Reply (map_option (shown_to (is_admin current_user)) (sb_telemetry sub))
      | Reply None \<Rightarrow> Reply None
      | Http_Error code m \<Rightarrow> Http_Error code m
      | Crash \<Rightarrow> Crash)"

section \<open>The endpoints\<close>

definition list_problems_endpoint ::
  "(nat \<Rightarrow> uuid) \<Rightarrow> int \<Rightarrow> pstr option \<Rightarrow> int \<Rightarrow> int \<Rightarrow> database
     \<Rightarrow> problem_read list reply \<times> database" where
  "list_problems_endpoint fresh now difficulty skip limit db =
     (if 0 \<le> skip \<and> 1 \<le> limit \<and> limit \<le> 100 then
        (let db1 = seed_default_problems_if_empty fresh now db
         in (list_problems db1 difficulty skip limit, db1))
      else (Http_Error 422 [], db))"

definition found_or_404 :: "pstr \<Rightarrow> 'a option reply \<Rightarrow> 'a reply" where
  "found_or_404 message r =
     (case r of
        Reply (Some x) \<Rightarrow> Reply x
      | Reply None \<Rightarrow> Http_Error 404 message
      | Http_Error code m \<Rightarrow> Http_Error code m
      | Crash \<Rightarrow> Crash)"

definition get_problem ::
  "(nat \<Rightarrow> uuid) \<Rightarrow> int \<Rightarrow> pstr \<Rightarrow> user_row \<Rightarrow> database \<Rightarrow> problem_detail_read reply \<times> database" where
  "get_problem fresh now identifier current_user db =
     (let db1 = seed_default_problems_if_empty fresh now db
      in (found_or_404 (lit ''Problem '' @ 39 # identifier @ 39 # lit '' not found'')
            (get_problem_by_id_or_slug db1 identifier (is_admin current_user)), db1))"

text \<open>For an administrator; a request out of bounds is answered with 422.\<close>

definition create_problem_endpoint ::
  "(nat \<Rightarrow> uuid) \<Rightarrow> int \<Rightarrow> problem_create \<Rightarrow> database \<Rightarrow> problem_detail_read reply \<times> database" where
  "create_problem_endpoint fresh now problem_in db =
     (if \<not> problem_create_valid problem_in then (Http_Error 422 [], db)
      else
        case get_problem_by_id_or_slug db (pc_slug problem_in) True of
          Reply (Some existing) \<Rightarrow>
            (Http_Error 400 (lit ''Problem with slug '' @ 39 # pc_slug problem_in @ 39 # lit '' already exists.''), db)
        | Reply None \<Rightarrow>
            (case create_problem fresh now problem_in db of
               (Reply prob, db1) \<Rightarrow>
                 (case get_problem_by_id_or_slug db1 (show_uuid (pr_id prob)) True of
                    Reply (Some result) \<Rightarrow> (Reply result, db1)
                  | Reply None \<Rightarrow> (Http_Error 500 (lit ''Failed to retrieve created problem''), db1)
                  | r \<Rightarrow> (Crash, db1))
             | (r, db1) \<Rightarrow> (Crash, db1))
        | r \<Rightarrow> (Crash, db))"

text \<open>\<open>fresh 0\<close> is the identifier of the new submission, the rest the seeding draws from.\<close>

definition submit_for_grading ::
  "formatting \<Rightarrow> 'w driver \<Rightarrow> (nat \<Rightarrow> uuid) \<Rightarrow> int \<Rightarrow> pstr \<Rightarrow> grading_submission_create \<Rightarrow>
   user_row \<Rightarrow> database \<Rightarrow> 'w \<Rightarrow> grading_result_read reply \<times> database \<times> 'w" where
  "submit_for_grading fmt exec fresh now identifier submission_in current_user db w =
     (if \<not> grading_submission_valid submission_in then (Http_Error 422 [], db, w)
      else
        case submit_and_grade_problem fmt exec (fresh 0) now (us_id current_user) identifier submission_in
               (is_admin current_user) (seed_default_problems_if_empty (\<lambda>i. fresh (i + 1)) now db) w of
          (Some (Inr scorecard), db1, w1) \<Rightarrow> (Reply scorecard, db1, w1)
        | (Some (Inl exc), db1, w1) \<Rightarrow>
            (if is_value_error exc then Http_Error 404 (exn_str exc) else Crash, db1, w1)
        | (None, db1, w1) \<Rightarrow> (Crash, db1, w1))"

definition get_grading_result :: "uuid \<Rightarrow> user_row \<Rightarrow> database \<Rightarrow> grading_result_read reply" where
  "get_grading_result submission_id current_user db =
     found_or_404 (lit ''Grading scorecard for submission '' @ 39 # show_uuid submission_id @ 39 # lit '' not found.'')
       (get_grading_scorecard db submission_id current_user)"

lemma found_or_404_simps [simp]:
  "found_or_404 m (Reply (Some x)) = Reply x" "found_or_404 m (Reply None) = Http_Error 404 m"
  by (simp_all add: found_or_404_def)

section \<open>Reading problems\<close>

text \<open>What an ordinary user may learn of a test case: a hidden one counts its points only.\<close>

definition case_shown :: "test_case_row \<Rightarrow> test_case_row + int" where
  "case_shown tc = (if te_is_hidden tc then Inr (te_weight tc) else Inl tc)"

lemma detail_of_shown:
  assumes "prob\<lparr>pr_test_cases := []\<rparr> = prob'\<lparr>pr_test_cases := []\<rparr>"
    and "map case_shown (test_cases_of prob) = map case_shown (test_cases_of prob')"
  shows "detail_of False prob = detail_of False prob'"
proof -
  have "filter (\<lambda>tc. \<not> te_is_hidden tc) xs = map projl (filter isl (map case_shown xs))"
    and w: "map te_weight xs = map (case_sum te_weight id) (map case_shown xs)" for xs
    by (induction xs) (auto simp: case_shown_def)
  moreover have "map te_weight (test_cases_of prob) = map te_weight (test_cases_of prob')"
    using w assms(2) by metis
  moreover have "length (test_cases_of prob) = length (test_cases_of prob')"
    using assms(2) map_eq_imp_length_eq by blast
  ultimately show ?thesis using assms by (simp add: detail_of_def)
qed

lemma problem_row_valid_shown:
  "prob\<lparr>pr_test_cases := []\<rparr> = prob'\<lparr>pr_test_cases := []\<rparr> \<Longrightarrow>
   problem_row_valid prob = problem_row_valid prob'"
  by (cases prob; cases prob') (simp add: problem_row_valid_def)

text \<open>Slugs and identifiers of the problem table are unique.\<close>

definition problems_inv :: "problem_row list \<Rightarrow> bool" where
  "problems_inv ps \<longleftrightarrow>
     distinct (map pr_id ps) \<and> distinct (map pr_slug ps) \<and> list_all problem_row_valid ps"

lemma find_problem_unique:
  assumes "problems_inv (db_problems db)"
  shows "\<exists>r. find_problem db i = Reply r \<and> (\<forall>p. r = Some p \<longrightarrow> p \<in> set (db_problems db))"
proof -
  have d: "distinct (map pr_id (db_problems db))" "distinct (map pr_slug (db_problems db))"
    using assms by (simp_all add: problems_inv_def)
  show ?thesis
    unfolding find_problem_def
    using one_or_none_unique [OF d(1)] one_or_none_unique [OF d(2), of i]
    by (cases "uuid_of i") (fastforce, metis option.case(2))
qed

lemma find_problem_id:
  "problems_inv (db_problems db) \<Longrightarrow> p \<in> set (db_problems db) \<Longrightarrow> pr_id p < 2 ^ 128 \<Longrightarrow>
   find_problem db (show_uuid (pr_id p)) = Reply (Some p)"
  using filter_unique [of pr_id "db_problems db" p] uuid_roundtrip [of "pr_id p"]
  by (simp add: find_problem_def problems_inv_def)

lemma find_problem_slug:
  "problems_inv (db_problems db) \<Longrightarrow> p \<in> set (db_problems db) \<Longrightarrow> uuid_of (pr_slug p) = None \<Longrightarrow>
   find_problem db (pr_slug p) = Reply (Some p)"
  using filter_unique [of pr_slug "db_problems db" p] by (simp add: find_problem_def problems_inv_def)

lemma new_problem_valid:
  "problem_create_valid prob_in \<Longrightarrow> problem_row_valid (new_problem fresh now prob_in)"
  by (simp add: problem_create_valid_def problem_row_valid_def new_problem_def)

lemma create_problem_inv:
  assumes "create_problem fresh now prob_in db = (Reply prob, db')"
    and "problems_inv (db_problems db)" "problem_create_valid prob_in"
  shows "problems_inv (db_problems db')" and "prob \<in> set (db_problems db')" and "prob = new_problem fresh now prob_in"
  using assms new_problem_valid [OF assms(3), of fresh now]
  by (auto simp: create_problem_def problems_inv_def Let_def list_ex_iff split: if_splits) metis+

end
