(* ===== verification/Problem_Claims.thy ===== *)
theory Problem_Claims
  imports Problems
begin

text \<open>
  What the problem endpoints keep from an ordinary user, and what they leave on record: the
  lemmas follow one submission from its first commit to its scorecard.
\<close>

section \<open>Submitting\<close>

lemma submit_found:
  assumes "find_problem (seed_default_problems_if_empty (\<lambda>i. fresh (i + 1)) now db) i = Reply (Some problem)"
    and "pr_test_cases problem \<noteq> []" "grading_submission_valid g"
  shows "submit_for_grading fmt exec fresh now i g u db w =
    (let submission = grading_submission (fresh 0) now (us_id u) problem g;
         db0 = seed_default_problems_if_empty (\<lambda>i. fresh (i + 1)) now db;
         db1 = db0\<lparr>db_submissions := db_submissions db @ [submission]\<rparr>
     in case evaluate_submission fmt exec (problem_job submission problem) (tc_data_list problem) w of
          (Inl exc, w') \<Rightarrow> (if is_value_error exc then Http_Error 404 (exn_str exc) else Crash, db1, w')
        | (Inr sm, w') \<Rightarrow> (Reply (shown_to (is_admin u) sm), finish_grading sm (fresh 0) db1, w'))"
  using assms
  by (simp add: submit_for_grading_def submit_and_grade_problem_def start_grading_def Let_def
      grading_submission_def new_submission_def split: prod.splits sum.splits)

lemma submit_replies:
  assumes "submit_for_grading fmt exec fresh now i g u db w = (Reply sc, db', w')"
  obtains problem sm where "find_problem (seed_default_problems_if_empty (\<lambda>i. fresh (i + 1)) now db) i = Reply (Some problem)"
    and "pr_test_cases problem \<noteq> []"
    and "evaluate_submission fmt exec (problem_job (grading_submission (fresh 0) now (us_id u) problem g) problem)
           (tc_data_list problem) w = (Inr sm, w')"
    and "sc = shown_to (is_admin u) sm"
    and "db' = finish_grading sm (fresh 0)
           ((seed_default_problems_if_empty (\<lambda>i. fresh (i + 1)) now db)
              \<lparr>db_submissions := db_submissions db @ [grading_submission (fresh 0) now (us_id u) problem g]\<rparr>)"
proof -
  obtain problem where p: "find_problem (seed_default_problems_if_empty (\<lambda>i. fresh (i + 1)) now db) i = Reply (Some problem)"
      "pr_test_cases problem \<noteq> []" and v: "grading_submission_valid g"
    using assms
    by (auto simp: submit_for_grading_def submit_and_grade_problem_def start_grading_def
        split: if_splits reply.splits option.splits)
  show ?thesis
    using assms that [OF p] unfolding submit_found [OF p v]
    by (auto simp: Let_def split: prod.splits sum.splits if_splits)
qed

text \<open>The row after grading.\<close>

lemma finish_new_row:
  assumes "i \<notin> sb_id ` set subs" "sb_id s = i"
  shows "db_submissions (finish_grading sm i (db\<lparr>db_submissions := subs @ [s]\<rparr>)) = subs @ [graded sm s]"
proof -
  have "map (\<lambda>x. if sb_id x = i then graded sm x else x) subs = subs"
    using assms(1) by (intro map_idI) auto
  then show ?thesis using assms(2) by (simp add: finish_grading_def)
qed

lemma sb_id_grading [simp]: "sb_id (grading_submission i now o' p g) = i"
  "sb_user_id (grading_submission i now o' p g) = o'"
  by (simp_all add: grading_submission_def new_submission_def)

lemma sb_id_graded [simp]: "sb_id (graded sm s) = sb_id s" "sb_user_id (graded sm s) = sb_user_id s"
  by (simp_all add: graded_def)

lemma get_new_row:
  assumes "db_submissions db = subs @ [s]" "i \<notin> sb_id ` set subs" "sb_id s = i" "sb_user_id s = us_id u"
  shows "get_submission db i u = Reply (Some s)"
proof -
  have "filter (\<lambda>s. sb_id s = i \<and> may_read u s) subs = []"
    using assms(2) by (auto simp: filter_empty_conv)
  then show ?thesis
    using assms by (simp add: get_submission_def may_read_def)
qed

lemma submit_on_record:
  assumes "submit_for_grading fmt exec fresh now i g u db w = (Reply sc, db', w')"
    and "fresh 0 \<notin> sb_id ` set (db_submissions db)"
  obtains problem sm where "find_problem (seed_default_problems_if_empty (\<lambda>i. fresh (i + 1)) now db) i = Reply (Some problem)"
    and "evaluate_submission fmt exec (problem_job (grading_submission (fresh 0) now (us_id u) problem g) problem)
           (tc_data_list problem) w = (Inr sm, w')"
    and "sc = shown_to (is_admin u) sm"
    and "db_submissions db' = db_submissions db @ [graded sm (grading_submission (fresh 0) now (us_id u) problem g)]"
    and "get_submission db' (fresh 0) u = Reply (Some (graded sm (grading_submission (fresh 0) now (us_id u) problem g)))"
proof -
  from submit_replies [OF assms(1)] obtain problem sm where
    f: "find_problem (seed_default_problems_if_empty (\<lambda>i. fresh (i + 1)) now db) i = Reply (Some problem)" and
    e: "evaluate_submission fmt exec (problem_job (grading_submission (fresh 0) now (us_id u) problem g) problem)
           (tc_data_list problem) w = (Inr sm, w')" and
    sc: "sc = shown_to (is_admin u) sm" and
    db': "db' = finish_grading sm (fresh 0)
           ((seed_default_problems_if_empty (\<lambda>i. fresh (i + 1)) now db)
              \<lparr>db_submissions := db_submissions db @ [grading_submission (fresh 0) now (us_id u) problem g]\<rparr>)"
    by metis
  have subs: "db_submissions db' = db_submissions db @ [graded sm (grading_submission (fresh 0) now (us_id u) problem g)]"
    unfolding db' by (rule finish_new_row [OF assms(2)]) simp
  show ?thesis
    by (rule that [OF f e sc subs]) (rule get_new_row [OF subs assms(2)], simp_all)
qed

section \<open>A concrete request\<close>

definition demo_problem :: problem_row where
  "demo_problem =
     \<lparr>pr_id = 3, pr_title = lit ''t'', pr_slug = lit ''echo'', pr_description = [],
      pr_difficulty = lit ''EASY'', pr_time_limit_ms = 2000, pr_memory_limit_mb = 128,
      pr_is_published = True, pr_created_at = 0,
      pr_test_cases = [\<lparr>te_id = 4, te_input_data = lit ''1'', te_expected_output = lit ''1'',
        te_is_hidden = True, te_weight = 10, te_order = 1, te_explanation = None\<rparr>]\<rparr>"

definition demo_db :: database where
  "demo_db = empty_database\<lparr>db_problems := [demo_problem]\<rparr>"

definition demo_submission :: grading_submission_create where
  "demo_submission = \<lparr>gc_language = lit ''python'', gc_source_code = lit ''x''\<rparr>"

lemma echo_not_uuid: "uuid_of (lit ''echo'') = None"
  by (simp add: uuid_of_def lit_def strip_chars_def)

lemma demo_found: "find_problem (seed_default_problems_if_empty fr n demo_db) (lit ''echo'') = Reply (Some demo_problem)"
  by (simp add: find_problem_def echo_not_uuid demo_db_def demo_problem_def)

lemma demo_submits:
  "\<exists>sc db' w'. submit_for_grading plain_fmt echo_driver (\<lambda>_. 9) 5 (lit ''echo'') demo_submission demo_user demo_db 0 =
     (Reply sc, db', w')"
proof -
  let ?job = "problem_job (grading_submission 9 5 (us_id demo_user) demo_problem demo_submission) demo_problem"
  have r: "job_in_range ?job" "list_all (\<lambda>tc. 0 \<le> tc_weight tc) (tc_data_list demo_problem)"
    by (simp_all add: job_in_range_def problem_job_def grading_submission_def new_submission_def
        demo_submission_def demo_problem_def tc_data_list_def test_cases_of_def test_case_data_of_def)
  obtain sm w' where e: "evaluate_submission plain_fmt echo_driver ?job (tc_data_list demo_problem) 0 = (Inr sm, w')"
    using evaluation_returns [OF r, of plain_fmt echo_driver 0] by (elim exE)
  have "pr_test_cases demo_problem \<noteq> []" "grading_submission_valid demo_submission"
    by (simp_all add: demo_problem_def grading_submission_valid_def demo_submission_def)
  then show ?thesis
    using submit_found [OF demo_found, of demo_submission plain_fmt echo_driver "\<lambda>_. 9" 5 demo_user 0] e
    by (simp add: Let_def)
qed

lemma demo_db_fresh: "9 \<notin> sb_id ` set (db_submissions demo_db)"
  by (simp add: demo_db_def empty_database_def)

section \<open>Properties\<close>

text \<open>A graded submission is on record as it was answered.  When submitting returns a
  scorecard, exactly one row was added to the submissions, owned by the submitter, of the
  given problem, \<open>COMPLETED\<close> and carrying the score of the evaluation; and asking for the
  scorecard afterwards answers with the same one.\<close>

lemma scorecard_on_record:
  assumes "submit_for_grading fmt exec fresh now i g u db w = (Reply sc, db', w')"
    and "fresh 0 \<notin> sb_id ` set (db_submissions db)"
  shows "get_grading_result (fresh 0) u db' = Reply sc \<and>
         (\<exists>row. db_submissions db' = db_submissions db @ [row] \<and> sb_id row = fresh 0 \<and>
            sb_user_id row = us_id u \<and> sb_status row = lit ''COMPLETED'' \<and>
            sb_source_code row = gc_source_code g \<and>
            sb_score row = Some (gs_total_score (gd_summary sc)) \<and>
            sb_max_score row = Some (gs_max_score (gd_summary sc)) \<and>
            sb_grading_status row = Some (gd_overall_status sc))"
proof -
  from submit_on_record [OF assms] obtain problem sm where
    sc: "sc = shown_to (is_admin u) sm" and
    subs: "db_submissions db' = db_submissions db @ [graded sm (grading_submission (fresh 0) now (us_id u) problem g)]" and
    get: "get_submission db' (fresh 0) u = Reply (Some (graded sm (grading_submission (fresh 0) now (us_id u) problem g)))"
    by metis
  have "get_grading_result (fresh 0) u db' = Reply sc"
    by (simp add: get_grading_result_def get_grading_scorecard_def get sc graded_def)
  with subs sc show ?thesis
    by (simp add: graded_def grading_submission_def new_submission_def shown_to_def grading_read_def
        sanitize_for_student_def)
qed

lemma scorecard_on_record_witness:
  "\<exists>sc db' w'. submit_for_grading plain_fmt echo_driver (\<lambda>_. 9) 5 (lit ''echo'') demo_submission demo_user demo_db 0 =
     (Reply sc, db', w') \<and> get_grading_result 9 demo_user db' = Reply sc"
proof -
  obtain sc db' w' where s: "submit_for_grading plain_fmt echo_driver (\<lambda>_. 9) 5 (lit ''echo'') demo_submission demo_user demo_db 0 =
     (Reply sc, db', w')" using demo_submits by (elim exE)
  show ?thesis
    using scorecard_on_record [OF s demo_db_fresh] s by (intro exI conjI) auto
qed

text \<open>The submission endpoint gives away every hidden oracle.  After grading, the details of
  the submission show its owner, an ordinary user, the stored telemetry with the input and
  the expected output of every test case of the problem, the hidden ones included.\<close>

lemma details_leak_oracles:
  assumes "submit_for_grading fmt exec fresh now i g u db w = (Reply sc, db', w')"
    and "fresh 0 \<notin> sb_id ` set (db_submissions db)"
  shows "\<exists>problem row sm.
    find_problem (seed_default_problems_if_empty (\<lambda>k. fresh (k + 1)) now db) i = Reply (Some problem) \<and>
    get_submission_details db' (fresh 0) u = Reply row \<and> sb_telemetry row = Some sm \<and>
    mset (map (\<lambda>v. (tv_input_data v, tv_expected_output v)) (gs_test_case_results sm)) =
    mset (map (\<lambda>tc. (Some (te_input_data tc), Some (te_expected_output tc))) (pr_test_cases problem))"
proof -
  from submit_on_record [OF assms] obtain problem sm where
    f: "find_problem (seed_default_problems_if_empty (\<lambda>i. fresh (i + 1)) now db) i = Reply (Some problem)" and
    e: "evaluate_submission fmt exec (problem_job (grading_submission (fresh 0) now (us_id u) problem g) problem)
           (tc_data_list problem) w = (Inr sm, w')" and
    get: "get_submission db' (fresh 0) u = Reply (Some (graded sm (grading_submission (fresh 0) now (us_id u) problem g)))"
    by metis
  have "map snd (map (\<lambda>v. (tv_test_case_id v, tv_input_data v, tv_expected_output v)) (gs_test_case_results sm)) =
      map snd (map (\<lambda>tc. (tc_id tc, Some (tc_input_data tc), Some (tc_expected_output tc))) (tc_data_list problem))"
    unfolding summary_oracles [OF e] ..
  then have "map (\<lambda>v. (tv_input_data v, tv_expected_output v)) (gs_test_case_results sm) =
      map (\<lambda>tc. (Some (te_input_data tc), Some (te_expected_output tc))) (sort_key te_order (test_cases_of problem))"
    by (simp add: tc_data_list_def test_case_data_of_def comp_def)
  then have "mset (map (\<lambda>v. (tv_input_data v, tv_expected_output v)) (gs_test_case_results sm)) =
      mset (map (\<lambda>tc. (Some (te_input_data tc), Some (te_expected_output tc))) (pr_test_cases problem))"
    by (simp add: test_cases_of_def)
  with f get show ?thesis
    by (intro exI conjI) (assumption, simp add: get_submission_details_def, simp add: graded_def)
qed

lemma details_leak_oracles_witness:
  "\<exists>db' row sm. get_submission_details db' 9 demo_user = Reply row \<and> sb_telemetry row = Some sm \<and>
     map tv_expected_output (gs_test_case_results sm) = [Some (lit ''1'')] \<and>
     list_all te_is_hidden (pr_test_cases demo_problem)"
proof -
  obtain sc db' w' where s: "submit_for_grading plain_fmt echo_driver (\<lambda>_. 9) 5 (lit ''echo'') demo_submission demo_user demo_db 0 =
     (Reply sc, db', w')" using demo_submits by (elim exE)
  from details_leak_oracles [OF s demo_db_fresh] obtain row sm where
    "get_submission_details db' 9 demo_user = Reply row" "sb_telemetry row = Some sm"
    and m: "mset (map (\<lambda>v. (tv_input_data v, tv_expected_output v)) (gs_test_case_results sm)) =
      {#(Some (lit ''1''), Some (lit ''1''))#}"
    unfolding demo_found by (auto simp: demo_problem_def)
  moreover have "map tv_expected_output (gs_test_case_results sm) = [Some (lit ''1'')]"
    using arg_cong [OF m, of "image_mset snd"] by (simp flip: mset_map add: comp_def) 
  ultimately show ?thesis by (intro exI conjI) (assumption+, simp add: demo_problem_def)
qed

text \<open>Databases that differ only in what an ordinary user must not learn.\<close>

definition row_alike :: "submission_row \<Rightarrow> submission_row \<Rightarrow> bool" where
  "row_alike s s' \<longleftrightarrow>
     s\<lparr>sb_telemetry := None\<rparr> = s'\<lparr>sb_telemetry := None\<rparr> \<and>
     rel_option (\<lambda>sm sm'. sm\<lparr>gs_test_case_results := []\<rparr> = sm'\<lparr>gs_test_case_results := []\<rparr> \<and>
       list_all2 same_to_student (gs_test_case_results sm) (gs_test_case_results sm'))
       (sb_telemetry s) (sb_telemetry s')"

definition problem_alike :: "problem_row \<Rightarrow> problem_row \<Rightarrow> bool" where
  "problem_alike p p' \<longleftrightarrow>
     p\<lparr>pr_test_cases := []\<rparr> = p'\<lparr>pr_test_cases := []\<rparr> \<and>
     map case_shown (test_cases_of p) = map case_shown (test_cases_of p')"

lemma row_alike_simps:
  assumes "row_alike s s'"
  shows "sb_id s = sb_id s'" "sb_user_id s = sb_user_id s'"
    "map_option sanitize_for_student (sb_telemetry s) = map_option sanitize_for_student (sb_telemetry s')"
proof -
  have "s\<lparr>sb_telemetry := None\<rparr> = s'\<lparr>sb_telemetry := None\<rparr>" using assms by (simp add: row_alike_def)
  then show "sb_id s = sb_id s'" "sb_user_id s = sb_user_id s'" by (cases s; cases s'; simp)+
  have "rel_option (\<lambda>sm sm'. sanitize_for_student sm = sanitize_for_student sm') (sb_telemetry s) (sb_telemetry s')"
    using assms unfolding sanitize_for_student_eq by (simp add: row_alike_def)
  then show "map_option sanitize_for_student (sb_telemetry s) = map_option sanitize_for_student (sb_telemetry s')"
    by (cases "sb_telemetry s"; cases "sb_telemetry s'") simp_all
qed

text \<open>A query on related tables gives related rows.\<close>

lemma one_or_none_rel:
  assumes "list_all2 R xs ys" "\<And>x y. R x y \<Longrightarrow> P x = Q y"
  shows "rel_reply (rel_option R) (one_or_none (filter P xs)) (one_or_none (filter Q ys))"
proof -
  have "list_all2 R (filter P xs) (filter Q ys)"
    using assms by (induction rule: list_all2_induct) auto
  then show ?thesis
    by (auto simp: one_or_none_def list_all2_Cons1 list_all2_Cons2 split: list.splits)
qed

text \<open>C11. The scorecard endpoint hides the oracles of hidden test cases.  Whatever the stored
  inputs, outputs, diffs and messages of hidden cases are, an ordinary user gets the same
  answer: databases that differ only there cannot be told apart.\<close>

theorem scorecard_hides_oracles:
  assumes "\<not> is_admin u" and "list_all2 row_alike (db_submissions db) (db_submissions db')"
  shows "get_grading_result i u db = get_grading_result i u db'"
proof -
  have "rel_reply (rel_option row_alike) (get_submission db i u) (get_submission db' i u)"
    unfolding get_submission_def
    by (rule one_or_none_rel [OF assms(2)]) (simp add: may_read_def row_alike_simps)
  moreover have "map_option (shown_to False) t = map_option grading_read (map_option sanitize_for_student t)" for t
    by (cases t) (simp_all add: shown_to_def)
  ultimately have "get_grading_scorecard db i u = get_grading_scorecard db' i u"
    using assms(1) row_alike_simps(3)
    by (auto simp: get_grading_scorecard_def rel_option_iff split: reply.splits option.splits)
  then show ?thesis by (simp add: get_grading_result_def)
qed

definition demo_row :: "pstr \<Rightarrow> submission_row" where
  "demo_row oracle =
     graded \<lparr>gs_submission_id = [], gs_problem_id = [], gs_overall_status = EV_WRONG_ANSWER, gs_total_score = 0,
       gs_max_score = 10, gs_percentage = Fin 0, gs_passed_count = 0, gs_total_test_cases = 1,
       gs_execution_time_ms = 0, gs_peak_memory_bytes = 0, gs_compile_error = None,
       gs_test_case_results = [case_verdict \<lparr>tc_id = [], tc_input_data = [], tc_expected_output = oracle,
         tc_is_hidden = True, tc_weight = 10, tc_order = 1, tc_explanation = None\<rparr> EV_WRONG_ANSWER],
       gs_metadata = []\<rparr> (new_submission 9 0 7 [] [])"

theorem scorecard_hides_oracles_witness:
  "get_grading_result 9 demo_user (empty_database\<lparr>db_submissions := [demo_row (lit ''1'')]\<rparr>) =
   get_grading_result 9 demo_user (empty_database\<lparr>db_submissions := [demo_row (lit ''2'')]\<rparr>)"
  by (rule scorecard_hides_oracles [OF demo_user_not_admin])
    (simp add: row_alike_def demo_row_def graded_def same_to_student_def case_verdict_def public_view_def)

lemma sort_key_rel:
  assumes "list_all2 R xs ys" "\<And>x y. R x y \<Longrightarrow> f x = g y"
  shows "list_all2 R (sort_key f xs) (sort_key g ys)"
proof -
  have i: "list_all2 R (insort_key f x xs) (insort_key g y ys)" if "list_all2 R xs ys" "R x y" for x y xs ys
    using that(1) by (induction rule: list_all2_induct) (use that(2) assms(2) in auto)
  show ?thesis using assms(1) by (induction rule: list_all2_induct) (auto intro: i)
qed

lemma problem_alike_simps:
  assumes "problem_alike p p'"
  shows "p\<lparr>pr_test_cases := []\<rparr> = p'\<lparr>pr_test_cases := []\<rparr>"
    "pr_id p = pr_id p'" "pr_slug p = pr_slug p'" "pr_created_at p = pr_created_at p'"
    "pr_is_published p = pr_is_published p'" "pr_difficulty p = pr_difficulty p'"
    "problem_row_valid p = problem_row_valid p'" "detail_of False p = detail_of False p'"
proof -
  show e: "p\<lparr>pr_test_cases := []\<rparr> = p'\<lparr>pr_test_cases := []\<rparr>" using assms by (simp add: problem_alike_def)
  show "problem_row_valid p = problem_row_valid p'" by (rule problem_row_valid_shown [OF e])
  show "detail_of False p = detail_of False p'"
    by (rule detail_of_shown [OF e]) (use assms in \<open>simp add: problem_alike_def\<close>)
  show "pr_id p = pr_id p'" "pr_slug p = pr_slug p'" "pr_created_at p = pr_created_at p'"
    "pr_is_published p = pr_is_published p'" "pr_difficulty p = pr_difficulty p'"
    using e by (cases p; cases p'; simp)+
qed

lemma problem_read_alike:
  assumes "problem_alike p p'"
  shows "problem_read_of p = problem_read_of p'"
proof -
  have c: "length (filter (\<lambda>tc. \<not> te_is_hidden tc) (pr_test_cases q)) = length (filter isl (map case_shown (test_cases_of q)))"
    and l: "length (pr_test_cases q) = length (map case_shown (test_cases_of q))" for q
  proof -
    have "filter isl (map case_shown xs) = map case_shown (filter (\<lambda>tc. \<not> te_is_hidden tc) xs)" for xs
      by (induction xs) (auto simp: case_shown_def)
    then show "length (filter (\<lambda>tc. \<not> te_is_hidden tc) (pr_test_cases q)) = length (filter isl (map case_shown (test_cases_of q)))"
      by (simp add: test_cases_of_def filter_sort)
    show "length (pr_test_cases q) = length (map case_shown (test_cases_of q))" by (simp add: test_cases_of_def)
  qed
  show ?thesis
    using assms unfolding problem_read_of_def c l by (simp add: problem_alike_def)
qed

lemma find_problem_alike:
  assumes "list_all2 problem_alike (db_problems db) (db_problems db')"
  shows "rel_reply (rel_option problem_alike) (find_problem db i) (find_problem db' i)"
  unfolding find_problem_def
  using one_or_none_rel [OF assms] by (cases "uuid_of i") (simp_all add: problem_alike_simps)

lemma listing_alike:
  assumes "list_all2 problem_alike (db_problems db) (db_problems db')"
  shows "list_problems db d sk n = list_problems db' d sk n"
proof -
  have f: "list_all2 problem_alike (filter P xs) (filter P ys)"
    if "list_all2 problem_alike xs ys" "\<And>p p'. problem_alike p p' \<Longrightarrow> P p = P p'" for P xs ys
    using that(1) by (induction rule: list_all2_induct) (use that(2) in auto)
  let ?rows = "\<lambda>db. take (nat n) (drop (nat sk) (sort_key pr_created_at
      (filter (\<lambda>p. pr_is_published p \<and> difficulty_is d p) (db_problems db))))"
  have "list_all2 problem_alike (?rows db) (?rows db')"
    by (intro list_all2_takeI list_all2_dropI sort_key_rel f assms)
      (simp_all add: problem_alike_simps difficulty_is_def)
  then have "list_all problem_row_valid (?rows db) = list_all problem_row_valid (?rows db') \<and>
      map problem_read_of (?rows db) = map problem_read_of (?rows db')"
    by (induction rule: list_all2_induct) (auto simp: problem_alike_simps problem_read_alike)
  then show ?thesis unfolding list_problems_def Let_def by simp
qed

text \<open>C32. Nor do the problem endpoints show hidden test cases: an ordinary user gets the same
  details and the same listing whatever the hidden cases contain, as long as their number
  and points are the same.\<close>

theorem problems_hide_hidden_cases:
  assumes "\<not> is_admin u" and "list_all2 problem_alike (db_problems db) (db_problems db')"
    and "db_problems db \<noteq> []"
  shows "fst (get_problem fresh now i u db) = fst (get_problem fresh now i u db') \<and>
         fst (list_problems_endpoint fresh now d sk n db) = fst (list_problems_endpoint fresh now d sk n db')"
proof -
  have ne: "db_problems db' \<noteq> []" using assms(2,3) by auto
  have "get_problem_by_id_or_slug db i False = get_problem_by_id_or_slug db' i False"
    using find_problem_alike [OF assms(2), of i] problem_alike_simps(7,8)
    by (auto simp: get_problem_by_id_or_slug_def rel_option_iff split: reply.splits option.splits)
  then show ?thesis
    using assms(1,3) ne listing_alike [OF assms(2)]
    by (simp add: get_problem_def list_problems_endpoint_def Let_def)
qed

theorem problems_hide_hidden_cases_witness:
  "fst (get_problem id 0 (lit ''echo'') demo_user demo_db) =
   fst (get_problem id 0 (lit ''echo'') demo_user (demo_db\<lparr>db_problems :=
     [demo_problem\<lparr>pr_test_cases := [(hd (pr_test_cases demo_problem))\<lparr>te_expected_output := lit ''2''\<rparr>]\<rparr>]\<rparr>))"
proof -
  have "list_all2 problem_alike (db_problems demo_db)
      [demo_problem\<lparr>pr_test_cases := [(hd (pr_test_cases demo_problem))\<lparr>te_expected_output := lit ''2''\<rparr>]\<rparr>]"
    by (simp add: demo_db_def problem_alike_def demo_problem_def test_cases_of_def case_shown_def)
  moreover have "db_problems demo_db \<noteq> []" by (simp add: demo_db_def)
  ultimately show ?thesis
    using problems_hide_hidden_cases [OF demo_user_not_admin, of demo_db
        "demo_db\<lparr>db_problems := [demo_problem\<lparr>pr_test_cases :=
           [(hd (pr_test_cases demo_problem))\<lparr>te_expected_output := lit ''2''\<rparr>]\<rparr>]\<rparr>" id 0 "lit ''echo''" None 0 1]
    by simp
qed

lemma timeout_of_problem:
  assumes "problem_row_valid p"
  shows "\<exists>t. timeout_sec (pr_time_limit_ms p) = Inr t"
proof -
  have "job_in_range ((problem_job s p)\<lparr>gj_source_code := []\<rparr>)" for s
    using assms by (simp add: job_in_range_def problem_job_def problem_row_valid_def problem_base_valid_def)
  from job_in_range_valid(1) [OF this] show ?thesis by (auto simp: problem_job_def)
qed

text \<open>A source text over the execution limit strands its submission.  The request is
  accepted by its schema and stored, then the first execution request is refused, so the
  answer is 404 although the problem exists, nothing is run, and the row stays
  \<open>GRADING\<close> without a scorecard.\<close>

lemma oversized_source_stranded:
  assumes "find_problem (seed_default_problems_if_empty (\<lambda>k. fresh (k + 1)) now db) i = Reply (Some problem)"
    and "pr_test_cases problem \<noteq> []" and "problem_row_valid problem"
    and "65536 < length (gc_source_code g)" and "length (gc_language g) \<le> 30"
    and "fresh 0 \<notin> sb_id ` set (db_submissions db)"
  shows "\<exists>db' row. submit_for_grading fmt exec fresh now i g u db w =
           (Http_Error 404 (lit ''ExecutionRequest''), db', w) \<and>
           get_submission_details db' (fresh 0) u = Reply row \<and> sb_status row = lit ''GRADING'' \<and>
           (\<forall>sc. get_grading_result (fresh 0) u db' \<noteq> Reply sc)"
proof -
  let ?row = "grading_submission (fresh 0) now (us_id u) problem g"
  let ?db = "(seed_default_problems_if_empty (\<lambda>k. fresh (k + 1)) now db)
      \<lparr>db_submissions := db_submissions db @ [?row]\<rparr>"
  obtain t where t: "timeout_sec (gj_time_limit_ms (problem_job ?row problem)) = Inr t"
    using timeout_of_problem [OF assms(3)] by (auto simp: problem_job_def)
  have ne: "tc_data_list problem \<noteq> []"
    using assms(2) by (metis list.size(3) length_map length_sort length_0_conv tc_data_list_def test_cases_of_def)
  have big: "65536 < length (gj_source_code (problem_job ?row problem))"
    using assms(4) by (simp add: problem_job_def grading_submission_def new_submission_def)
  have e: "evaluate_submission fmt exec (problem_job ?row problem) (tc_data_list problem) w =
      (Inl (ValidationError (lit ''ExecutionRequest'')), w)"
    by (rule evaluation_out_of_range [OF big ne t])
  have "grading_submission_valid g" using assms(4,5) by (auto simp: grading_submission_valid_def)
  then have r: "submit_for_grading fmt exec fresh now i g u db w =
      (Http_Error 404 (lit ''ExecutionRequest''), ?db, w)"
    using submit_found [OF assms(1,2), of g fmt exec u w] e by (simp add: Let_def)
  have g: "get_submission ?db (fresh 0) u = Reply (Some ?row)"
    by (rule get_new_row [OF _ assms(6)]) simp_all
  have "sb_status ?row = lit ''GRADING''" "sb_telemetry ?row = None"
    by (simp_all add: grading_submission_def new_submission_def)
  with r g show ?thesis
    by (intro exI [of _ ?db] exI [of _ ?row])
      (simp add: get_submission_details_def get_grading_result_def get_grading_scorecard_def)
qed

lemma oversized_source_stranded_witness:
  "\<exists>db' row. submit_for_grading plain_fmt echo_driver (\<lambda>_. 9) 5 (lit ''echo'')
       (demo_submission\<lparr>gc_source_code := replicate 65537 35\<rparr>) demo_user demo_db 0 =
         (Http_Error 404 (lit ''ExecutionRequest''), db', 0) \<and>
     get_submission_details db' 9 demo_user = Reply row \<and> sb_status row = lit ''GRADING''"
proof -
  have "problem_row_valid demo_problem" "pr_test_cases demo_problem \<noteq> []"
    by (simp_all add: problem_row_valid_def problem_base_valid_def difficulties_def demo_problem_def)
  then show ?thesis
    using oversized_source_stranded [where fresh = "\<lambda>_. 9" and now = 5 and
        g = "demo_submission\<lparr>gc_source_code := replicate 65537 35\<rparr>" and fmt = plain_fmt and
        exec = echo_driver and u = demo_user and w = 0, OF demo_found _ _ _ _ demo_db_fresh]
    by (auto simp: demo_submission_def)
qed

section \<open>Creating problems\<close>

lemma create_endpoint_fresh:
  assumes "problems_inv (db_problems db)" "problem_create_valid p"
    and "pc_slug p \<notin> pr_slug ` set (db_problems db)"
    and "fresh 0 \<notin> pr_id ` set (db_problems db)" "fresh 0 < 2 ^ 128"
    and "find_problem db (pc_slug p) = Reply None"
  shows "create_problem_endpoint fresh now p db =
    (Reply (detail_of True (new_problem fresh now p)),
     db\<lparr>db_problems := db_problems db @ [new_problem fresh now p]\<rparr>)"
    and "problems_inv (db_problems db @ [new_problem fresh now p])"
proof -
  let ?p = "new_problem fresh now p"
  let ?db = "db\<lparr>db_problems := db_problems db @ [?p]\<rparr>"
  have i: "pr_id ?p = fresh 0" "pr_slug ?p = pc_slug p" by (simp_all add: new_problem_def)
  then have c: "create_problem fresh now p db = (Reply ?p, ?db)"
    using assms(3,4) by (auto simp: create_problem_def Let_def list_ex_iff image_iff)
  from create_problem_inv [OF c assms(1,2)] have inv: "problems_inv (db_problems ?db)" "?p \<in> set (db_problems ?db)"
    by simp_all
  then show "problems_inv (db_problems db @ [?p])" by simp
  have "find_problem ?db (show_uuid (fresh 0)) = Reply (Some ?p)"
    using find_problem_id [OF inv] assms(5) i by simp
  then show "create_problem_endpoint fresh now p db = (Reply (detail_of True ?p), ?db)"
    using assms(2,6) c new_problem_valid [OF assms(2)] i
    by (simp add: create_problem_endpoint_def get_problem_by_id_or_slug_def)
qed

text \<open>A slug is a name for a problem exactly when it does not read as a UUID.  A valid new
  problem is created, and served to an administrator by its identifier and, if the slug
  does not read as a UUID, by its slug with the same answer; creating a second one with
  that slug is refused with 400.  If the slug reads as one, the duplicate passes the check
  and fails in the database.\<close>

lemma created_problem_served:
  assumes "problems_inv (db_problems db)" and "problem_create_valid p"
    and "pc_slug p \<notin> pr_slug ` set (db_problems db)"
    and "fresh 0 \<notin> pr_id ` set (db_problems db)" and "fresh 0 < 2 ^ 128"
    and "\<forall>v. uuid_of (pc_slug p) = Some v \<longrightarrow> v \<noteq> fresh 0 \<and> v \<notin> pr_id ` set (db_problems db)"
    and "is_admin u" and "create_problem_endpoint fresh now p db = (r, db')"
  shows "(\<exists>d. r = Reply d) \<and> problems_inv (db_problems db') \<and>
    get_problem fresh' now' (show_uuid (fresh 0)) u db' = (r, db') \<and>
    (if uuid_of (pc_slug p) = None
     then get_problem fresh' now' (pc_slug p) u db' = (r, db') \<and>
          (\<exists>m. create_problem_endpoint fresh' now' p db' = (Http_Error 400 m, db'))
     else create_problem_endpoint fresh' now' p db' = (Crash, db'))"
proof -
  let ?p = "new_problem fresh now p"
  have none: "find_problem db (pc_slug p) = Reply None"
  proof (cases "uuid_of (pc_slug p)")
    case None
    then have "filter (\<lambda>q. pr_slug q = pc_slug p) (db_problems db) = []"
      using assms(3) by (metis (mono_tags, lifting) filter_False image_eqI)
    with None show ?thesis by (simp add: find_problem_def)
  next
    case (Some v)
    then have "filter (\<lambda>q. pr_id q = v) (db_problems db) = []"
      using assms(6) by (auto simp: filter_empty_conv)
    with Some show ?thesis by (simp add: find_problem_def)
  qed
  note c = create_endpoint_fresh [where fresh = fresh and now = now, OF assms(1,2,3,4,5) none]
  have r: "r = Reply (detail_of True ?p)" "db' = db\<lparr>db_problems := db_problems db @ [?p]\<rparr>"
    using assms(8) c(1) by simp_all
  then have inv: "problems_inv (db_problems db')" and mem: "?p \<in> set (db_problems db')" using c(2) by simp_all
  have i: "pr_id ?p = fresh 0" "pr_slug ?p = pc_slug p" by (simp_all add: new_problem_def)
  have slug: "pr_slug (new_problem fresh' now' p) = pc_slug p" by (simp add: new_problem_def)
  have v: "problem_row_valid ?p" by (rule new_problem_valid [OF assms(2)])
  have ne: "db_problems db' \<noteq> []" using mem by auto
  have id: "find_problem db' (show_uuid (fresh 0)) = Reply (Some ?p)"
    using find_problem_id [OF inv mem] assms(5) i by simp
  show ?thesis
  proof (cases "uuid_of (pc_slug p)")
    case None
    then have sl: "find_problem db' (pc_slug p) = Reply (Some ?p)"
      using find_problem_slug [OF inv mem] i by simp
    show ?thesis
      using None inv id sl v ne assms(2,7) r
      by (simp add: get_problem_def get_problem_by_id_or_slug_def create_problem_endpoint_def)
  next
    case (Some v')
    then have "v' \<notin> pr_id ` set (db_problems db')" using assms(6) r i by auto
    then have "filter (\<lambda>q. pr_id q = v') (db_problems db') = []" by (auto simp: filter_empty_conv)
    with Some have "find_problem db' (pc_slug p) = Reply None" by (simp add: find_problem_def)
    moreover have "create_problem fresh' now' p db' = (Crash, db')"
      using mem i(2) by (auto simp: create_problem_def Let_def list_ex_iff slug)
    ultimately show ?thesis
      using Some inv id v ne assms(2,7) r
      by (simp add: get_problem_def get_problem_by_id_or_slug_def create_problem_endpoint_def)
  qed
qed

definition demo_create :: problem_create where
  "demo_create =
     \<lparr>pc_title = [], pc_slug = show_uuid 5, pc_description = [], pc_difficulty = lit ''EASY'',
      pc_time_limit_ms = 2000, pc_memory_limit_mb = 128, pc_is_published = True, pc_test_cases = []\<rparr>"

lemma created_problem_served_witness:
  "\<exists>d db'. create_problem_endpoint (\<lambda>i. 3 + i) 0 demo_create empty_database = (Reply d, db') \<and>
     get_problem id 1 (show_uuid 3) (demo_user\<lparr>us_role := lit ''admin''\<rparr>) db' = (Reply d, db') \<and>
     create_problem_endpoint (\<lambda>i. 9 + i) 1 demo_create db' = (Crash, db')"
proof -
  have v: "problem_create_valid demo_create"
    by (simp add: problem_create_valid_def problem_base_valid_def difficulties_def demo_create_def
        show_uuid_def Let_def)
  have u: "uuid_of (pc_slug demo_create) = Some 5" by (simp add: demo_create_def uuid_roundtrip)
  obtain r db' where c: "create_problem_endpoint (\<lambda>i. 3 + i) 0 demo_create empty_database = (r, db')" by fastforce
  have "problems_inv (db_problems empty_database)" by (simp add: problems_inv_def empty_database_def)
  from created_problem_served [OF this v _ _ _ _ _ c, of "demo_user\<lparr>us_role := lit ''admin''\<rparr>"]
  have "(\<exists>d. r = Reply d) \<and> get_problem id 1 (show_uuid 3) (demo_user\<lparr>us_role := lit ''admin''\<rparr>) db' = (r, db') \<and>
      create_problem_endpoint (\<lambda>i. 9 + i) 1 demo_create db' = (Crash, db')"
    by (simp add: u is_admin_def empty_database_def)
  with c show ?thesis by blast
qed

end
