(* ===== verification/Daemon.thy ===== *)
theory Daemon
  imports Problems
begin

text \<open>
  The worker daemon (worker/daemon.py): it pops payloads from the queue the backend pushes
  to, runs or grades them, and writes the outcome into the submission's row.  Arguments are
  the sandbox (what \<open>stream_execute\<close> yields, and the driver of the autograder), pydantic's
  validation of a test case, and \<open>storable\<close>: the texts the database accepts.  A payload
  whose \<open>submission_id\<close> is not a string never reaches the database; what its run publishes
  is not modelled.  The logger and the pause of a second after an error are left out.
\<close>

section \<open>Writing the outcome\<close>

record outcome_values =
  ov_status :: json
  ov_exit_code :: json
  ov_duration_ms :: json
  ov_output_summary :: "pstr option"
  ov_score :: "int option"
  ov_max_score :: "int option"
  ov_grading_status :: "pstr option"

fun as_str :: "json \<Rightarrow> pstr option" where
  "as_str (JStr s) = Some s"
| "as_str _ = None"

text \<open>A nullable integer column: \<open>None\<close> when the value does not fit it.\<close>

fun int_column :: "json \<Rightarrow> int option option" where
  "int_column JNull = Some None"
| "int_column (JInt i) = Some (Some i)"
| "int_column _ = None"

definition outcome_row :: "(pstr \<Rightarrow> bool) \<Rightarrow> outcome_values \<Rightarrow> (submission_row \<Rightarrow> submission_row) option" where
  "outcome_row storable v =
     (case (as_str (ov_status v), int_column (ov_exit_code v), int_column (ov_duration_ms v)) of
        (Some status, Some exit_code, Some duration_ms) \<Rightarrow>
          if storable status \<and> pred_option storable (ov_output_summary v) \<and>
             pred_option storable (ov_grading_status v)
          then Some (\<lambda>s. s\<lparr>sb_status := status, sb_exit_code := exit_code,
                           sb_execution_time_ms := duration_ms,
                           sb_output_summary := ov_output_summary v, sb_score := ov_score v,
                           sb_max_score := ov_max_score v,
                           sb_grading_status := ov_grading_status v\<rparr>)
          else None
      | _ \<Rightarrow> None)"

text \<open>Every exception is logged and leaves the table as it was.\<close>

definition persist_submission_result ::
  "(pstr \<Rightarrow> bool) \<Rightarrow> pstr \<Rightarrow> outcome_values \<Rightarrow> database \<Rightarrow> database" where
  "persist_submission_result storable submission_id v db =
     (case (uuid_of submission_id, outcome_row storable v) of
        (Some sub_uuid, Some values) \<Rightarrow>
          db\<lparr>db_submissions :=
               map (\<lambda>s. if sb_id s = sub_uuid then values s else s) (db_submissions db)\<rparr>
      | _ \<Rightarrow> db)"

section \<open>Reading a payload\<close>

text \<open>\<open>float(v)\<close> and \<open>stdin_data\<close>; \<open>None\<close> is an exception.\<close>

fun json_float :: "json \<Rightarrow> pyfloat option" where
  "json_float (JInt i) = (case fl (of_int i) of Fin x \<Rightarrow> Some (Fin x) | _ \<Rightarrow> None)"
| "json_float (JFloat x) = Some x"
| "json_float (JBool b) = Some (Fin (of_bool b))"
| "json_float (JStr s) = py_float (py_strip s)"
| "json_float _ = None"

fun optional_str :: "json \<Rightarrow> pstr option option" where
  "optional_str JNull = Some None"
| "optional_str (JStr s) = Some (Some s)"
| "optional_str _ = None"

text \<open>The request of an execution job, before its bounds are checked.\<close>

definition task_request :: "(pstr \<times> json) list \<Rightarrow> execution_request option" where
  "task_request task_data =
     (case (as_str (dict_get (lit ''source_code'') (JStr []) task_data),
            as_str (dict_get (lit ''language'') (JStr (lit ''python'')) task_data),
            optional_str (dict_get (lit ''stdin_data'') JNull task_data),
            json_float (dict_get (lit ''timeout_seconds'') (JFloat (Fin 5)) task_data),
            as_str (dict_get (lit ''memory_limit'') (JStr (lit ''128m'')) task_data)) of
        (Some source_code, Some language, Some stdin_data, Some timeout_seconds, Some memory_limit) \<Rightarrow>
          (case (json_int (dict_get (lit ''cpu_quota'') (JInt 50000) task_data),
                 json_int (dict_get (lit ''max_pids'') (JInt 64) task_data),
                 json_int (dict_get (lit ''max_output_bytes'') (JInt 1048576) task_data)) of
             (Some cpu_quota, Some max_pids, Some max_output_bytes) \<Rightarrow>
               Some \<lparr>rq_source_code = source_code, rq_language = language, rq_stdin_data = stdin_data,
                     rq_timeout_seconds = timeout_seconds, rq_memory_limit = memory_limit,
                     rq_cpu_quota = cpu_quota, rq_max_pids = max_pids,
                     rq_max_output_bytes = max_output_bytes\<rparr>
           | _ \<Rightarrow> None)
      | _ \<Rightarrow> None)"

text \<open>Iterating over the value of \<open>test_cases\<close>; the keys or characters of the rest do not unpack.\<close>

fun raw_cases :: "json \<Rightarrow> json list option" where
  "raw_cases (JArr xs) = Some xs"
| "raw_cases (JStr []) = Some []"
| "raw_cases (JObj []) = Some []"
| "raw_cases _ = None"

fun task_mode :: "json \<Rightarrow> comparison_mode option" where
  "task_mode (JStr s) = Some (mode_of_str s)"
| "task_mode (JArr xs) = None"
| "task_mode (JObj kvs) = None"
| "task_mode _ = Some NORMALIZED"

text \<open>
  The job of a grading task.  The source and the language are only read when there is a test
  case to run, the two identifiers when the summary is built.
\<close>

definition text_or :: "bool \<Rightarrow> json \<Rightarrow> pstr option" where
  "text_or unused j = (case as_str j of Some s \<Rightarrow> Some s | None \<Rightarrow> if unused then Some [] else None)"

definition task_job ::
  "(json \<Rightarrow> py_exn + test_case_data) \<Rightarrow> pstr \<Rightarrow> (pstr \<times> json) list
     \<Rightarrow> (grading_job \<times> test_case_data list) option" where
  "task_job make_case submission_id task_data =
     (case raw_cases (dict_get (lit ''test_cases'') (JArr []) task_data) of
        None \<Rightarrow> None
      | Some raw \<Rightarrow>
          (case (make_cases make_case raw,
                 task_mode (dict_get (lit ''mode'') (JStr (lit ''NORMALIZED'')) task_data),
                 text_or (raw = []) (dict_get (lit ''source_code'') (JStr []) task_data),
                 text_or (raw = []) (dict_get (lit ''language'') (JStr (lit ''python'')) task_data),
                 json_int (dict_get (lit ''time_limit_ms'') (JInt 2000) task_data),
                 json_int (dict_get (lit ''memory_limit_mb'') (JInt 128) task_data)) of
             (Inr tcs, Some mode, Some source_code, Some language, Some time_limit_ms, Some memory_limit_mb) \<Rightarrow>
               Some (\<lparr>gj_submission_id = submission_id,
                      gj_problem_id = (case as_str (dict_get (lit ''problem_id'') (JStr []) task_data) of
                        Some p \<Rightarrow> p | None \<Rightarrow> []),
                      gj_source_code = source_code, gj_language = language,
                      gj_time_limit_ms = time_limit_ms, gj_memory_limit_mb = memory_limit_mb,
                      gj_mode = mode\<rparr>, tcs)
           | _ \<Rightarrow> None))"

section \<open>The daemon\<close>

record 'w environment =
  en_storable :: "pstr \<Rightarrow> bool"
  en_make_case :: "json \<Rightarrow> py_exn + test_case_data"
  en_driver :: "'w driver"
  en_stream :: "execution_request \<Rightarrow> 'w \<Rightarrow> generated \<times> 'w"
  en_formatting :: formatting

text \<open>\<open>dm_queue\<close> is the Redis list from left to right; \<open>dm_cache\<close> the keys \<open>rce:grading:...\<close>.\<close>

record 'w daemon =
  dm_running :: bool
  dm_queue :: "pstr list"
  dm_cache :: "pstr \<rightharpoonup> grading_summary"
  dm_frames :: "pstr list"
  dm_db :: database
  dm_world :: 'w

definition execution_values :: "task_result \<Rightarrow> outcome_values" where
  "execution_values result =
     \<lparr>ov_status = tr_status result, ov_exit_code = tr_exit_code result,
      ov_duration_ms = tr_duration_ms result,
      ov_output_summary = Some (str_or (tr_stdout result) (tr_stderr result)),
      ov_score = None, ov_max_score = None, ov_grading_status = None\<rparr>"

definition grading_values :: "grading_summary \<Rightarrow> outcome_values" where
  "grading_values summary =
     \<lparr>ov_status = JStr (verdict_value (gs_overall_status summary)), ov_exit_code = JNull,
      ov_duration_ms = JNull, ov_output_summary = None, ov_score = Some (gs_total_score summary),
      ov_max_score = Some (gs_max_score summary),
      ov_grading_status = Some (verdict_value (gs_overall_status summary))\<rparr>"

definition run_grading ::
  "'w environment \<Rightarrow> pstr \<Rightarrow> (pstr \<times> json) list \<Rightarrow> 'w daemon \<Rightarrow> 'w daemon" where
  "run_grading en submission_id task_data d =
     (case task_job (en_make_case en) submission_id task_data of
        None \<Rightarrow> d
      | Some (job, tcs) \<Rightarrow>
          (case evaluate_submission (en_formatting en) (en_driver en) job tcs (dm_world d) of
             (Inl exc, w) \<Rightarrow> d\<lparr>dm_world := w\<rparr>
           | (Inr summary, w) \<Rightarrow>
               if as_str (dict_get (lit ''problem_id'') (JStr []) task_data) = None
               then d\<lparr>dm_world := w\<rparr>
               else d\<lparr>dm_world := w,
                      dm_cache := (dm_cache d)(lit ''rce:grading:'' @ submission_id \<mapsto> summary),
                      dm_db := persist_submission_result (en_storable en) submission_id
                                 (grading_values summary) (dm_db d)\<rparr>))"

definition run_execution ::
  "'w environment \<Rightarrow> pstr \<Rightarrow> (pstr \<times> json) list \<Rightarrow> 'w daemon \<Rightarrow> 'w daemon" where
  "run_execution en submission_id task_data d =
     (case task_request task_data of
        None \<Rightarrow> d
      | Some rq \<Rightarrow>
          (case build_request rq of
             Inl exc \<Rightarrow> d
           | Inr request \<Rightarrow>
               (case en_stream en request (dm_world d) of
                  (gen, w) \<Rightarrow>
                    (case stream_and_collect (show_float (en_formatting en)) submission_id gen of
                       (result, frames, cmds) \<Rightarrow>
                         d\<lparr>dm_world := w, dm_frames := dm_frames d @ frames,
                           dm_db := persist_submission_result (en_storable en) submission_id
                                      (execution_values result) (dm_db d)\<rparr>))))"

text \<open>One payload.\<close>

definition handle_payload :: "'w environment \<Rightarrow> pstr \<Rightarrow> 'w daemon \<Rightarrow> 'w daemon" where
  "handle_payload en raw_payload d =
     (case loads raw_payload of
        Some (JObj task_data) \<Rightarrow>
          (case dict_get (lit ''submission_id'') JNull task_data of
             JStr submission_id \<Rightarrow>
               if submission_id = [] then d
               else if map_of task_data (lit ''action'') = Some (JStr (lit ''grade'')) \<or>
                       map_of task_data (lit ''test_cases'') \<noteq> None
               then run_grading en submission_id task_data d
               else run_execution en submission_id task_data d
           | _ \<Rightarrow> d)
      | _ \<Rightarrow> d)"

text \<open>One turn of the loop: \<open>brpop\<close> takes the payload at the right end.\<close>

definition turn_with :: "(pstr \<Rightarrow> 'w daemon \<Rightarrow> 'w daemon) \<Rightarrow> 'w daemon \<Rightarrow> 'w daemon" where
  "turn_with handle d =
     (if \<not> dm_running d \<or> dm_queue d = [] then d
      else handle (last (dm_queue d)) (d\<lparr>dm_queue := butlast (dm_queue d)\<rparr>))"

definition daemon_turn :: "'w environment \<Rightarrow> 'w daemon \<Rightarrow> 'w daemon" where
  "daemon_turn en = turn_with (handle_payload en)"

definition daemon_stop :: "'w daemon \<Rightarrow> 'w daemon" where
  "daemon_stop d = d\<lparr>dm_running := False\<rparr>"

text \<open>The backend's \<open>lpush\<close>.\<close>

definition enqueue :: "pstr \<Rightarrow> 'w daemon \<Rightarrow> 'w daemon" where
  "enqueue raw_payload d = d\<lparr>dm_queue := raw_payload # dm_queue d\<rparr>"

text \<open>What happens to a daemon: it turns, a payload arrives, or it is told to stop.\<close>

inductive daemon_step :: "'w environment \<Rightarrow> 'w daemon \<Rightarrow> 'w daemon \<Rightarrow> bool" for en where
  turn: "dm_running d \<Longrightarrow> daemon_step en d (daemon_turn en d)"
| arrive: "daemon_step en d (enqueue p d)"
| stopped: "daemon_step en d (daemon_stop d)"

inductive_cases daemon_stepE: "daemon_step en d d'"

end
