(* ===== verification/Daemon_Claims.thy ===== *)
theory Daemon_Claims
  imports Daemon
begin

text \<open>
  From the submission endpoint to the row the daemon writes: the payload is read back as the
  request it was made from, jobs are handled in the order they were pushed, and only the
  columns of the outcome ever change.
\<close>

section \<open>The payload\<close>

definition submitted_request :: "submission_create \<Rightarrow> execution_request" where
  "submitted_request sub_in =
     \<lparr>rq_source_code = sc_source_code sub_in, rq_language = sc_language sub_in,
      rq_stdin_data = sc_stdin_data sub_in,
      rq_timeout_seconds = Fin (of_int (int_or (sc_timeout_seconds sub_in) 30)),
      rq_memory_limit = lit ''128m'', rq_cpu_quota = 50000, rq_max_pids = 64,
      rq_max_output_bytes = 1048576\<rparr>"

definition submitted_text :: "submission_create \<Rightarrow> bool" where
  "submitted_text sub_in \<longleftrightarrow>
     utf8_text (sc_source_code sub_in) \<and> utf8_text (sc_language sub_in) \<and>
     pred_option utf8_text (sc_stdin_data sub_in)"

definition headers_ok :: "(pstr \<times> pstr) list \<Rightarrow> bool" where
  "headers_ok trace \<longleftrightarrow> list_all (\<lambda>(k, v). utf8_text k \<and> utf8_text v) trace \<and> distinct (map fst trace)"

lemma timeout_bounds:
  "submission_create_valid sub_in \<Longrightarrow>
   1 \<le> int_or (sc_timeout_seconds sub_in) 30 \<and> int_or (sc_timeout_seconds sub_in) 30 \<le> 120"
  by (auto simp: submission_create_valid_def int_or_def split: option.splits)

lemma headers_plain: "headers_ok trace \<Longrightarrow> json_plain (JObj (map (apsnd JStr) trace))"
proof -
  have "list_all (\<lambda>(k, v). utf8_text k \<and> utf8_text v) t \<Longrightarrow> plain_fields (map (apsnd JStr) t)" for t
    by (induction t) auto
  then show "headers_ok trace \<Longrightarrow> json_plain (JObj (map (apsnd JStr) trace))"
    by (simp add: headers_ok_def comp_def)
qed

lemma payload_read:
  assumes "submitted_text sub_in" "headers_ok trace"
    and "sb_source_code s = sc_source_code sub_in" "sb_language s = sc_language sub_in"
    and "sb_stdin_data s = sc_stdin_data sub_in"
  shows "loads (dumps sf (JObj (task_payload trace sub_in s))) = Some (JObj (task_payload trace sub_in s))"
proof (rule loads_dumps)
  show "json_plain (JObj (task_payload trace sub_in s))"
    using assms headers_plain [OF assms(2)]
    by (auto simp: task_payload_def submitted_text_def simp del: json_plain.simps(7) split: option.splits)
      (simp_all)
qed

lemma payload_request:
  assumes "submission_create_valid sub_in"
    and "sb_source_code s = sc_source_code sub_in" "sb_language s = sc_language sub_in"
    and "sb_stdin_data s = sc_stdin_data sub_in"
  shows "task_request (task_payload trace sub_in s) = Some (submitted_request sub_in)"
    and "build_request (submitted_request sub_in) = Inr (submitted_request sub_in)"
proof -
  let ?t = "int_or (sc_timeout_seconds sub_in) 30"
  have "fl (of_int ?t) = Fin (of_int ?t)"
    using timeout_bounds [OF assms(1)] by (intro fl_of_int) auto
  then show "task_request (task_payload trace sub_in s) = Some (submitted_request sub_in)"
    using assms(2-4)
    by (simp add: task_request_def task_payload_def submitted_request_def dict_get_def
        execution_timeout_seconds_def split: option.split)
  have "(1 / 2 :: rat) \<le> of_int ?t" "(of_int ?t :: rat) \<le> 120"
    using timeout_bounds [OF assms(1)] by linarith+
  then show "build_request (submitted_request sub_in) = Inr (submitted_request sub_in)"
    using assms(1)
    by (simp add: build_request_def request_valid_def submitted_request_def submission_create_valid_def)
qed

lemma payload_dispatch:
  "map_of (task_payload trace sub_in s) (lit ''action'') = None"
  "map_of (task_payload trace sub_in s) (lit ''test_cases'') = None"
  "dict_get (lit ''submission_id'') JNull (task_payload trace sub_in s) = JStr (show_uuid (sb_id s))"
  by (simp_all add: task_payload_def dict_get_def)

lemma show_uuid_not_Nil [simp]: "show_uuid u \<noteq> []"
  by (simp add: show_uuid_def Let_def)

lemma handle_submitted:
  assumes "submission_create_valid sub_in" "submitted_text sub_in" "headers_ok trace"
    and "create_submission sf trace new_id now uid sub_in db = (row, db', payload)"
  shows "handle_payload en payload d =
    (case en_stream en (submitted_request sub_in) (dm_world d) of
       (gen, w) \<Rightarrow>
         (case stream_and_collect (show_float (en_formatting en)) (show_uuid new_id) gen of
            (result, frames, cmds) \<Rightarrow>
              d\<lparr>dm_world := w, dm_frames := dm_frames d @ frames,
                dm_db := persist_submission_result (en_storable en) (show_uuid new_id)
                           (execution_values result) (dm_db d)\<rparr>))"
proof -
  have row: "sb_id row = new_id" "sb_source_code row = sc_source_code sub_in"
    "sb_language row = sc_language sub_in" "sb_stdin_data row = sc_stdin_data sub_in"
    and payload: "payload = dumps sf (JObj (task_payload trace sub_in row))"
    using assms(4) by (auto simp: create_submission_def new_submission_def Let_def)
  show ?thesis
    unfolding handle_payload_def payload payload_read [OF assms(2,3) row(2-4)]
    by (simp add: payload_dispatch row(1) run_execution_def payload_request [OF assms(1) row(2-4)])
qed

section \<open>The queue\<close>

lemma run_grading_queue:
  "run_grading en i t (d\<lparr>dm_queue := q\<rparr>) = (run_grading en i t d)\<lparr>dm_queue := q\<rparr>"
  by (simp add: run_grading_def split: option.split sum.split prod.split)

lemma run_execution_queue:
  "run_execution en i t (d\<lparr>dm_queue := q\<rparr>) = (run_execution en i t d)\<lparr>dm_queue := q\<rparr>"
  by (simp add: run_execution_def split: option.split sum.split prod.split)

lemma handle_payload_queue:
  "handle_payload en p (d\<lparr>dm_queue := q\<rparr>) = (handle_payload en p d)\<lparr>dm_queue := q\<rparr>"
  unfolding handle_payload_def run_grading_queue run_execution_queue
  by (auto split: option.split json.split)

lemma handle_payload_running [simp]: "dm_running (handle_payload en p d) = dm_running d"
  by (simp add: handle_payload_def run_grading_def run_execution_def
      split: option.split json.split sum.split prod.split)

lemma fold_enqueue: "fold enqueue ps d = d\<lparr>dm_queue := rev ps @ dm_queue d\<rparr>"
  by (induction ps arbitrary: d) (simp_all add: enqueue_def)

text \<open>
  What the loop relies on: handling a payload leaves the queue and the running flag alone.
  Then the loop is first in, first out.
\<close>

locale payload_handler =
  fixes handle :: "pstr \<Rightarrow> 'w daemon \<Rightarrow> 'w daemon"
  assumes queue_frame: "handle p (d\<lparr>dm_queue := q\<rparr>) = (handle p d)\<lparr>dm_queue := q\<rparr>"
    and keeps_running: "dm_running (handle p d) = dm_running d"
begin

lemma turns_in_order:
  "dm_running d \<Longrightarrow>
   (turn_with handle ^^ length ps) (d\<lparr>dm_queue := rev ps\<rparr>) = (fold handle ps d)\<lparr>dm_queue := []\<rparr>"
proof (induction ps arbitrary: d)
  case (Cons p ps)
  have "(turn_with handle ^^ length (p # ps)) (d\<lparr>dm_queue := rev (p # ps)\<rparr>) =
      (turn_with handle ^^ length ps) (turn_with handle (d\<lparr>dm_queue := rev ps @ [p]\<rparr>))"
    by (simp add: funpow_swap1)
  also have "turn_with handle (d\<lparr>dm_queue := rev ps @ [p]\<rparr>) = (handle p d)\<lparr>dm_queue := rev ps\<rparr>"
    using Cons.prems queue_frame [of p "rev ps" d] by (simp add: turn_with_def)
  finally show ?case using Cons keeps_running by simp
qed simp

lemma queue_untouched: "dm_queue d = q \<Longrightarrow> dm_queue (handle p d) = q"
  using queue_frame [of p q d]
  by (metis daemon.select_convs(2) daemon.surjective daemon.update_convs(2))

lemma fold_queue_empty: "dm_queue d = [] \<Longrightarrow> (fold handle ps d)\<lparr>dm_queue := []\<rparr> = fold handle ps d"
proof -
  have "dm_queue d = [] \<Longrightarrow> dm_queue (fold handle ps d) = []" for d
    by (induction ps arbitrary: d) (simp_all add: queue_untouched)
  then show "dm_queue d = [] \<Longrightarrow> (fold handle ps d)\<lparr>dm_queue := []\<rparr> = fold handle ps d"
    by (cases "fold handle ps d") (metis daemon.update_convs(2) daemon.select_convs(2))
qed

lemma fifo:
  assumes "dm_running d" "dm_queue d = []"
  shows "(turn_with handle ^^ length ps) (fold enqueue ps d) = fold handle ps d"
  using turns_in_order [OF assms(1), of ps] fold_queue_empty [OF assms(2)] assms(2)
  by (simp add: fold_enqueue)

end

interpretation payloads: payload_handler "handle_payload en" for en
  by unfold_locales (simp_all add: handle_payload_queue)

section \<open>What a turn may change\<close>

text \<open>A row without the columns of the outcome.\<close>

definition row_core :: "submission_row \<Rightarrow> submission_row" where
  "row_core s =
     s\<lparr>sb_status := [], sb_exit_code := None, sb_execution_time_ms := None, sb_output_summary := None,
       sb_score := None, sb_max_score := None, sb_grading_status := None\<rparr>"

definition stored_core :: "database \<Rightarrow> database" where
  "stored_core db = db\<lparr>db_submissions := map row_core (db_submissions db)\<rparr>"

lemma persist_core [simp]:
  "stored_core (persist_submission_result storable sid v db) = stored_core db"
  by (auto simp: persist_submission_result_def outcome_row_def stored_core_def row_core_def
      split: option.splits if_splits)

lemma handle_payload_core [simp]: "stored_core (dm_db (handle_payload en p d)) = stored_core (dm_db d)"
  by (simp add: handle_payload_def run_grading_def run_execution_def
      split: option.split json.split sum.split prod.split)

lemma daemon_step_core: "daemon_step en d d' \<Longrightarrow> stored_core (dm_db d') = stored_core (dm_db d)"
  by (erule daemon_stepE) (simp_all add: daemon_turn_def turn_with_def enqueue_def daemon_stop_def)

lemma daemon_step_stopped:
  "daemon_step en d d' \<Longrightarrow> \<not> dm_running d \<Longrightarrow> \<not> dm_running d' \<and> dm_db d' = dm_db d \<and> dm_world d' = dm_world d"
  by (erule daemon_stepE) (simp_all add: enqueue_def daemon_stop_def)

section \<open>Properties\<close>

definition demo_source :: submission_create where
  "demo_source =
     \<lparr>sc_source_code = lit ''x'', sc_language = lit ''python'', sc_stdin_data = None, sc_timeout_seconds = None\<rparr>"

text \<open>C33. Every job on the queue is well typed for the worker.  The payload the backend writes for a
  valid submission reads back as a JSON object without repeated keys; each of its fields has
  the type the worker converts it to; and the request built from them is the submitted one
  and within the limits of the sandbox, so an accepted submission is never refused later.\<close>

theorem payload_well_typed:
  assumes "submission_create_valid sub_in" and "submitted_text sub_in" and "headers_ok trace"
    and "create_submission sf trace new_id now uid sub_in db = (row, db', payload)"
  shows "\<exists>t. loads payload = Some (JObj t) \<and> distinct (map fst t) \<and>
           dict_get (lit ''submission_id'') JNull t = JStr (show_uuid new_id) \<and>
           task_request t = Some (submitted_request sub_in) \<and>
           build_request (submitted_request sub_in) = Inr (submitted_request sub_in)"
proof -
  have row: "sb_id row = new_id" "sb_source_code row = sc_source_code sub_in"
    "sb_language row = sc_language sub_in" "sb_stdin_data row = sc_stdin_data sub_in"
    and payload: "payload = dumps sf (JObj (task_payload trace sub_in row))"
    using assms(4) by (auto simp: create_submission_def new_submission_def Let_def)
  have "distinct (map fst (task_payload trace sub_in row))" by (simp add: task_payload_def)
  then show ?thesis
    using payload_read [OF assms(2,3) row(2-4), of sf] payload_dispatch(3) [of trace sub_in row]
      payload_request [OF assms(1) row(2-4)] row(1)
    by (intro exI [of _ "task_payload trace sub_in row"]) (simp add: payload del: dumps.simps)
qed

theorem payload_well_typed_witness:
  "\<exists>t. loads (snd (snd (create_submission (\<lambda>_. []) [] 9 0 7 demo_source empty_database))) = Some (JObj t) \<and>
     task_request t = Some (submitted_request demo_source)"
proof -
  have v: "submission_create_valid demo_source" "submitted_text demo_source" "headers_ok []"
    by (simp_all add: submission_create_valid_def submitted_text_def headers_ok_def demo_source_def)
  obtain row db' payload where c: "create_submission (\<lambda>_. []) [] 9 0 7 demo_source empty_database = (row, db', payload)"
    by (metis prod_cases3)
  show ?thesis using payload_well_typed [OF v c] c by auto
qed

definition recorded :: "int option \<Rightarrow> pstr \<Rightarrow> int \<Rightarrow> pstr \<Rightarrow> submission_row \<Rightarrow> submission_row" where
  "recorded code st ms text s =
     s\<lparr>sb_status := st, sb_exit_code := code, sb_execution_time_ms := Some ms,
       sb_output_summary := Some text, sb_score := None, sb_max_score := None, sb_grading_status := None\<rparr>"

text \<open>A submission reaches the worker as it was sent, and its outcome comes back.  The
  payload the endpoint pushes is read by the daemon as an execution request with the
  submitted source, language, input and time limit, within the limits of the sandbox; and
  when the database accepts the texts of the outcome, the status, exit code, duration and
  output of the run are written into that submission's row and no other.\<close>

lemma submission_executed_and_recorded:
  assumes "submission_create_valid sub_in" and "submitted_text sub_in" and "headers_ok trace"
    and "new_id < 2 ^ 128"
    and "submit_code sf py reg True trace new_id now u sub_in db = (Reply row, db', [payload])"
    and "dm_running d" and "dm_queue d = q @ [payload]"
    and "en_stream en (submitted_request sub_in) (dm_world d) = ((cks, err), w)"
    and "stream_and_collect (show_float (en_formatting en)) (show_uuid new_id) (cks, err) = (r, frames, cmds)"
    and "tr_status r = JStr st" and "tr_exit_code r = (case code of None \<Rightarrow> JNull | Some k \<Rightarrow> JInt k)"
    and "tr_duration_ms r = JInt ms"
    and "en_storable en st" and "en_storable en (str_or (tr_stdout r) (tr_stderr r))"
  shows "dm_queue (daemon_turn en d) = q \<and> dm_frames (daemon_turn en d) = dm_frames d @ frames \<and>
         db_submissions (dm_db (daemon_turn en d)) =
           map (\<lambda>s. if sb_id s = new_id then recorded code st ms (str_or (tr_stdout r) (tr_stderr r)) s else s)
             (db_submissions (dm_db d))"
proof -
  have c: "create_submission sf trace new_id now (us_id u) sub_in db = (row, db', payload)"
    using assms(5) by (auto simp: submit_code_def split: if_splits prod.splits)
  have e: "int_column (tr_exit_code r) = Some code" using assms(11) by (cases code) simp_all
  let ?s = "str_or (tr_stdout r) (tr_stderr r)"
  have "outcome_row (en_storable en) (execution_values r) = Some (recorded code st ms ?s)"
    using assms(10,12-14) e by (simp add: outcome_row_def execution_values_def recorded_def fun_eq_iff)
  then have p: "persist_submission_result (en_storable en) (show_uuid new_id) (execution_values r) x =
      x\<lparr>db_submissions := map (\<lambda>s. if sb_id s = new_id then recorded code st ms ?s s else s) (db_submissions x)\<rparr>" for x
    using uuid_roundtrip [OF assms(4)] by (simp add: persist_submission_result_def)
  have "daemon_turn en d = handle_payload en payload (d\<lparr>dm_queue := q\<rparr>)"
    using assms(6,7) by (simp add: daemon_turn_def turn_with_def)
  then show ?thesis
    using handle_submitted [OF assms(1,2,3) c, of en "d\<lparr>dm_queue := q\<rparr>"] assms(8,9) by (simp add: p)
qed

text \<open>A worker whose programs end at once, and a database that refuses the character 0.\<close>

definition demo_stream :: "stream_chunk" where
  "demo_stream = complete_chunk (\<lambda>_. []) (status_payload ES_COMPLETED (Some 0) 3)"

definition demo_env :: "nat environment" where
  "demo_env =
     \<lparr>en_storable = (\<lambda>s. 0 \<notin> set s), en_make_case = (\<lambda>_. Inl OverflowError), en_driver = echo_driver,
      en_stream = (\<lambda>rq w. (([(demo_stream, [])], None), Suc w)), en_formatting = plain_fmt\<rparr>"

definition demo_worker :: "nat daemon" where
  "demo_worker =
     \<lparr>dm_running = True, dm_queue = [], dm_cache = Map.empty, dm_frames = [],
      dm_db = empty_database\<lparr>db_submissions := [new_submission 9 0 7 (lit ''python'') (lit ''x'')]\<rparr>,
      dm_world = 0\<rparr>"

lemma demo_collected:
  obtains r frames cmds where "stream_and_collect (show_float (en_formatting demo_env)) sid ([(demo_stream, [])], None) = (r, frames, cmds)"
    and "tr_status r = JStr (lit ''COMPLETED'')" "tr_exit_code r = JInt 0" "tr_duration_ms r = JInt 3"
    and "tr_stdout r = []" "tr_stderr r = []"
proof -
  let ?sf = "show_float (en_formatting demo_env)"
  have "cl_final_payload (collect_chunk ?sf (demo_stream, []) (start_collect sid)) = status_payload ES_COMPLETED (Some 0) 3"
    unfolding demo_stream_def by (rule collect_complete [OF payload_plain])
  moreover have "cl_stdout_parts (collect_chunk ?sf (demo_stream, []) (start_collect sid)) = []"
    "cl_stderr_parts (collect_chunk ?sf (demo_stream, []) (start_collect sid)) = []"
    by (simp_all add: collect_chunk_parts start_collect_def demo_stream_def complete_chunk_def)
  ultimately show ?thesis
    by (intro that) (auto simp: stream_and_collect_def task_result_of_def Let_def
        status_lookup [where extra = "[]", simplified])
qed

lemma submission_executed_and_recorded_witness:
  "\<exists>payload. snd (snd (submit_code (\<lambda>_. []) (lit ''python3'') (imported_registry (lit ''python3'')) True [] 9 0
        demo_user demo_source empty_database)) = [payload] \<and>
     map sb_status (db_submissions (dm_db (daemon_turn demo_env (demo_worker\<lparr>dm_queue := [payload]\<rparr>)))) =
       [lit ''COMPLETED'']"
proof -
  have v: "submission_create_valid demo_source" "submitted_text demo_source" "headers_ok []"
    by (simp_all add: submission_create_valid_def submitted_text_def headers_ok_def demo_source_def)
  obtain row db' payload where c: "create_submission (\<lambda>_. []) [] 9 0 (us_id demo_user) demo_source empty_database =
      (row, db', payload)" by (metis prod_cases3)
  have "fst (is_supported (lit ''python3'') (sc_language demo_source) (imported_registry (lit ''python3'')))"
    using demo_python
    by (force simp: is_supported_def demo_source_def get_strategy_def Let_def split: option.splits
        dest: map_of_SomeD)
  with c have s: "submit_code (\<lambda>_. []) (lit ''python3'') (imported_registry (lit ''python3'')) True [] 9 0
      demo_user demo_source empty_database = (Reply row, db', [payload])"
    using v(1) by (simp add: submit_code_def)
  obtain r frames cmds where r: "stream_and_collect (show_float (en_formatting demo_env)) (show_uuid 9) ([(demo_stream, [])], None) = (r, frames, cmds)"
    "tr_status r = JStr (lit ''COMPLETED'')" "tr_exit_code r = JInt 0" "tr_duration_ms r = JInt 3"
    "tr_stdout r = []" "tr_stderr r = []" by (rule demo_collected)
  have "en_stream demo_env (submitted_request demo_source) (dm_world (demo_worker\<lparr>dm_queue := [payload]\<rparr>)) =
      (([(demo_stream, [])], None), 1)" by (simp add: demo_env_def demo_worker_def)
  from submission_executed_and_recorded [OF v _ s _ _ this r(1,2) _ r(4), of "[]" "Some 0"]
  have "map sb_status (db_submissions (dm_db (daemon_turn demo_env (demo_worker\<lparr>dm_queue := [payload]\<rparr>)))) =
      [lit ''COMPLETED'']"
    using r(3,5,6) by (simp add: demo_worker_def demo_env_def str_or_def recorded_def new_submission_def lit_def)
  then show ?thesis using s by simp
qed

text \<open>Jobs are handled in the order they were pushed, each exactly once: when payloads are
  pushed to an empty queue, as many turns as there are payloads leave the queue empty and
  have handled them one after the other, first in, first out, whatever errors they raise.\<close>

lemma queue_is_fifo:
  assumes "dm_running d" and "dm_queue d = []"
  shows "(daemon_turn en ^^ length ps) (fold enqueue ps d) = fold (handle_payload en) ps d"
  unfolding daemon_turn_def by (rule payloads.fifo [OF assms])

lemma queue_is_fifo_witness:
  "(daemon_turn demo_env ^^ 2) (fold enqueue [lit ''{}'', lit ''1''] demo_worker) =
   fold (handle_payload demo_env) [lit ''{}'', lit ''1''] demo_worker"
  using queue_is_fifo [where d = demo_worker and en = demo_env and ps = "[lit ''{}'', lit ''1'']"]
  by (simp add: demo_worker_def numeral_2_eq_2)

text \<open>Whatever payloads arrive, the daemon writes nothing but outcomes: along every sequence
  of turns, arrivals and stops, no row is added, removed or reordered, and the owner, the
  source, the language and the input of every submission, the users, the problems and the
  rooms stay as they were; and after a stop nothing is written at all.\<close>

lemma daemon_writes_only_outcomes:
  assumes "(daemon_step en)\<^sup>*\<^sup>* d d'"
  shows "stored_core (dm_db d') = stored_core (dm_db d) \<and>
         (\<not> dm_running d \<longrightarrow> \<not> dm_running d' \<and> dm_db d' = dm_db d \<and> dm_world d' = dm_world d)"
  using assms
proof (induction rule: rtranclp_induct)
  case (step y z)
  then show ?case using daemon_step_core [OF step(2)] daemon_step_stopped [OF step(2)] by auto
qed simp

lemma daemon_writes_only_outcomes_witness:
  "dm_db (daemon_stop (enqueue (lit ''{}'') (demo_worker\<lparr>dm_running := False\<rparr>))) = dm_db demo_worker"
proof -
  have "(daemon_step demo_env)\<^sup>*\<^sup>* (demo_worker\<lparr>dm_running := False\<rparr>)
      (daemon_stop (enqueue (lit ''{}'') (demo_worker\<lparr>dm_running := False\<rparr>)))"
    by (rule rtranclp_trans [of _ _ "enqueue (lit ''{}'') (demo_worker\<lparr>dm_running := False\<rparr>)"])
      (rule r_into_rtranclp, rule arrive, rule r_into_rtranclp, rule stopped)
  from daemon_writes_only_outcomes [OF this] show ?thesis by simp
qed

end
