(* ===== verification/Rooms.thy ===== *)
theory Rooms
  imports "HOL-Library.Multiset" Accounts
begin

text \<open>
  Collaborative rooms: backend/app/services/room_service.py and the endpoints of
  api/v1/endpoints/rooms.py.  Joining is a query and an insertion with an \<open>await\<close> between
  them, so both halves are definitions of their own and \<open>join_room\<close> composes them.
\<close>

section \<open>The service\<close>

record room_create =
  rc_name :: pstr
  rc_language :: pstr
  rc_initial_code :: pstr
  rc_max_members :: int

definition room_create_valid :: "room_create \<Rightarrow> bool" where
  "room_create_valid r \<longleftrightarrow>
     3 \<le> length (rc_name r) \<and> length (rc_name r) \<le> 120 \<and>
     2 \<le> rc_max_members r \<and> rc_max_members r \<le> 50"

definition new_room :: "uuid \<Rightarrow> int \<Rightarrow> user_row \<Rightarrow> room_create \<Rightarrow> room_row" where
  "new_room new_id now owner room_in =
     \<lparr>ro_id = new_id, ro_name = rc_name room_in, ro_owner_id = us_id owner,
      ro_language = rc_language room_in, ro_current_code = rc_initial_code room_in,
      ro_is_active = True, ro_max_members = rc_max_members room_in, ro_created_at = now\<rparr>"

text \<open>\<open>fresh 0\<close> identifies the room, \<open>fresh 1\<close> its first member; each is a commit of its own.\<close>

definition create_room ::
  "(nat \<Rightarrow> uuid) \<Rightarrow> int \<Rightarrow> user_row \<Rightarrow> room_create \<Rightarrow> database \<Rightarrow> room_row \<times> database" where
  "create_room fresh now owner room_in db =
     (let room = new_room (fresh 0) now owner room_in;
          db1 = db\<lparr>db_rooms := db_rooms db @ [room]\<rparr>;
          member = \<lparr>mb_id = fresh 1, mb_room_id = ro_id room, mb_user_id = us_id owner,
                    mb_role = lit ''owner''\<rparr>
      in (room, db1\<lparr>db_members := db_members db1 @ [member]\<rparr>))"

definition get_room :: "database \<Rightarrow> uuid \<Rightarrow> room_row option reply" where
  "get_room db room_id = one_or_none (filter (\<lambda>r. ro_id r = room_id) (db_rooms db))"

definition list_rooms :: "database \<Rightarrow> int \<Rightarrow> int \<Rightarrow> room_row list \<times> nat" where
  "list_rooms db page page_size =
     (let rows = filter ro_is_active (db_rooms db)
      in (page_of page page_size (sort_key (\<lambda>r. - ro_created_at r) rows), length rows))"

definition update_room_code :: "uuid \<Rightarrow> pstr \<Rightarrow> database \<Rightarrow> room_row option reply \<times> database" where
  "update_room_code room_id new_code db =
     (case get_room db room_id of
        Reply (Some room) \<Rightarrow>
          (Reply (Some (room\<lparr>ro_current_code := new_code\<rparr>)),
           db\<lparr>db_rooms := map (\<lambda>r. if ro_id r = room_id then r\<lparr>ro_current_code := new_code\<rparr> else r) (db_rooms db)\<rparr>)
      | r \<Rightarrow> (r, db))"

definition find_member :: "database \<Rightarrow> uuid \<Rightarrow> user_row \<Rightarrow> member_row option reply" where
  "find_member db room_id user =
     one_or_none (filter (\<lambda>m. mb_room_id m = room_id \<and> mb_user_id m = us_id user) (db_members db))"

definition insert_member ::
  "uuid \<Rightarrow> uuid \<Rightarrow> user_row \<Rightarrow> pstr \<Rightarrow> database \<Rightarrow> member_row \<times> database" where
  "insert_member new_id room_id user role db =
     (let member = \<lparr>mb_id = new_id, mb_room_id = room_id, mb_user_id = us_id user, mb_role = role\<rparr>
      in (member, db\<lparr>db_members := db_members db @ [member]\<rparr>))"

definition join_room ::
  "uuid \<Rightarrow> uuid \<Rightarrow> user_row \<Rightarrow> pstr \<Rightarrow> database \<Rightarrow> member_row reply \<times> database" where
  "join_room new_id room_id user role db =
     (case find_member db room_id user of
        Reply (Some existing) \<Rightarrow> (Reply existing, db)
      | Reply None \<Rightarrow> map_prod Reply id (insert_member new_id room_id user role db)
      | _ \<Rightarrow> (Crash, db))"

section \<open>The endpoints\<close>

definition create_room_endpoint ::
  "(nat \<Rightarrow> uuid) \<Rightarrow> int \<Rightarrow> user_row \<Rightarrow> room_create \<Rightarrow> database \<Rightarrow> room_row reply \<times> database" where
  "create_room_endpoint fresh now current_user room_in db =
     (if room_create_valid room_in then map_prod Reply id (create_room fresh now current_user room_in db)
      else (Http_Error 422 [], db))"

definition list_rooms_endpoint :: "database \<Rightarrow> int \<Rightarrow> int \<Rightarrow> (room_row list \<times> nat) reply" where
  "list_rooms_endpoint db page page_size =
     (if 1 \<le> page \<and> 1 \<le> page_size \<and> page_size \<le> 50 then Reply (list_rooms db page page_size)
      else Http_Error 422 [])"

definition get_room_endpoint :: "uuid \<Rightarrow> database \<Rightarrow> room_row reply" where
  "get_room_endpoint room_id db =
     (case get_room db room_id of
        Reply (Some room) \<Rightarrow> Reply room
      | Reply None \<Rightarrow>
          Http_Error 404 (lit ''Collaborative room '' @ 39 # show_uuid room_id @ 39 # lit '' not found.'')
      | _ \<Rightarrow> Crash)"

definition join_room_endpoint ::
  "uuid \<Rightarrow> uuid \<Rightarrow> user_row \<Rightarrow> database \<Rightarrow> member_row reply \<times> database" where
  "join_room_endpoint new_id room_id current_user db =
     (case get_room db room_id of
        Reply (Some room) \<Rightarrow>
          if ro_is_active room then join_room new_id room_id current_user (lit ''editor'') db
          else (Http_Error 404 (lit ''Room not found or is currently closed.''), db)
      | Reply None \<Rightarrow> (Http_Error 404 (lit ''Room not found or is currently closed.''), db)
      | _ \<Rightarrow> (Crash, db))"

definition update_room_code_endpoint :: "uuid \<Rightarrow> pstr \<Rightarrow> database \<Rightarrow> room_row reply \<times> database" where
  "update_room_code_endpoint room_id current_code db =
     (case update_room_code room_id current_code db of
        (Reply (Some room), db1) \<Rightarrow> (Reply room, db1)
      | (Reply None, db1) \<Rightarrow> (Http_Error 404 (lit ''Room not found.''), db1)
      | (r, db1) \<Rightarrow> (Crash, db1))"

section \<open>Memberships\<close>

abbreviation member_key :: "member_row \<Rightarrow> uuid \<times> uuid" where
  "member_key m \<equiv> (mb_room_id m, mb_user_id m)"

text \<open>Rooms have one row each, members are unique and belong to rooms.\<close>

definition rooms_inv :: "database \<Rightarrow> bool" where
  "rooms_inv db \<longleftrightarrow>
     distinct (map ro_id (db_rooms db)) \<and> distinct (map member_key (db_members db)) \<and>
     list_all (\<lambda>m. mb_room_id m \<in> ro_id ` set (db_rooms db)) (db_members db)"

lemma find_member_key:
  "find_member db room_id user = one_or_none (filter (\<lambda>m. member_key m = (room_id, us_id user)) (db_members db))"
  by (simp add: find_member_def)

lemma get_room_found:
  "rooms_inv db \<Longrightarrow> room \<in> set (db_rooms db) \<Longrightarrow> get_room db (ro_id room) = Reply (Some room)"
  using filter_unique [of ro_id "db_rooms db" room] by (simp add: get_room_def rooms_inv_def)

lemma join_cases:
  assumes "rooms_inv db"
  obtains m where "find_member db room_id user = Reply (Some m)" "m \<in> set (db_members db)"
      "member_key m = (room_id, us_id user)" "join_room new_id room_id user role db = (Reply m, db)"
  | m where "find_member db room_id user = Reply None" "(room_id, us_id user) \<notin> member_key ` set (db_members db)"
      "m = \<lparr>mb_id = new_id, mb_room_id = room_id, mb_user_id = us_id user, mb_role = role\<rparr>"
      "join_room new_id room_id user role db = (Reply m, db\<lparr>db_members := db_members db @ [m]\<rparr>)"
proof -
  have "distinct (map member_key (db_members db))" using assms by (simp add: rooms_inv_def)
  from filter_at_most_one [OF this, of "(room_id, us_id user)"] show ?thesis
  proof
    assume e: "filter (\<lambda>m. member_key m = (room_id, us_id user)) (db_members db) = []"
    then have "find_member db room_id user = Reply None" by (simp add: find_member_def)
    moreover have "(room_id, us_id user) \<notin> member_key ` set (db_members db)"
      using e by (auto simp: filter_empty_conv)
    ultimately show ?thesis using that(2) by (simp add: join_room_def insert_member_def Let_def)
  next
    assume "\<exists>m \<in> set (db_members db). filter (\<lambda>m. member_key m = (room_id, us_id user)) (db_members db) = [m] \<and>
      member_key m = (room_id, us_id user)"
    then obtain m where "m \<in> set (db_members db)" "filter (\<lambda>m. member_key m = (room_id, us_id user)) (db_members db) = [m]"
      "member_key m = (room_id, us_id user)" by blast
    then show ?thesis using that(1) [of m] by (simp add: join_room_def find_member_def)
  qed
qed

lemma join_inv:
  assumes "rooms_inv db" "room_id \<in> ro_id ` set (db_rooms db)"
    and "join_room new_id room_id user role db = (r, db')"
  shows "rooms_inv db'"
  using join_cases [OF assms(1), of room_id user new_id role]
proof cases
  case (1 m)
  then show ?thesis using assms by simp
next
  case (2 m)
  then show ?thesis using assms by (auto simp: rooms_inv_def)
qed

text \<open>Several users join one after the other.\<close>

fun join_all :: "(nat \<Rightarrow> uuid) \<Rightarrow> uuid \<Rightarrow> user_row list \<Rightarrow> database \<Rightarrow> database" where
  "join_all fresh room_id [] db = db"
| "join_all fresh room_id (u # us) db =
     join_all (\<lambda>i. fresh (i + 1)) room_id us (snd (join_room_endpoint (fresh 0) room_id u db))"

definition room_members :: "database \<Rightarrow> uuid \<Rightarrow> uuid list" where
  "room_members db room_id = map mb_user_id (filter (\<lambda>m. mb_room_id m = room_id) (db_members db))"

lemma room_members_key: "us \<in> set (room_members db room_id) \<longleftrightarrow> (room_id, us) \<in> member_key ` set (db_members db)"
  by (auto simp: room_members_def)

lemma join_endpoint_open:
  assumes "rooms_inv db" "room \<in> set (db_rooms db)" "ro_is_active room"
  shows "join_room_endpoint new_id (ro_id room) u db = join_room new_id (ro_id room) u (lit ''editor'') db"
  using get_room_found [OF assms(1,2)] assms(3) by (simp add: join_room_endpoint_def)

lemma join_effect:
  assumes "rooms_inv db" "room \<in> set (db_rooms db)" "ro_is_active room"
    and "join_room_endpoint new_id (ro_id room) u db = (r, db')"
  shows "rooms_inv db'" "db_rooms db' = db_rooms db"
    "room_members db' (ro_id room) =
       (if us_id u \<in> set (room_members db (ro_id room)) then room_members db (ro_id room)
        else room_members db (ro_id room) @ [us_id u])"
    "\<exists>m. r = Reply m \<and> m \<in> set (db_members db') \<and> member_key m = (ro_id room, us_id u)"
proof -
  have j: "join_room new_id (ro_id room) u (lit ''editor'') db = (r, db')"
    using assms(4) join_endpoint_open [OF assms(1-3)] by simp
  show "rooms_inv db'" by (rule join_inv [OF assms(1) _ j]) (use assms(2) in simp)
  show "db_rooms db' = db_rooms db"
    by (rule join_cases [OF assms(1), of "ro_id room" u new_id "lit ''editor''"]) (use j in auto)
  show "room_members db' (ro_id room) =
      (if us_id u \<in> set (room_members db (ro_id room)) then room_members db (ro_id room)
       else room_members db (ro_id room) @ [us_id u])"
    unfolding room_members_key
    by (rule join_cases [OF assms(1), of "ro_id room" u new_id "lit ''editor''"])
      (use j in \<open>force simp: room_members_def\<close>)+
  show "\<exists>m. r = Reply m \<and> m \<in> set (db_members db') \<and> member_key m = (ro_id room, us_id u)"
    by (rule join_cases [OF assms(1), of "ro_id room" u new_id "lit ''editor''"]) (use j in auto)
qed

section \<open>Properties\<close>

text \<open>C38. Memberships are unique, and capacity is not enforced: when users join an active room
  one after the other, each is answered with a membership of theirs, nobody is enrolled
  twice, and all of them end up members, whatever \<open>max_members\<close> says.\<close>

theorem joins_enrol_everyone:
  assumes "rooms_inv db" and "room \<in> set (db_rooms db)" and "ro_is_active room"
  shows "rooms_inv (join_all fresh (ro_id room) us db) \<and>
         set (room_members (join_all fresh (ro_id room) us db) (ro_id room)) =
           set (room_members db (ro_id room)) \<union> us_id ` set us \<and>
         distinct (room_members (join_all fresh (ro_id room) us db) (ro_id room)) \<and>
         (\<forall>u. u \<in> set us \<longrightarrow> (\<exists>m. join_room_endpoint i (ro_id room) u (join_all fresh (ro_id room) us db) =
            (Reply m, join_all fresh (ro_id room) us db) \<and> member_key m = (ro_id room, us_id u)))"
proof -
  have all: "rooms_inv (join_all fresh (ro_id room) us db) \<and> db_rooms (join_all fresh (ro_id room) us db) = db_rooms db \<and>
      set (room_members (join_all fresh (ro_id room) us db) (ro_id room)) =
        set (room_members db (ro_id room)) \<union> us_id ` set us"
    if "rooms_inv db" "room \<in> set (db_rooms db)" for fresh db
    using that
  proof (induction us arbitrary: fresh db)
    case (Cons u us)
    obtain r db1 where j: "join_room_endpoint (fresh 0) (ro_id room) u db = (r, db1)" by fastforce
    note e = join_effect [OF Cons.prems assms(3) j]
    have "room \<in> set (db_rooms db1)" using e(2) Cons.prems(2) by simp
    from Cons.IH [OF e(1) this, of "\<lambda>i. fresh (i + 1)"] show ?case using e(2,3) j by auto
  qed simp
  let ?db = "join_all fresh (ro_id room) us db"
  have inv: "rooms_inv ?db" "room \<in> set (db_rooms ?db)"
    and mem: "set (room_members ?db (ro_id room)) = set (room_members db (ro_id room)) \<union> us_id ` set us"
    using all [OF assms(1,2), of fresh] assms(2) by simp_all
  have "distinct (map member_key (filter (\<lambda>m. mb_room_id m = ro_id room) (db_members ?db)))"
    using inv(1) by (simp add: rooms_inv_def distinct_map_filter)
  then have "distinct (room_members ?db (ro_id room))"
    unfolding room_members_def distinct_map by (auto simp: inj_on_def)
  moreover have "\<exists>m. join_room_endpoint i (ro_id room) u ?db = (Reply m, ?db) \<and> member_key m = (ro_id room, us_id u)"
    if "u \<in> set us" for u
  proof -
    have "(ro_id room, us_id u) \<in> member_key ` set (db_members ?db)"
      using that mem by (auto simp flip: room_members_key)
    then show ?thesis
      unfolding join_endpoint_open [OF inv assms(3)]
      by (rule_tac join_cases [OF inv(1), of "ro_id room" u i "lit ''editor''"]) auto
  qed
  ultimately show ?thesis using inv mem by blast
qed

definition demo_room :: room_row where
  "demo_room =
     \<lparr>ro_id = 1, ro_name = lit ''abc'', ro_owner_id = 7, ro_language = lit ''python'',
      ro_current_code = [], ro_is_active = True, ro_max_members = 2, ro_created_at = 0\<rparr>"

definition demo_person :: "uuid \<Rightarrow> user_row" where
  "demo_person i =
     \<lparr>us_id = i, us_username = [], us_email = [], us_hashed_password = [], us_role = lit ''student'',
      us_is_active = True\<rparr>"

lemma demo_room_inv: "rooms_inv (empty_database\<lparr>db_rooms := [demo_room]\<rparr>)"
  by (simp add: rooms_inv_def empty_database_def)

theorem joins_enrol_everyone_witness:
  "set (room_members (join_all id 1 (map demo_person [7, 8, 9]) (empty_database\<lparr>db_rooms := [demo_room]\<rparr>)) 1) = {7, 8, 9} \<and>
   ro_max_members demo_room = 2"
proof -
  have "demo_room \<in> set (db_rooms (empty_database\<lparr>db_rooms := [demo_room]\<rparr>))" "ro_is_active demo_room"
    by (simp_all add: demo_room_def)
  from joins_enrol_everyone [OF demo_room_inv this, of id "map demo_person [7, 8, 9]"] show ?thesis
    by (simp add: demo_room_def demo_person_def room_members_def empty_database_def)
qed

text \<open>Two concurrent joins of one user lock the user out.  When both requests look for a
  membership before either has stored one, both insert, and from then on every join of that
  user fails with an internal error.\<close>

lemma concurrent_joins_lock_out:
  assumes "rooms_inv db" and "room \<in> set (db_rooms db)" and "ro_is_active room"
    and "find_member db (ro_id room) u = Reply None"
    and "insert_member i (ro_id room) u role db = (m1, db1)"
    and "insert_member j (ro_id room) u role db1 = (m2, db2)"
  shows "join_room_endpoint k (ro_id room) u db2 = (Crash, db2) \<and> \<not> rooms_inv db2"
proof -
  have none: "filter (\<lambda>m. mb_room_id m = ro_id room \<and> mb_user_id m = us_id u) (db_members db) = []"
    using assms(4) by (auto simp: find_member_def one_or_none_def split: list.splits)
  have db2: "db2 = db\<lparr>db_members := db_members db @ [m1, m2]\<rparr>"
    and key: "member_key m1 = (ro_id room, us_id u)" "member_key m2 = (ro_id room, us_id u)"
    using assms(5,6) by (auto simp: insert_member_def Let_def)
  have "find_member db2 (ro_id room) u = Crash"
    using none key by (simp add: find_member_def db2 one_or_none_def)
  moreover have "get_room db2 (ro_id room) = Reply (Some room)"
    using get_room_found [OF assms(1,2)] by (simp add: db2 get_room_def)
  ultimately show ?thesis
    using assms(3) key by (auto simp: join_room_endpoint_def join_room_def rooms_inv_def db2)
qed

lemma concurrent_joins_lock_out_witness:
  "\<exists>m1 db1 m2 db2. insert_member 2 1 (demo_person 8) (lit ''editor'') (empty_database\<lparr>db_rooms := [demo_room]\<rparr>) = (m1, db1) \<and>
     insert_member 3 1 (demo_person 8) (lit ''editor'') db1 = (m2, db2) \<and>
     join_room_endpoint 4 1 (demo_person 8) db2 = (Crash, db2)"
proof -
  let ?db = "empty_database\<lparr>db_rooms := [demo_room]\<rparr>"
  have r: "demo_room \<in> set (db_rooms ?db)" "ro_is_active demo_room" "ro_id demo_room = 1"
    by (simp_all add: demo_room_def)
  have n: "find_member ?db (ro_id demo_room) (demo_person 8) = Reply None"
    by (simp add: find_member_def empty_database_def)
  obtain m1 db1 where 1: "insert_member 2 (ro_id demo_room) (demo_person 8) (lit ''editor'') ?db = (m1, db1)" by fastforce
  obtain m2 db2 where 2: "insert_member 3 (ro_id demo_room) (demo_person 8) (lit ''editor'') db1 = (m2, db2)" by fastforce
  show ?thesis
    using concurrent_joins_lock_out [OF demo_room_inv r(1,2) n 1 2, of 4] 1 2 unfolding r(3) by blast
qed

end
