(* ===== verification/Backend_System.thy ===== *)
theory Backend_System
  imports "HOL-Library.Sublist" Problem_Claims Daemon_Claims Rooms Rate_Limiter
begin

text \<open>
  The parts of the backend put together: the requests that write to the database, each with
  its dependencies in the order FastAPI resolves them (the rate limiter of the route, then
  the account of the token, then the bounds of the body, then the endpoint), and the worker
  daemon that shares the database and the queue with them.  A site is what the processes are
  configured with; the system is the daemon's state and the limiter's store.  The step
  relation labels each step with its event, and a run is a list of events.
\<close>

section \<open>Requests\<close>

record ('w, 'r) site =
  si_jwt :: jwt
  si_bcrypt :: bcrypt
  si_is_email :: "pstr \<Rightarrow> bool"
  si_python_exe :: pstr
  si_registry :: registry
  si_show_float :: "pyfloat \<Rightarrow> pstr"
  si_zset :: "'r zset_store"
  si_worker :: "'w environment"

text \<open>
  What comes with a request: the token, two clock readings (the library's in microseconds,
  the limiter's in seconds), the client's address, and what \<open>uuid4\<close> and \<open>gensalt\<close> draw.
\<close>

record call =
  ca_token :: pstr
  ca_now :: int
  ca_clock :: rat
  ca_host :: "pstr option"
  ca_fresh :: "nat \<Rightarrow> uuid"
  ca_member :: pstr
  ca_salt :: pstr
  ca_trace :: "(pstr \<times> pstr) list"

datatype request =
    Register user_create
  | Submit_Code submission_create bool
  | List_Problems "pstr option" int int
  | Get_Problem pstr
  | Create_Problem problem_create
  | Submit_Problem pstr grading_submission_create
  | Create_Room room_create
  | Join_Room uuid
  | Update_Room uuid pstr

record ('w, 'r) system =
  sy_worker :: "'w daemon"
  sy_limits :: 'r

text \<open>The status line of a reply, and the effect of a request that only touches the database.\<close>

fun status_code :: "nat \<Rightarrow> 'a reply \<Rightarrow> nat" where
  "status_code success (Reply x) = success"
| "status_code success (Http_Error code m) = code"
| "status_code success Crash = 500"

definition on_db :: "nat \<Rightarrow> (database \<Rightarrow> 'a reply \<times> database) \<Rightarrow> 'w daemon \<Rightarrow> nat \<times> 'w daemon" where
  "on_db success endpoint d =
     (case endpoint (dm_db d) of (r, db) \<Rightarrow> (status_code success r, d\<lparr>dm_db := db\<rparr>))"

text \<open>\<open>Depends(get_current_user)\<close> and \<open>Depends(get_current_admin_user)\<close>.\<close>

definition as_user ::
  "('w, 'r) site \<Rightarrow> call \<Rightarrow> (user_row \<Rightarrow> 'w daemon \<Rightarrow> nat \<times> 'w daemon) \<Rightarrow> 'w daemon \<Rightarrow> nat \<times> 'w daemon" where
  "as_user st ca endpoint d =
     (case get_current_user (si_jwt st) (ca_now ca) (ca_token ca) (dm_db d) of
        Reply u \<Rightarrow> endpoint u d
      | r \<Rightarrow> (status_code 200 r, d))"

definition as_admin ::
  "('w, 'r) site \<Rightarrow> call \<Rightarrow> (user_row \<Rightarrow> 'w daemon \<Rightarrow> nat \<times> 'w daemon) \<Rightarrow> 'w daemon \<Rightarrow> nat \<times> 'w daemon" where
  "as_admin st ca endpoint d =
     (case get_current_admin_user (si_jwt st) (ca_now ca) (ca_token ca) (dm_db d) of
        Reply u \<Rightarrow> endpoint u d
      | r \<Rightarrow> (status_code 200 r, d))"

text \<open>The endpoints that write, behind their dependencies.\<close>

definition serve_registration :: "('w, 'r) site \<Rightarrow> call \<Rightarrow> user_create \<Rightarrow> 'w daemon \<Rightarrow> nat \<times> 'w daemon" where
  "serve_registration st ca uc d =
     (if \<not> user_create_valid (si_is_email st) uc then (422, d)
      else on_db 201 (register_user (si_bcrypt st) (ca_salt ca) (ca_fresh ca 0) uc) d)"

definition serve_submission ::
  "('w, 'r) site \<Rightarrow> call \<Rightarrow> submission_create \<Rightarrow> bool \<Rightarrow> 'w daemon \<Rightarrow> nat \<times> 'w daemon" where
  "serve_submission st ca sub_in queue_up =
     as_user st ca (\<lambda>u d.
       case submit_code (si_show_float st) (si_python_exe st) (si_registry st) queue_up (ca_trace ca)
              (ca_fresh ca 0) (ca_now ca) u sub_in (dm_db d) of
         (r, db, payloads) \<Rightarrow> (status_code 202 r, fold enqueue payloads (d\<lparr>dm_db := db\<rparr>)))"

definition serve_grading ::
  "('w, 'r) site \<Rightarrow> call \<Rightarrow> pstr \<Rightarrow> grading_submission_create \<Rightarrow> 'w daemon \<Rightarrow> nat \<times> 'w daemon" where
  "serve_grading st ca identifier g =
     as_user st ca (\<lambda>u d.
       case submit_for_grading (en_formatting (si_worker st)) (en_driver (si_worker st)) (ca_fresh ca)
              (ca_now ca) identifier g u (dm_db d) (dm_world d) of
         (r, db, w) \<Rightarrow> (status_code 200 r, d\<lparr>dm_db := db, dm_world := w\<rparr>))"

fun handle_request :: "('w, 'r) site \<Rightarrow> call \<Rightarrow> request \<Rightarrow> 'w daemon \<Rightarrow> nat \<times> 'w daemon" where
  "handle_request st ca (Register uc) = serve_registration st ca uc"
| "handle_request st ca (Submit_Code sub_in queue_up) = serve_submission st ca sub_in queue_up"
| "handle_request st ca (List_Problems difficulty skip limit) =
     as_user st ca (\<lambda>u. on_db 200 (list_problems_endpoint (ca_fresh ca) (ca_now ca) difficulty skip limit))"
| "handle_request st ca (Get_Problem identifier) =
     as_user st ca (\<lambda>u. on_db 200 (get_problem (ca_fresh ca) (ca_now ca) identifier u))"
| "handle_request st ca (Create_Problem problem_in) =
     as_admin st ca (\<lambda>u. on_db 201 (create_problem_endpoint (ca_fresh ca) (ca_now ca) problem_in))"
| "handle_request st ca (Submit_Problem identifier g) = serve_grading st ca identifier g"
| "handle_request st ca (Create_Room room_in) =
     as_user st ca (\<lambda>u. on_db 201 (create_room_endpoint (ca_fresh ca) (ca_now ca) u room_in))"
| "handle_request st ca (Join_Room room_id) =
     as_user st ca (\<lambda>u. on_db 200 (join_room_endpoint (ca_fresh ca 0) room_id u))"
| "handle_request st ca (Update_Room room_id code) =
     as_user st ca (\<lambda>u. on_db 200 (update_room_code_endpoint room_id code))"

text \<open>Only the submission endpoint is limited; a limiter that fails lets the request through.\<close>

fun limited :: "request \<Rightarrow> bool" where
  "limited (Submit_Code sub_in queue_up) = True"
| "limited _ = False"

definition serve :: "('w, 'r) site \<Rightarrow> call \<Rightarrow> request \<Rightarrow> ('w, 'r) system \<Rightarrow> nat \<times> ('w, 'r) system" where
  "serve st ca rq sy =
     (case (if limited rq
            then rate_limit (si_zset st) default_limiter (limit_key default_limiter (ca_host ca) None)
                   (ca_member ca) (ca_clock ca) (sy_limits sy)
            else (Admitted, sy_limits sy)) of
        (Rejected m, lim') \<Rightarrow> (429, sy\<lparr>sy_limits := lim'\<rparr>)
      | (_, lim') \<Rightarrow>
          (case handle_request st ca rq (sy_worker sy) of
             (code, d) \<Rightarrow> (code, \<lparr>sy_worker = d, sy_limits = lim'\<rparr>)))"

section \<open>Steps and runs\<close>

datatype event = Request call request | Turn | Stop

text \<open>What the libraries promise of the values a request brings: identifiers are 128 bits, drawn
  once, and unused; the texts of a body and of the tracing headers are Unicode.\<close>

definition used_ids :: "database \<Rightarrow> uuid set" where
  "used_ids db =
     us_id ` set (db_users db) \<union> sb_id ` set (db_submissions db) \<union> pr_id ` set (db_problems db) \<union>
     ro_id ` set (db_rooms db)"

definition draws_fresh :: "(nat \<Rightarrow> uuid) \<Rightarrow> database \<Rightarrow> bool" where
  "draws_fresh fresh db \<longleftrightarrow>
     distinct (map fresh [0..<20]) \<and> (\<forall>i \<in> set [0..<20]. fresh i < 2 ^ 128 \<and> fresh i \<notin> used_ids db)"

fun body_text :: "request \<Rightarrow> bool" where
  "body_text (Submit_Code sub_in queue_up) = submitted_text sub_in"
| "body_text _ = True"

inductive site_step ::
  "('w, 'r) site \<Rightarrow> ('w, 'r) system \<Rightarrow> event \<Rightarrow> ('w, 'r) system \<Rightarrow> bool" for st where
  request: "draws_fresh (ca_fresh ca) (dm_db (sy_worker sy)) \<Longrightarrow> headers_ok (ca_trace ca) \<Longrightarrow> body_text rq \<Longrightarrow>
    site_step st sy (Request ca rq) (snd (serve st ca rq sy))"
| turn: "site_step st sy Turn (sy\<lparr>sy_worker := daemon_turn (si_worker st) (sy_worker sy)\<rparr>)"
| stop: "site_step st sy Stop (sy\<lparr>sy_worker := daemon_stop (sy_worker sy)\<rparr>)"

inductive site_run ::
  "('w, 'r) site \<Rightarrow> ('w, 'r) system \<Rightarrow> event list \<Rightarrow> ('w, 'r) system \<Rightarrow> bool" for st where
  run_none: "site_run st sy [] sy"
| run_step: "site_step st sy e sy' \<Longrightarrow> site_run st sy' es sy'' \<Longrightarrow> site_run st sy (e # es) sy''"

inductive_cases site_stepE: "site_step st sy e sy'"
inductive_cases site_runE: "site_run st sy es sy'"
inductive_simps site_run_Nil [simp]: "site_run st sy [] sy'"
inductive_simps site_run_Cons [simp]: "site_run st sy (e # es) sy'"

text \<open>A system that has just been installed: the migrated database is empty.\<close>

definition fresh_system :: "('w, 'r) system \<Rightarrow> bool" where
  "fresh_system sy \<longleftrightarrow> dm_db (sy_worker sy) = empty_database \<and> dm_queue (sy_worker sy) = []"

definition reachable :: "('w, 'r) site \<Rightarrow> ('w, 'r) system \<Rightarrow> bool" where
  "reachable st sy \<longleftrightarrow> (\<exists>sy0 es. fresh_system sy0 \<and> site_run st sy0 es sy)"

end
