(* ===== verification/Backend_Invariant.thy ===== *)
theory Backend_Invariant
  imports Backend_System
begin

text \<open>
  What holds in every state the backend can reach: the tables refer to each other correctly,
  every job on the queue belongs to a stored submission, what has been stored stays, and an
  accepted submission is worked off whatever else happens.  Each request is shown once to
  append rows and keep the invariant; the runs follow by rule induction.
\<close>

section \<open>The invariant\<close>

definition refs_ok :: "database \<Rightarrow> bool" where
  "refs_ok db \<longleftrightarrow>
     list_all (\<lambda>s. sb_user_id s \<in> us_id ` set (db_users db) \<and>
       pred_option (\<lambda>p. p \<in> pr_id ` set (db_problems db)) (sb_problem_id s)) (db_submissions db) \<and>
     list_all (\<lambda>r. ro_owner_id r \<in> us_id ` set (db_users db)) (db_rooms db) \<and>
     list_all (\<lambda>m. mb_user_id m \<in> us_id ` set (db_users db)) (db_members db)"

definition db_inv :: "database \<Rightarrow> bool" where
  "db_inv db \<longleftrightarrow>
     accounts_inv (db_users db) \<and> problems_inv (db_problems db) \<and> rooms_inv db \<and>
     distinct (map sb_id (db_submissions db)) \<and> refs_ok db"

text \<open>A payload is the job of a row that no problem grades: the worker reads it as a valid request
  for that program.\<close>

definition carries :: "pstr \<Rightarrow> submission_row \<Rightarrow> bool" where
  "carries payload s \<longleftrightarrow>
     sb_problem_id s = None \<and>
     (case loads payload of
        Some (JObj t) \<Rightarrow>
          dict_get (lit ''submission_id'') JNull t = JStr (show_uuid (sb_id s)) \<and> sb_id s < 2 ^ 128 \<and>
          map_of t (lit ''action'') = None \<and> map_of t (lit ''test_cases'') = None \<and>
          (case task_request t of
             Some rq \<Rightarrow>
               build_request rq = Inr rq \<and> rq_source_code rq = sb_source_code s \<and>
               rq_language rq = sb_language s \<and> rq_stdin_data rq = sb_stdin_data s
           | None \<Rightarrow> False)
      | _ \<Rightarrow> False)"

definition queue_ok :: "'w daemon \<Rightarrow> bool" where
  "queue_ok d \<longleftrightarrow> list_all (\<lambda>p. list_ex (carries p) (db_submissions (dm_db d))) (dm_queue d)"

definition backend_inv :: "'w daemon \<Rightarrow> bool" where
  "backend_inv d \<longleftrightarrow> db_inv (dm_db d) \<and> queue_ok d"

section \<open>Appending\<close>

text \<open>Every table keeps its rows and may get new ones; a room keeps its identifier and owner.\<close>

abbreviation room_part :: "room_row \<Rightarrow> uuid \<times> uuid" where
  "room_part r \<equiv> (ro_id r, ro_owner_id r)"

lemma room_parts_text [simp]:
  "map room_part (map (\<lambda>r. if ro_id r = i then r\<lparr>ro_current_code := code\<rparr> else r) rs) = map room_part rs"
  by simp

definition appends :: "database \<Rightarrow> database \<Rightarrow> bool" where
  "appends db db' \<longleftrightarrow>
     prefix (db_users db) (db_users db') \<and> prefix (db_submissions db) (db_submissions db') \<and>
     prefix (db_problems db) (db_problems db') \<and> prefix (db_members db) (db_members db') \<and>
     prefix (map room_part (db_rooms db)) (map room_part (db_rooms db'))"

lemma appends_refl [simp]: "appends db db"
  by (simp add: appends_def)

lemma appends_trans: "appends db db1 \<Longrightarrow> appends db1 db2 \<Longrightarrow> appends db db2"
  by (meson appends_def prefix_order.trans)

definition advances :: "database \<Rightarrow> database \<Rightarrow> bool" where
  "advances db db' \<longleftrightarrow> appends db db' \<and> db_inv db'"

lemma advances_refl [simp]: "advances db db \<longleftrightarrow> db_inv db"
  by (simp add: advances_def)

lemma advances_trans: "advances db db1 \<Longrightarrow> advances db1 db2 \<Longrightarrow> advances db db2"
  unfolding advances_def using appends_trans by blast

text \<open>More users and more problems break no reference, and only two tables matter to the rooms.\<close>

lemma refs_ok_more:
  assumes "refs_ok db"
  shows "refs_ok (db\<lparr>db_users := db_users db @ us\<rparr>)" "refs_ok (db\<lparr>db_problems := db_problems db @ ps\<rparr>)"
proof -
  have "pred_option (\<lambda>p. p \<in> A) x \<Longrightarrow> pred_option (\<lambda>p. p \<in> A \<union> B) x" for A B and x :: "uuid option"
    by (cases x) simp_all
  then show "refs_ok (db\<lparr>db_users := db_users db @ us\<rparr>)" "refs_ok (db\<lparr>db_problems := db_problems db @ ps\<rparr>)"
    using assms by (simp_all add: refs_ok_def list_all_iff image_Un)
qed

lemma rooms_inv_update [simp]:
  "rooms_inv (db\<lparr>db_submissions := ss\<rparr>) = rooms_inv db"
  "rooms_inv (db\<lparr>db_problems := ps\<rparr>) = rooms_inv db"
  "rooms_inv (db\<lparr>db_users := us\<rparr>) = rooms_inv db"
  by (simp_all add: rooms_inv_def)

lemma advance_users:
  "db_inv db \<Longrightarrow> accounts_inv (db_users db @ us) \<Longrightarrow> advances db (db\<lparr>db_users := db_users db @ us\<rparr>)"
  by (simp add: advances_def appends_def db_inv_def refs_ok_more)

lemma advance_problems:
  "db_inv db \<Longrightarrow> problems_inv (db_problems db @ ps) \<Longrightarrow> advances db (db\<lparr>db_problems := db_problems db @ ps\<rparr>)"
  by (simp add: advances_def appends_def db_inv_def refs_ok_more)

section \<open>What each endpoint does to the tables\<close>

lemma advance_register:
  assumes "db_inv db" "user_create_valid is_email uc" "email_ok is_email"
  shows "advances db (snd (register_user bc salt i uc db))"
proof (cases "register_user bc salt i uc db")
  case (Pair r db')
  then have "accounts_inv (db_users db')"
    using register_inv [OF Pair _ assms(2,3)] assms(1) by (simp add: db_inv_def)
  moreover from Pair have "\<exists>us. db' = db\<lparr>db_users := db_users db @ us\<rparr>"
  proof (cases rule: register_cases)
    case 1
    then show ?thesis by (intro exI [of _ "[]"]) simp
  qed blast
  ultimately show ?thesis
    using advance_users [OF assms(1)] Pair by auto
qed

lemma seeds_valid:
  "problem_row_valid (two_sum fresh now)" "problem_row_valid (palindrome fresh now)"
  "problem_row_valid (fib_problem fresh now)"
  by (simp_all add: problem_row_valid_def problem_base_valid_def difficulties_def two_sum_def
      palindrome_def fib_problem_def text_lines_def)

lemma advance_seed:
  assumes "db_inv db" "distinct [fresh 0, fresh 5, fresh 9]"
  shows "advances db (seed_default_problems_if_empty fresh now db)"
proof (cases "db_problems db = []")
  case True
  have "map pr_id [two_sum fresh now, palindrome fresh now, fib_problem fresh now] = [fresh 0, fresh 5, fresh 9]"
    by (simp add: two_sum_def palindrome_def fib_problem_def)
  moreover have "distinct (map pr_slug [two_sum fresh now, palindrome fresh now, fib_problem fresh now])"
    by (simp add: two_sum_def palindrome_def fib_problem_def)
  ultimately have p: "problems_inv [two_sum fresh now, palindrome fresh now, fib_problem fresh now]"
    unfolding problems_inv_def using assms(2) seeds_valid by simp
  then show ?thesis
    using advance_problems [OF assms(1), of "[two_sum fresh now, palindrome fresh now, fib_problem fresh now]"] True
    by (simp add: seed_default_problems_if_empty_def)
qed (use assms in simp)

lemma advance_list:
  assumes "db_inv db" "distinct [fresh 0, fresh 5, fresh 9]"
  shows "advances db (snd (list_problems_endpoint fresh now difficulty skip limit db))"
    and "advances db (snd (get_problem fresh now identifier u db))"
  using advance_seed [OF assms] assms(1) by (simp_all add: list_problems_endpoint_def get_problem_def Let_def)

lemma advance_create_problem:
  assumes "db_inv db"
  shows "advances db (snd (create_problem_endpoint fresh now problem_in db))"
proof -
  have "advances db (snd (create_problem fresh now problem_in db))" if v: "problem_create_valid problem_in"
  proof (cases "create_problem fresh now problem_in db")
    case (Pair r db')
    show ?thesis
    proof (cases "db' = db")
      case False
      then obtain p where r: "r = Reply p"
        using Pair by (auto simp: create_problem_def Let_def split: if_splits)
      have "problems_inv (db_problems db')"
        using create_problem_inv(1) [OF Pair [unfolded r] _ v] assms by (simp add: db_inv_def)
      moreover have "db' = db\<lparr>db_problems := db_problems db @ [p]\<rparr>"
        using Pair r by (auto simp: create_problem_def Let_def split: if_splits)
      ultimately show ?thesis
        using advance_problems [OF assms] Pair by auto
    qed (use assms Pair in simp)
  qed
  moreover have "snd (create_problem_endpoint fresh now problem_in db) \<in> {db, snd (create_problem fresh now problem_in db)}"
    by (auto simp: create_problem_endpoint_def split: if_split reply.split option.split prod.split)
  ultimately show ?thesis
    using assms by (cases "problem_create_valid problem_in") (auto simp: create_problem_endpoint_def)
qed

lemma advance_create_room:
  assumes "db_inv db" "u \<in> set (db_users db)" "fresh 0 \<notin> ro_id ` set (db_rooms db)"
  shows "advances db (snd (create_room_endpoint fresh now u room_in db))"
proof (cases "room_create_valid room_in")
  case True
  have "(fresh 0, us_id u) \<notin> member_key ` set (db_members db)"
    using assms(1,3) by (auto simp: db_inv_def rooms_inv_def list_all_iff)
  moreover have "list_all (\<lambda>m. mb_room_id m = i \<or> mb_room_id m \<in> ro_id ` set (db_rooms db)) (db_members db)" for i
    using assms(1) by (simp add: db_inv_def rooms_inv_def list_all_iff)
  ultimately show ?thesis
    using assms True
    by (simp add: advances_def appends_def create_room_endpoint_def create_room_def new_room_def
        db_inv_def refs_ok_def rooms_inv_def Let_def)
qed (use assms in \<open>simp add: create_room_endpoint_def\<close>)

lemma advance_join:
  assumes "db_inv db" "u \<in> set (db_users db)"
  shows "advances db (snd (join_room_endpoint i room_id u db))"
proof (cases "\<exists>room. get_room db room_id = Reply (Some room) \<and> ro_is_active room")
  case True
  have inv: "rooms_inv db" using assms(1) by (simp add: db_inv_def)
  obtain room where g: "get_room db room_id = Reply (Some room)" "ro_is_active room" using True by blast
  then have "filter (\<lambda>r. ro_id r = room_id) (db_rooms db) = [room]" by (simp add: get_room_def one_or_none_Some)
  then have "room \<in> set (filter (\<lambda>r. ro_id r = room_id) (db_rooms db))" by simp
  then have room: "room_id \<in> ro_id ` set (db_rooms db)" by auto
  have e: "join_room_endpoint i room_id u db = join_room i room_id u (lit ''editor'') db"
    using g by (simp add: join_room_endpoint_def)
  have i: "rooms_inv (snd (join_room i room_id u (lit ''editor'') db))"
    by (rule join_inv [OF inv room, of i u "lit ''editor''" "fst (join_room i room_id u (lit ''editor'') db)"]) simp
  from join_cases [OF inv, of room_id u i "lit ''editor''"] show ?thesis
  proof cases
    case (1 m)
    then show ?thesis using assms(1) by (simp add: e)
  next
    case (2 m)
    then show ?thesis
      using i assms by (simp add: e advances_def appends_def db_inv_def refs_ok_def)
  qed
next
  case False
  then have "snd (join_room_endpoint i room_id u db) = db"
    by (auto simp: join_room_endpoint_def split: reply.split option.split)
  then show ?thesis using assms(1) by simp
qed

lemma advance_update_room:
  assumes "db_inv db"
  shows "advances db (snd (update_room_code_endpoint room_id code db))"
proof -
  let ?rs = "map (\<lambda>r. if ro_id r = room_id then r\<lparr>ro_current_code := code\<rparr> else r) (db_rooms db)"
  have part: "map room_part ?rs = map room_part (db_rooms db)" by simp
  then have ids: "map ro_id ?rs = map ro_id (db_rooms db)" by simp
  then have s: "ro_id ` set ?rs = ro_id ` set (db_rooms db)" by (metis list.set_map)
  have own: "list_all (\<lambda>r. ro_owner_id r \<in> A) ?rs = list_all (\<lambda>r. ro_owner_id r \<in> A) (db_rooms db)" for A
    unfolding list.pred_map comp_def by (intro list.pred_cong) simp_all
  have "advances db (db\<lparr>db_rooms := ?rs\<rparr>)"
    using assms ids s own part by (simp add: advances_def appends_def db_inv_def refs_ok_def rooms_inv_def del: map_map)
  moreover have "snd (update_room_code_endpoint room_id code db) \<in> {db, db\<lparr>db_rooms := ?rs\<rparr>}"
    by (auto simp: update_room_code_endpoint_def update_room_code_def split: reply.split option.split)
  ultimately show ?thesis using assms by auto
qed

text \<open>A job is stored and, when the push succeeds, queued; the payload carries the new row.\<close>

lemma payload_carries:
  assumes "submission_create_valid sub_in" "submitted_text sub_in" "headers_ok trace" "i < 2 ^ 128"
    and "create_submission sf trace i now uid sub_in db = (row, db', payload)"
  shows "carries payload row"
proof -
  have row: "sb_id row = i" "sb_source_code row = sc_source_code sub_in"
    "sb_language row = sc_language sub_in" "sb_stdin_data row = sc_stdin_data sub_in" "sb_problem_id row = None"
    and payload: "payload = dumps sf (JObj (task_payload trace sub_in row))"
    using assms(5) by (auto simp: create_submission_def new_submission_def Let_def)
  show ?thesis
    unfolding carries_def payload payload_read [OF assms(2,3) row(2-4)]
    using assms(4) row
    by (simp add: payload_dispatch payload_request [OF assms(1) row(2-4)]) (simp add: submitted_request_def)
qed

lemma submit_cases:
  assumes "submit_code sf py reg up trace i now u sub_in db = (r, db', ps)"
  obtains "db' = db" "ps = []" "status_code 202 r \<in> {400, 422}"
  | row payload where "submission_create_valid sub_in"
      "create_submission sf trace i now (us_id u) sub_in db = (row, db', payload)"
      "up" "r = Reply row" "ps = [payload]"
  | row payload where "submission_create_valid sub_in"
      "create_submission sf trace i now (us_id u) sub_in db = (row, db', payload)"
      "\<not> up" "status_code 202 r = 500" "ps = []"
  using assms by (auto simp: submit_code_def split: if_splits prod.splits)

lemma created_row:
  assumes "create_submission sf trace i now uid sub_in db = (row, db', payload)"
  shows "db' = db\<lparr>db_submissions := db_submissions db @ [row]\<rparr>" "sb_id row = i" "sb_user_id row = uid"
    "sb_problem_id row = None" "sb_source_code row = sc_source_code sub_in"
    "sb_language row = sc_language sub_in" "sb_stdin_data row = sc_stdin_data sub_in"
    "sb_status row = lit ''PENDING''"
  using assms by (auto simp: create_submission_def new_submission_def Let_def)

lemma advance_add_submission:
  assumes "db_inv db" "sb_id row \<notin> sb_id ` set (db_submissions db)"
    and "sb_user_id row \<in> us_id ` set (db_users db)"
    and "pred_option (\<lambda>p. p \<in> pr_id ` set (db_problems db)) (sb_problem_id row)"
  shows "advances db (db\<lparr>db_submissions := db_submissions db @ [row]\<rparr>)"
  using assms by (simp add: advances_def appends_def db_inv_def refs_ok_def)

lemma current_user_stored:
  "get_current_user jw now tok db = Reply u \<Longrightarrow> u \<in> set (db_users db) \<and> us_is_active u"
proof -
  assume "get_current_user jw now tok db = Reply u"
  then obtain i where "filter (\<lambda>u. us_id u = i) (db_users db) = [u]" and a: "us_is_active u"
    by (auto simp: get_current_user_def credentials_exception_def one_or_none_Some
        split: option.splits json.splits reply.splits if_splits)
  then have "u \<in> set (filter (\<lambda>u. us_id u = i) (db_users db))" by simp
  then show ?thesis using a by simp
qed

lemma find_problem_stored: "find_problem db i = Reply (Some p) \<Longrightarrow> p \<in> set (db_problems db)"
proof -
  assume "find_problem db i = Reply (Some p)"
  then obtain Q where "filter Q (db_problems db) = [p]"
    by (auto simp: find_problem_def one_or_none_Some split: option.splits)
  then have "p \<in> set (filter Q (db_problems db))" by simp
  then show ?thesis by simp
qed

text \<open>A grading request adds one row at most, finished or not.\<close>

lemma grading_cases:
  assumes "submit_for_grading fmt exec fresh now i g u db w = (r, db', w')"
    and "fresh 0 \<notin> sb_id ` set (db_submissions db)"
  defines "db0 \<equiv> seed_default_problems_if_empty (\<lambda>k. fresh (k + 1)) now db"
  obtains "db' \<in> {db, db0}"
  | p row where "find_problem db0 i = Reply (Some p)" "sb_id row = fresh 0" "sb_user_id row = us_id u"
      "sb_problem_id row = Some (pr_id p)" "sb_status row \<noteq> lit ''PENDING''"
      "db' = db0\<lparr>db_submissions := db_submissions db0 @ [row]\<rparr>"
proof (cases "grading_submission_valid g \<and> (\<exists>p. find_problem db0 i = Reply (Some p) \<and> pr_test_cases p \<noteq> [])")
  case True
  then obtain p where p: "find_problem db0 i = Reply (Some p)" "pr_test_cases p \<noteq> []" by blast
  let ?s = "grading_submission (fresh 0) now (us_id u) p g"
  have f: "finish_grading sm (fresh 0) (db0\<lparr>db_submissions := db_submissions db0 @ [?s]\<rparr>) =
      db0\<lparr>db_submissions := db_submissions db0 @ [graded sm ?s]\<rparr>" for sm
    using finish_new_row [OF assms(2), of ?s sm db0] by (simp add: db0_def finish_grading_def)
  have "db' = db0\<lparr>db_submissions := db_submissions db0 @ [?s]\<rparr> \<or>
      (\<exists>sm. db' = db0\<lparr>db_submissions := db_submissions db0 @ [graded sm ?s]\<rparr>)"
    using assms(1) True p(2) f
    unfolding submit_for_grading_def submit_and_grade_problem_def start_grading_def db0_def [symmetric] p(1)
    by (auto simp: Let_def grading_submission_def new_submission_def split: prod.splits sum.splits if_splits)
  then show ?thesis
  proof
    assume "db' = db0\<lparr>db_submissions := db_submissions db0 @ [?s]\<rparr>"
    then show ?thesis
      using p(1) by (intro that(2) [of p ?s]) (simp_all add: grading_submission_def new_submission_def)
  next
    assume "\<exists>sm. db' = db0\<lparr>db_submissions := db_submissions db0 @ [graded sm ?s]\<rparr>"
    then obtain sm where "db' = db0\<lparr>db_submissions := db_submissions db0 @ [graded sm ?s]\<rparr>" by blast
    then show ?thesis
      using p(1) by (intro that(2) [of p "graded sm ?s"]) (simp_all add: graded_def grading_submission_def new_submission_def)
  qed
next
  case False
  then have "db' \<in> {db, db0}"
    using assms(1) unfolding submit_for_grading_def submit_and_grade_problem_def start_grading_def db0_def
    by (auto split: prod.splits sum.splits if_splits reply.splits option.splits)
  then show ?thesis by (rule that(1))
qed

lemma advance_grading:
  assumes "db_inv db" "u \<in> set (db_users db)" "fresh 0 \<notin> sb_id ` set (db_submissions db)"
    and "distinct [fresh 1, fresh 6, fresh 10]"
    and "submit_for_grading fmt exec fresh now i g u db w = (r, db', w')"
  shows "advances db db'"
proof -
  let ?db0 = "seed_default_problems_if_empty (\<lambda>k. fresh (k + 1)) now db"
  have s: "advances db ?db0" by (rule advance_seed [OF assms(1)]) (use assms(4) in simp)
  from assms(5,3) show ?thesis
  proof (cases rule: grading_cases)
    case 1
    then show ?thesis using s assms(1) by auto
  next
    case (2 p row)
    have "pr_id p \<in> pr_id ` set (db_problems ?db0)" using find_problem_stored [OF 2(1)] by simp
    then have "advances ?db0 db'"
      unfolding 2(6) using s assms(2,3) 2 by (intro advance_add_submission) (simp_all add: advances_def)
    then show ?thesis by (rule advances_trans [OF s])
  qed
qed

section \<open>One request\<close>

text \<open>What every request does: the tables advance, and the jobs it pushes belong to stored rows.\<close>

definition served :: "'w daemon \<Rightarrow> 'w daemon \<Rightarrow> bool" where
  "served d d' \<longleftrightarrow>
     advances (dm_db d) (dm_db d') \<and> dm_running d' = dm_running d \<and>
     (\<exists>ps. dm_queue d' = ps @ dm_queue d \<and>
        list_all (\<lambda>p. list_ex (carries p) (db_submissions (dm_db d'))) ps)"

lemma served_refl: "backend_inv d \<Longrightarrow> served d d"
  unfolding served_def by (auto simp: backend_inv_def intro: exI [of _ "[]"])

lemma served_on_db: "advances (dm_db d) (snd (endpoint (dm_db d))) \<Longrightarrow> served d (snd (on_db code endpoint d))"
  unfolding served_def by (auto simp: on_db_def split: prod.split intro: exI [of _ "[]"])

lemma served_as_user:
  assumes "backend_inv d" and "\<And>u. u \<in> set (db_users (dm_db d)) \<Longrightarrow> served d (snd (endpoint u d))"
  shows "served d (snd (as_user st ca endpoint d))" "served d (snd (as_admin st ca endpoint d))"
proof -
  have "u \<in> set (db_users (dm_db d))"
    if "get_current_user (si_jwt st) (ca_now ca) (ca_token ca) (dm_db d) = Reply u" for u
    using current_user_stored [OF that] by simp
  then show "served d (snd (as_user st ca endpoint d))" "served d (snd (as_admin st ca endpoint d))"
    using assms(2) served_refl [OF assms(1)]
    by (auto simp: as_user_def as_admin_def get_current_admin_user_def split: reply.split)
qed

lemma fresh_facts:
  assumes "draws_fresh f db"
  shows "f 0 \<notin> sb_id ` set (db_submissions db)" "f 0 \<notin> ro_id ` set (db_rooms db)" "f 0 < 2 ^ 128"
    "distinct [f 0, f 5, f 9]" "distinct [f 1, f 6, f 10]"
proof -
  have "\<forall>i<20. \<forall>j<20. i \<noteq> j \<longrightarrow> f i \<noteq> f j" and u: "\<forall>i<20. f i < 2 ^ 128 \<and> f i \<notin> used_ids db"
    using assms by (auto simp: draws_fresh_def distinct_map inj_on_def)
  then show "distinct [f 0, f 5, f 9]" "distinct [f 1, f 6, f 10]" by simp_all
  have "f 0 < 2 ^ 128 \<and> f 0 \<notin> used_ids db" using u by (metis zero_less_numeral)
  then show "f 0 \<notin> sb_id ` set (db_submissions db)" "f 0 \<notin> ro_id ` set (db_rooms db)" "f 0 < 2 ^ 128"
    by (simp_all add: used_ids_def)
qed

lemma served_submission:
  assumes "backend_inv d" "draws_fresh (ca_fresh ca) (dm_db d)" "headers_ok (ca_trace ca)" "submitted_text sub_in"
  shows "served d (snd (serve_submission st ca sub_in up d))"
  unfolding serve_submission_def
proof (rule served_as_user(1) [OF assms(1)])
  fix u
  assume u: "u \<in> set (db_users (dm_db d))"
  obtain r db ps where s: "submit_code (si_show_float st) (si_python_exe st) (si_registry st) up (ca_trace ca)
      (ca_fresh ca 0) (ca_now ca) u sub_in (dm_db d) = (r, db, ps)" by (metis prod_cases3)
  have db: "db_inv (dm_db d)" using assms(1) by (simp add: backend_inv_def)
  have new: "advances (dm_db d) db \<and> list_ex (carries payload) (db_submissions db)"
    if v: "submission_create_valid sub_in" and c: "create_submission (si_show_float st) (ca_trace ca)
      (ca_fresh ca 0) (ca_now ca) (us_id u) sub_in (dm_db d) = (row, db, payload)" for row payload
  proof -
    note row = created_row [OF c]
    have "carries payload row"
      by (rule payload_carries [OF v assms(4,3) fresh_facts(3) [OF assms(2)] c])
    then show ?thesis
      unfolding row(1) using advance_add_submission [OF db, of row] fresh_facts(1) [OF assms(2)] row u by simp
  qed
  from s show "served d (snd (case submit_code (si_show_float st) (si_python_exe st) (si_registry st) up
      (ca_trace ca) (ca_fresh ca 0) (ca_now ca) u sub_in (dm_db d) of
        (r, db, payloads) \<Rightarrow> (status_code 202 r, fold enqueue payloads (d\<lparr>dm_db := db\<rparr>))))"
  proof (cases rule: submit_cases)
    case 1
    then show ?thesis using s served_refl [OF assms(1)] by simp
  next
    case (2 row payload)
    then show ?thesis
      using s new [OF 2(1,2)] by (simp add: served_def enqueue_def)
  next
    case (3 row payload)
    then show ?thesis
      using s new [OF 3(1,2)] by (simp add: served_def)
  qed
qed

lemma served_grading:
  assumes "backend_inv d" "draws_fresh (ca_fresh ca) (dm_db d)"
  shows "served d (snd (serve_grading st ca i g d))"
  unfolding serve_grading_def
proof (rule served_as_user(1) [OF assms(1)])
  fix u
  assume u: "u \<in> set (db_users (dm_db d))"
  obtain r db w where s: "submit_for_grading (en_formatting (si_worker st)) (en_driver (si_worker st)) (ca_fresh ca)
      (ca_now ca) i g u (dm_db d) (dm_world d) = (r, db, w)" by (metis prod_cases3)
  have "advances (dm_db d) db"
    by (rule advance_grading [OF _ u fresh_facts(1,5) [OF assms(2)] s]) (use assms(1) in \<open>simp add: backend_inv_def\<close>)
  then show "served d (snd (case submit_for_grading (en_formatting (si_worker st)) (en_driver (si_worker st))
      (ca_fresh ca) (ca_now ca) i g u (dm_db d) (dm_world d) of
        (r, db, w) \<Rightarrow> (status_code 200 r, d\<lparr>dm_db := db, dm_world := w\<rparr>)))"
    using s by (simp add: served_def)
qed

lemma handle_request_served:
  assumes "email_ok (si_is_email st)" "backend_inv d" "draws_fresh (ca_fresh ca) (dm_db d)"
    and "headers_ok (ca_trace ca)" "body_text rq"
  shows "served d (snd (handle_request st ca rq d))"
proof -
  have db: "db_inv (dm_db d)" using assms(2) by (simp add: backend_inv_def)
  note fresh = fresh_facts [OF assms(3)]
  note user = served_as_user(1) [OF assms(2)]
  show ?thesis
  proof (cases rq)
    case (Register uc)
    then show ?thesis
      using served_refl [OF assms(2)] advance_register [OF db _ assms(1)]
      by (auto simp: serve_registration_def intro!: served_on_db)
  next
    case (Submit_Code sub_in up)
    then show ?thesis using served_submission [OF assms(2-4)] assms(5) by simp
  next
    case (Create_Problem problem_in)
    then show ?thesis
      by (auto intro!: served_as_user(2) [OF assms(2)] served_on_db advance_create_problem [OF db])
  next
    case (Submit_Problem i g)
    then show ?thesis using served_grading [OF assms(2,3)] by simp
  next
    case (List_Problems difficulty skip limit)
    then show ?thesis by (auto intro!: user served_on_db advance_list(1) [OF db fresh(4)])
  next
    case (Get_Problem i)
    then show ?thesis by (auto intro!: user served_on_db advance_list(2) [OF db fresh(4)])
  next
    case (Create_Room room_in)
    then show ?thesis by (auto intro!: user served_on_db advance_create_room [where fresh = "ca_fresh ca", OF db _ fresh(2)])
  next
    case (Join_Room room_id)
    then show ?thesis by (auto intro!: user served_on_db advance_join [OF db])
  next
    case (Update_Room room_id code)
    then show ?thesis by (auto intro!: user served_on_db advance_update_room [OF db])
  qed
qed

lemma served_inv: "served d d' \<Longrightarrow> backend_inv d \<Longrightarrow> backend_inv d'"
  unfolding served_def backend_inv_def queue_ok_def advances_def appends_def
  by (fastforce simp: list_all_iff list_ex_iff dest: set_mono_prefix)

end
