(* ===== verification/Backend_Runs.thy ===== *)
theory Backend_Runs
  imports Backend_Invariant
begin

text \<open>
  The runs of the backend: what a turn of the worker keeps, the invariant along every run,
  how far the job of a submission has come, which rows a request may add, and what a refused
  request leaves alone.
\<close>

section \<open>Turns of the worker\<close>

text \<open>Integrity does not look at the columns of an outcome.\<close>

lemma core_ids:
  assumes "stored_core db = stored_core db'"
  shows "map row_core (db_submissions db) = map row_core (db_submissions db')"
    "db_users db = db_users db'" "db_problems db = db_problems db'" "db_rooms db = db_rooms db'"
    "db_members db = db_members db'"
  using assms unfolding stored_core_def by (cases db; cases db'; simp)+

lemma row_core_simps [simp]:
  "sb_id (row_core s) = sb_id s" "sb_user_id (row_core s) = sb_user_id s"
  "sb_problem_id (row_core s) = sb_problem_id s" "sb_language (row_core s) = sb_language s"
  "sb_source_code (row_core s) = sb_source_code s" "sb_stdin_data (row_core s) = sb_stdin_data s"
  by (simp_all add: row_core_def)

lemma core_lists:
  assumes "map row_core ss = map row_core ss'"
  shows "map sb_id ss = map sb_id ss'"
    "list_all (\<lambda>s. Q (sb_user_id s) (sb_problem_id s)) ss = list_all (\<lambda>s. Q (sb_user_id s) (sb_problem_id s)) ss'"
proof -
  have "map sb_id ss = map sb_id (map row_core ss)" for ss by simp
  then show "map sb_id ss = map sb_id ss'" using assms by metis
  have "list_all (\<lambda>s. Q (sb_user_id s) (sb_problem_id s)) ss =
      list_all (\<lambda>s. Q (sb_user_id s) (sb_problem_id s)) (map row_core ss)" for ss
    by (simp add: list.pred_map comp_def)
  then show "list_all (\<lambda>s. Q (sb_user_id s) (sb_problem_id s)) ss =
      list_all (\<lambda>s. Q (sb_user_id s) (sb_problem_id s)) ss'" using assms by metis
qed

lemma db_inv_core:
  assumes "stored_core db = stored_core db'"
  shows "db_inv db = db_inv db'"
  unfolding db_inv_def refs_ok_def rooms_inv_def core_ids(2-5) [OF assms]
    core_lists(1) [OF core_ids(1) [OF assms]]
  using core_lists(2) [OF core_ids(1) [OF assms], of "\<lambda>x y. x \<in> us_id ` set (db_users db') \<and>
      pred_option (\<lambda>p. p \<in> pr_id ` set (db_problems db')) y"] by blast

lemma carries_core [simp]: "carries p (row_core s) = carries p s"
  by (simp add: carries_def split: option.split json.split)

lemma list_ex_core:
  "stored_core db = stored_core db' \<Longrightarrow>
   list_ex (carries p) (db_submissions db) = list_ex (carries p) (db_submissions db')"
proof -
  have "list_ex (carries p) ss = list_ex (carries p) (map row_core ss)" for ss
    by (simp add: list_ex_iff)
  then show "stored_core db = stored_core db' \<Longrightarrow> ?thesis" using core_ids(1) by metis
qed

lemma daemon_turn_takes:
  assumes "dm_running d" "dm_queue d = q @ [p]"
  shows "daemon_turn en d = handle_payload en p (d\<lparr>dm_queue := q\<rparr>)" "dm_queue (daemon_turn en d) = q"
proof -
  show "daemon_turn en d = handle_payload en p (d\<lparr>dm_queue := q\<rparr>)"
    using assms by (simp add: daemon_turn_def turn_with_def)
  then show "dm_queue (daemon_turn en d) = q"
    using payloads.queue_untouched [of "d\<lparr>dm_queue := q\<rparr>" q en p] by simp
qed

lemma daemon_turn_cases:
  obtains "daemon_turn en d = d"
  | q p where "dm_queue d = q @ [p]" "daemon_turn en d = handle_payload en p (d\<lparr>dm_queue := q\<rparr>)"
    "dm_queue (daemon_turn en d) = q"
proof (cases "dm_running d \<and> dm_queue d \<noteq> []")
  case True
  then obtain q p where q: "dm_queue d = q @ [p]" by (metis append_butlast_last_id)
  then show ?thesis using that(2) daemon_turn_takes True by blast
next
  case False
  then show ?thesis by (intro that(1)) (auto simp: daemon_turn_def turn_with_def)
qed

lemma turn_core [simp]: "stored_core (dm_db (daemon_turn en d)) = stored_core (dm_db d)"
  by (cases rule: daemon_turn_cases [of en d]) simp_all

lemma turn_inv: "backend_inv d \<Longrightarrow> backend_inv (daemon_turn en d)"
  using db_inv_core [OF turn_core [of en d]] list_ex_core [OF turn_core [of en d]]
  by (cases rule: daemon_turn_cases [of en d]) (simp_all add: backend_inv_def queue_ok_def)

lemma turn_running [simp]: "dm_running (daemon_turn en d) = dm_running d"
  by (cases rule: daemon_turn_cases [of en d]) simp_all

section \<open>Runs\<close>

definition site_ok :: "('w, 'r) site \<Rightarrow> bool" where
  "site_ok st \<longleftrightarrow> email_ok (si_is_email st)"

text \<open>Nothing that is stored is lost or rewritten, the columns of an outcome and the text of a
  room apart.\<close>

definition keeps :: "database \<Rightarrow> database \<Rightarrow> bool" where
  "keeps db db' \<longleftrightarrow>
     prefix (db_users db) (db_users db') \<and> prefix (db_problems db) (db_problems db') \<and>
     prefix (db_members db) (db_members db') \<and>
     prefix (map row_core (db_submissions db)) (map row_core (db_submissions db')) \<and>
     prefix (map room_part (db_rooms db)) (map room_part (db_rooms db'))"

lemma keeps_refl [simp]: "keeps db db"
  by (simp add: keeps_def)

lemma keeps_trans: "keeps db db1 \<Longrightarrow> keeps db1 db2 \<Longrightarrow> keeps db db2"
  by (meson keeps_def prefix_order.trans)

lemma keeps_appends: "appends db db' \<Longrightarrow> keeps db db'"
  by (simp add: keeps_def appends_def map_mono_prefix)

lemma keeps_core: "stored_core db = stored_core db' \<Longrightarrow> keeps db db'"
  using core_ids [of db db'] by (simp add: keeps_def)

lemma serve_worker:
  obtains "sy_worker (snd (serve st ca rq sy)) = sy_worker sy" "fst (serve st ca rq sy) = 429"
  | "fst (serve st ca rq sy) = fst (handle_request st ca rq (sy_worker sy))"
    "sy_worker (snd (serve st ca rq sy)) = snd (handle_request st ca rq (sy_worker sy))"
proof -
  have "sy_worker (snd (serve st ca rq sy)) = sy_worker sy \<and> fst (serve st ca rq sy) = 429 \<or>
      fst (serve st ca rq sy) = fst (handle_request st ca rq (sy_worker sy)) \<and>
      sy_worker (snd (serve st ca rq sy)) = snd (handle_request st ca rq (sy_worker sy))"
    by (simp add: serve_def split: prod.split decision.split)
  then show ?thesis using that by blast
qed

lemma step_ok:
  assumes "site_step st sy e sy'" "site_ok st" "backend_inv (sy_worker sy)"
  shows "backend_inv (sy_worker sy') \<and> keeps (dm_db (sy_worker sy)) (dm_db (sy_worker sy'))"
  using assms(1)
proof (cases rule: site_step.cases)
  case (request ca rq)
  then have "served (sy_worker sy) (snd (handle_request st ca rq (sy_worker sy)))"
    using handle_request_served assms(2,3) unfolding site_ok_def by blast
  then have h: "backend_inv (snd (handle_request st ca rq (sy_worker sy)))"
      "keeps (dm_db (sy_worker sy)) (dm_db (snd (handle_request st ca rq (sy_worker sy))))"
    using served_inv [OF _ assms(3)] keeps_appends by (auto simp: served_def advances_def)
  show ?thesis
    by (cases rule: serve_worker [of st ca rq sy]) (use h assms(3) request in simp_all)
next
  case turn
  then show ?thesis using turn_inv [OF assms(3)] keeps_core [OF turn_core [symmetric]] by simp
next
  case stop
  then show ?thesis using assms(3) by (simp add: daemon_stop_def backend_inv_def queue_ok_def)
qed

lemma run_ok:
  "site_run st sy es sy' \<Longrightarrow> site_ok st \<Longrightarrow> backend_inv (sy_worker sy) \<Longrightarrow>
   backend_inv (sy_worker sy') \<and> keeps (dm_db (sy_worker sy)) (dm_db (sy_worker sy'))"
proof (induction rule: site_run.induct)
  case (run_step sy e sy' es sy'')
  then show ?case using step_ok [OF run_step(1)] keeps_trans by blast
qed simp

lemma site_run_snoc: "site_run st sy es sy' \<Longrightarrow> site_step st sy' e sy'' \<Longrightarrow> site_run st sy (es @ [e]) sy''"
  by (induction rule: site_run.induct) auto

lemma fresh_system_inv: "fresh_system sy \<Longrightarrow> backend_inv (sy_worker sy)"
  by (simp add: fresh_system_def backend_inv_def queue_ok_def db_inv_def refs_ok_def rooms_inv_def
      problems_inv_def empty_database_def)

lemma reachable_inv: "reachable st sy \<Longrightarrow> site_ok st \<Longrightarrow> backend_inv (sy_worker sy)"
  unfolding reachable_def using run_ok fresh_system_inv by blast

section \<open>Progress\<close>

text \<open>
  What the progress of a job rests on: the database accepts the outcome of every run.  A row
  is reported when its outcome is that of a run of its own program.
\<close>

definition outcome_of :: "'w environment \<Rightarrow> uuid \<Rightarrow> execution_request \<Rightarrow> 'w \<Rightarrow> task_result" where
  "outcome_of en i rq w =
     fst (stream_and_collect (show_float (en_formatting en)) (show_uuid i) (fst (en_stream en rq w)))"

definition outcomes_stored :: "'w environment \<Rightarrow> bool" where
  "outcomes_stored en \<longleftrightarrow>
     (\<forall>i rq w. outcome_row (en_storable en) (execution_values (outcome_of en i rq w)) \<noteq> None)"

definition request_for :: "submission_row \<Rightarrow> execution_request \<Rightarrow> bool" where
  "request_for s rq \<longleftrightarrow>
     rq_source_code rq = sb_source_code s \<and> rq_language rq = sb_language s \<and> rq_stdin_data rq = sb_stdin_data s"

definition reported :: "'w environment \<Rightarrow> submission_row \<Rightarrow> bool" where
  "reported en s \<longleftrightarrow>
     (\<exists>rq w. request_for s rq \<and> tr_status (outcome_of en (sb_id s) rq w) = JStr (sb_status s) \<and>
        sb_output_summary s =
          Some (str_or (tr_stdout (outcome_of en (sb_id s) rq w)) (tr_stderr (outcome_of en (sb_id s) rq w))))"

lemma carried_persists:
  assumes "carries p s"
  obtains rq where "request_for s rq" "dm_db (handle_payload en p d) = persist_submission_result (en_storable en)
      (show_uuid (sb_id s)) (execution_values (outcome_of en (sb_id s) rq (dm_world d))) (dm_db d)"
    and "uuid_of (show_uuid (sb_id s)) = Some (sb_id s)"
proof -
  obtain t rq where t: "loads p = Some (JObj t)" "dict_get (lit ''submission_id'') JNull t = JStr (show_uuid (sb_id s))"
      "sb_id s < 2 ^ 128" "map_of t (lit ''action'') = None" "map_of t (lit ''test_cases'') = None"
      "task_request t = Some rq" "build_request rq = Inr rq" "request_for s rq"
    using assms by (auto simp: carries_def request_for_def split: option.splits json.splits)
  then have "handle_payload en p d = run_execution en (show_uuid (sb_id s)) t d"
    by (simp add: handle_payload_def)
  then have "dm_db (handle_payload en p d) = persist_submission_result (en_storable en) (show_uuid (sb_id s))
      (execution_values (outcome_of en (sb_id s) rq (dm_world d))) (dm_db d)"
    using t(6,7) by (simp add: run_execution_def outcome_of_def split: prod.split)
  then show ?thesis using that t(8) uuid_roundtrip [OF t(3)] by blast
qed

lemma handle_carried:
  assumes "carries p s" "outcomes_stored en"
  obtains f rq w where "request_for s rq"
    and "outcome_row (en_storable en) (execution_values (outcome_of en (sb_id s) rq w)) = Some f"
    and "db_submissions (dm_db (handle_payload en p d)) =
      map (\<lambda>x. if sb_id x = sb_id s then f x else x) (db_submissions (dm_db d))"
proof -
  obtain rq where rq: "request_for s rq" "dm_db (handle_payload en p d) = persist_submission_result (en_storable en)
      (show_uuid (sb_id s)) (execution_values (outcome_of en (sb_id s) rq (dm_world d))) (dm_db d)"
    "uuid_of (show_uuid (sb_id s)) = Some (sb_id s)" by (rule carried_persists [OF assms(1)])
  obtain f where f: "outcome_row (en_storable en) (execution_values (outcome_of en (sb_id s) rq (dm_world d))) = Some f"
    using assms(2) unfolding outcomes_stored_def by (metis not_None_eq)
  then show ?thesis using that [OF rq(1) f] rq(2,3) by (simp add: persist_submission_result_def)
qed

lemma outcome_core: "outcome_row storable v = Some f \<Longrightarrow> row_core (f s) = row_core s"
  by (auto simp: outcome_row_def row_core_def split: json.splits option.splits if_splits)

lemma outcome_reported:
  assumes "outcome_row storable (execution_values r) = Some f"
  shows "row_core (f s) = row_core s" "tr_status r = JStr (sb_status (f s))"
    "sb_output_summary (f s) = Some (str_or (tr_stdout r) (tr_stderr r))"
  using assms outcome_core [OF assms]
  by (cases "tr_status r"; auto simp: outcome_row_def execution_values_def split: option.splits if_splits)+

text \<open>A row is settled within \<open>n\<close> turns: it is reported, or its job is among the next \<open>n\<close>.\<close>

definition settled :: "'w environment \<Rightarrow> uuid \<Rightarrow> nat \<Rightarrow> 'w daemon \<Rightarrow> bool" where
  "settled en i n d \<longleftrightarrow>
     (\<exists>s \<in> set (db_submissions (dm_db d)). sb_id s = i \<and>
        (reported en s \<or>
         (\<exists>pre p post. dm_queue d = pre @ p # post \<and> length post < n \<and> carries p s)))"

lemma carries_same_id: "carries p s \<Longrightarrow> carries p s' \<Longrightarrow> sb_id s = sb_id s'"
proof -
  assume "carries p s" "carries p s'"
  then have "show_uuid (sb_id s) = show_uuid (sb_id s')" "sb_id s < 2 ^ 128" "sb_id s' < 2 ^ 128"
    by (auto simp: carries_def split: option.splits json.splits)
  then show "sb_id s = sb_id s'" using uuid_roundtrip by (metis option.inject)
qed

lemma settled_turn:
  assumes "settled en i n d" "backend_inv d" "outcomes_stored en" "dm_running d"
  shows "settled en i (n - 1) (daemon_turn en d)"
proof -
  obtain s where s: "s \<in> set (db_submissions (dm_db d))" "sb_id s = i"
    and r: "reported en s \<or> (\<exists>pre p post. dm_queue d = pre @ p # post \<and> length post < n \<and> carries p s)"
    using assms(1) by (auto simp: settled_def)
  show ?thesis
  proof (cases "dm_queue d = []")
    case True
    then show ?thesis using s r by (auto simp: daemon_turn_def turn_with_def settled_def)
  next
    case False
    then obtain q p where qp: "dm_queue d = q @ [p]" by (metis append_butlast_last_id)
    note q = qp daemon_turn_takes [OF assms(4) qp]
    obtain s' where s': "s' \<in> set (db_submissions (dm_db d))" "carries p s'"
      using assms(2) q(1) by (auto simp: backend_inv_def queue_ok_def list_ex_iff)
    obtain f rq w where f: "request_for s' rq"
      "outcome_row (en_storable en) (execution_values (outcome_of en (sb_id s') rq w)) = Some f"
      "db_submissions (dm_db (daemon_turn en d)) = map (\<lambda>x. if sb_id x = sb_id s' then f x else x) (db_submissions (dm_db d))"
      by (rule handle_carried [OF s'(2) assms(3), of "d\<lparr>dm_queue := q\<rparr>"]) (use q(2) in simp)
    show ?thesis
    proof (cases "sb_id s' = i")
      case True
      then have "s' = s"
        using s s'(1) assms(2) by (auto simp: backend_inv_def db_inv_def distinct_map inj_on_def)
      have c: "row_core (f s) = row_core s" by (rule outcome_reported(1) [OF f(2)])
      then have id: "sb_id (f s) = sb_id s" and "request_for (f s) rq"
        using f(1) \<open>s' = s\<close> row_core_simps unfolding request_for_def by metis+
      then have "reported en (f s)"
        using outcome_reported(2,3) [OF f(2)] \<open>s' = s\<close> unfolding reported_def by auto
      moreover have "f s \<in> set (db_submissions (dm_db (daemon_turn en d)))"
        using s(1) \<open>s' = s\<close> by (auto simp: f(3))
      ultimately show ?thesis using id s(2) by (auto simp: settled_def)
    next
      case other: False
      then have mem: "s \<in> set (db_submissions (dm_db (daemon_turn en d)))" using s by (force simp: f(3))
      from r show ?thesis
      proof
        assume "\<exists>pre p post. dm_queue d = pre @ p # post \<and> length post < n \<and> carries p s"
        then obtain pre p' post where w: "q @ [p] = pre @ p' # post" "length post < n" "carries p' s" using q(1) by auto
        then have "post \<noteq> []" using carries_same_id [OF s'(2)] other s(2) by auto
        then obtain post' where "post = post' @ [p]" "q = pre @ p' # post'"
          using w(1) by (cases post rule: rev_cases) auto
        then show ?thesis using w mem s(2) q(3) by (fastforce simp: settled_def)
      qed (use mem s(2) in \<open>auto simp: settled_def\<close>)
    qed
  qed
qed

lemma settled_served: "settled en i n d \<Longrightarrow> served d d' \<Longrightarrow> settled en i n d'"
proof -
  assume a: "settled en i n d" and "served d d'"
  then obtain ps where ps: "dm_queue d' = ps @ dm_queue d" "set (db_submissions (dm_db d)) \<subseteq> set (db_submissions (dm_db d'))"
    by (auto simp: served_def advances_def appends_def dest: set_mono_prefix)
  from a obtain s where s: "s \<in> set (db_submissions (dm_db d'))" "sb_id s = i"
    "reported en s \<or> (\<exists>pre p post. dm_queue d = pre @ p # post \<and> length post < n \<and> carries p s)"
    using ps(2) by (auto simp: settled_def)
  from s(3) show "settled en i n d'"
  proof
    assume "\<exists>pre p post. dm_queue d = pre @ p # post \<and> length post < n \<and> carries p s"
    then obtain pre p post where "dm_queue d' = (ps @ pre) @ p # post" "length post < n" "carries p s"
      using ps(1) by auto
    then show ?thesis using s(1,2) unfolding settled_def by blast
  qed (use s(1,2) in \<open>auto simp: settled_def\<close>)
qed

lemma run_settles:
  "site_run st sy es sy' \<Longrightarrow> site_ok st \<Longrightarrow> outcomes_stored (si_worker st) \<Longrightarrow> backend_inv (sy_worker sy) \<Longrightarrow>
   dm_running (sy_worker sy) \<Longrightarrow> Stop \<notin> set es \<Longrightarrow> settled (si_worker st) i n (sy_worker sy) \<Longrightarrow>
   settled (si_worker st) i (n - count_list es Turn) (sy_worker sy')"
proof (induction arbitrary: n rule: site_run.induct)
  case (run_step sy e sy' es sy'')
  note inv = step_ok [OF run_step(1,4,6), THEN conjunct1]
  from run_step(1) show ?case
  proof (cases rule: site_step.cases)
    case (request ca rq)
    have sv: "served (sy_worker sy) (sy_worker sy')"
      using handle_request_served [of st "sy_worker sy" ca rq] run_step(4,6) request served_refl
      by (cases rule: serve_worker [of st ca rq sy]) (auto simp: site_ok_def)
    then have "dm_running (sy_worker sy')" using run_step(7) by (simp add: served_def)
    moreover have "settled (si_worker st) i n (sy_worker sy')" by (rule settled_served [OF run_step(9) sv])
    ultimately show ?thesis using run_step.IH [OF run_step(4,5) inv] run_step(8) request by simp
  next
    case turn
    then have "settled (si_worker st) i (n - 1) (sy_worker sy')"
      using settled_turn [OF run_step(9,6,5,7)] by simp
    then show ?thesis using run_step.IH [OF run_step(4,5) inv, of "n - 1"] run_step(7,8) turn by simp
  next
    case stop
    then show ?thesis using run_step(8) by simp
  qed
qed simp

section \<open>Who may write what\<close>

text \<open>The rows a request of \<open>u\<close> adds are owned by \<open>u\<close>; problems come from the seeding of an
  empty table or from an administrator.\<close>

definition adds_own :: "user_row \<Rightarrow> database \<Rightarrow> database \<Rightarrow> bool" where
  "adds_own u db db' \<longleftrightarrow>
     db_users db' = db_users db \<and>
     (\<exists>ss. db_submissions db' = db_submissions db @ ss \<and> list_all (\<lambda>s. sb_user_id s = us_id u) ss) \<and>
     (\<exists>ms. db_members db' = db_members db @ ms \<and> list_all (\<lambda>m. mb_user_id m = us_id u) ms) \<and>
     (\<exists>rs. map room_part (db_rooms db') = map room_part (db_rooms db) @ rs \<and>
        list_all (\<lambda>r. snd r = us_id u) rs) \<and>
     (db_problems db \<noteq> [] \<longrightarrow> is_admin u \<or> db_problems db' = db_problems db)"

lemma adds_own_refl [simp]: "adds_own u db db"
  by (simp add: adds_own_def)

lemma adds_own_seed [simp]: "adds_own u db (seed_default_problems_if_empty fresh now db)"
  by (simp add: adds_own_def seed_default_problems_if_empty_def)

lemma adds_own_submission [simp]:
  "sb_user_id s = us_id u \<Longrightarrow> adds_own u db (db\<lparr>db_submissions := db_submissions db @ [s]\<rparr>)"
  by (simp add: adds_own_def)

lemma adds_own_list:
  "adds_own u db (snd (list_problems_endpoint fresh now difficulty skip limit db))"
  "adds_own u db (snd (get_problem fresh now i u' db))"
  by (simp_all add: list_problems_endpoint_def get_problem_def Let_def)

lemma adds_own_room:
  "adds_own u db (snd (create_room_endpoint fresh now u room_in db))"
  "adds_own u db (snd (join_room_endpoint i room_id u db))"
  "adds_own u db (snd (update_room_code_endpoint room_id code db))"
proof -
  show "adds_own u db (snd (create_room_endpoint fresh now u room_in db))"
    by (simp add: create_room_endpoint_def create_room_def new_room_def adds_own_def Let_def)
  show "adds_own u db (snd (join_room_endpoint i room_id u db))"
    by (simp add: join_room_endpoint_def join_room_def insert_member_def adds_own_def Let_def
        split: reply.split option.split)
  show "adds_own u db (snd (update_room_code_endpoint room_id code db))"
    by (simp add: update_room_code_endpoint_def update_room_code_def adds_own_def del: map_map
        split: reply.split option.split)
qed

lemma adds_own_created: "create_submission sf trace i now (us_id u) sub_in db = (row, db', payload) \<Longrightarrow> adds_own u db db'"
  using created_row(1,3) adds_own_submission by metis

lemma adds_own_problem: "is_admin u \<Longrightarrow> adds_own u db (snd (create_problem_endpoint fresh now problem_in db))"
  by (auto simp: create_problem_endpoint_def create_problem_def adds_own_def Let_def
      split: reply.splits option.splits prod.splits if_splits)

lemma adds_own_grading:
  assumes "submit_for_grading fmt exec fresh now i g u db w = (r, db', w')" "fresh 0 \<notin> sb_id ` set (db_submissions db)"
  shows "adds_own u db db'"
  using assms
proof (cases rule: grading_cases)
  case (2 p row)
  then show ?thesis
    by (simp add: adds_own_def seed_default_problems_if_empty_def)
qed auto

lemma handle_request_own:
  assumes "handle_request st ca rq d = (code, d')" "draws_fresh (ca_fresh ca) (dm_db d)" "\<forall>uc. rq \<noteq> Register uc"
  shows "d' = d \<or> (\<exists>u. get_current_user (si_jwt st) (ca_now ca) (ca_token ca) (dm_db d) = Reply u \<and>
    adds_own u (dm_db d) (dm_db d'))"
proof (cases "get_current_user (si_jwt st) (ca_now ca) (ca_token ca) (dm_db d)")
  case (Reply u)
  note ep = as_user_def as_admin_def get_current_admin_user_def on_db_def Reply
  have "d' = d \<or> adds_own u (dm_db d) (dm_db d')"
  proof (cases rq)
    case (Submit_Code sub_in up)
    obtain r db ps where s: "submit_code (si_show_float st) (si_python_exe st) (si_registry st) up (ca_trace ca)
        (ca_fresh ca 0) (ca_now ca) u sub_in (dm_db d) = (r, db, ps)" by (metis prod_cases3)
    from s have "adds_own u (dm_db d) db"
      by (cases rule: submit_cases) (simp_all add: adds_own_created)
    then show ?thesis using assms(1) Submit_Code s by (auto simp: serve_submission_def fold_enqueue ep)
  next
    case (Submit_Problem i g)
    obtain r db w where s: "submit_for_grading (en_formatting (si_worker st)) (en_driver (si_worker st)) (ca_fresh ca)
        (ca_now ca) i g u (dm_db d) (dm_world d) = (r, db, w)" by (metis prod_cases3)
    then show ?thesis
      using assms(1) Submit_Problem adds_own_grading [OF s fresh_facts(1) [OF assms(2)]]
      by (auto simp: serve_grading_def ep)
  next
    case (Create_Problem problem_in)
    then show ?thesis
      using assms(1) adds_own_problem [of u "dm_db d" "ca_fresh ca" "ca_now ca" problem_in]
      by (auto simp: ep split: prod.splits if_splits)
  next
    case (List_Problems difficulty skip limit)
    then show ?thesis
      using assms(1) adds_own_list(1) [of u "dm_db d" "ca_fresh ca" "ca_now ca" difficulty skip limit]
      by (auto simp: ep split: prod.splits)
  next
    case (Get_Problem i)
    then show ?thesis
      using assms(1) adds_own_list(2) [of u "dm_db d" "ca_fresh ca" "ca_now ca" i u]
      by (auto simp: ep split: prod.splits)
  next
    case (Create_Room room_in)
    then show ?thesis
      using assms(1) adds_own_room(1) [of u "dm_db d" "ca_fresh ca" "ca_now ca" room_in]
      by (auto simp: ep split: prod.splits)
  next
    case (Join_Room room_id)
    then show ?thesis
      using assms(1) adds_own_room(2) [of u "dm_db d" "ca_fresh ca 0" room_id]
      by (auto simp: ep split: prod.splits)
  next
    case (Update_Room room_id new_code)
    then show ?thesis
      using assms(1) adds_own_room(3) [of u "dm_db d" room_id new_code]
      by (auto simp: ep split: prod.splits)
  qed (use assms(3) in simp)
  then show ?thesis using Reply by blast
next
  case (Http_Error c m)
  then show ?thesis
    using assms(1,3) by (cases rq) (simp_all add: as_user_def as_admin_def get_current_admin_user_def
        serve_submission_def serve_grading_def)
next
  case Crash
  then show ?thesis
    using assms(1,3) by (cases rq) (simp_all add: as_user_def as_admin_def get_current_admin_user_def
        serve_submission_def serve_grading_def)
qed

section \<open>Refused requests\<close>

definition refused_codes :: "nat set" where
  "refused_codes = {400, 401, 403, 422, 429}"

text \<open>An endpoint that leaves the tables alone when it refuses.\<close>

definition refuses :: "nat \<Rightarrow> (database \<Rightarrow> 'a reply \<times> database) \<Rightarrow> bool" where
  "refuses success endpoint \<longleftrightarrow>
     (\<forall>db. status_code success (fst (endpoint db)) \<in> refused_codes \<longrightarrow> snd (endpoint db) = db)"

lemma one_or_none_no_http [simp]: "one_or_none xs \<noteq> Http_Error code m"
  by (simp add: one_or_none_def split: list.split)

lemma get_problem_no_http: "get_problem_by_id_or_slug db i b \<noteq> Http_Error code m"
  by (auto simp: get_problem_by_id_or_slug_def find_problem_def split: reply.splits option.splits if_splits)

lemma current_user_errors: "get_current_user jw now tok db = Http_Error c m \<Longrightarrow> c \<in> {400, 401}"
  by (auto simp: get_current_user_def credentials_exception_def
      split: option.splits json.splits reply.splits if_splits)

lemma refuses_endpoints:
  "refuses 200 (list_problems_endpoint fresh now difficulty skip limit)"
  "refuses 200 (get_problem fresh now i u)"
  "refuses 201 (create_problem_endpoint fresh now problem_in)"
  "refuses 201 (create_room_endpoint fresh now u room_in)"
  "refuses 200 (join_room_endpoint j room_id u)"
  "refuses 200 (update_room_code_endpoint room_id code)"
  "refuses 201 (register_user bc salt j uc)"
  unfolding refuses_def refused_codes_def using get_problem_no_http
  by (auto simp: list_problems_endpoint_def list_problems_def get_problem_def found_or_404_def
      create_problem_endpoint_def create_room_endpoint_def join_room_endpoint_def join_room_def
      insert_member_def update_room_code_endpoint_def register_user_def create_user_def Let_def
      split: reply.splits option.splits prod.splits sum.splits if_splits)

lemma on_db_refused:
  "refuses success endpoint \<Longrightarrow> fst (on_db success endpoint d) \<in> refused_codes \<Longrightarrow> snd (on_db success endpoint d) = d"
  by (auto simp: on_db_def refuses_def split: prod.splits) (metis daemon.surjective daemon.update_convs(5) fst_conv snd_conv)

lemma behind_refused:
  assumes "\<And>u. fst (endpoint u d) \<in> refused_codes \<Longrightarrow> snd (endpoint u d) = d"
  shows "fst (as_user st ca endpoint d) \<in> refused_codes \<Longrightarrow> snd (as_user st ca endpoint d) = d"
    "fst (as_admin st ca endpoint d) \<in> refused_codes \<Longrightarrow> snd (as_admin st ca endpoint d) = d"
  using assms by (auto simp: as_user_def as_admin_def get_current_admin_user_def split: reply.splits if_splits)

lemma on_db_behind_refused:
  assumes "\<And>u. refuses success (endpoint u)"
  shows "fst (as_user st ca (\<lambda>u. on_db success (endpoint u)) d) \<in> refused_codes \<Longrightarrow>
      snd (as_user st ca (\<lambda>u. on_db success (endpoint u)) d) = d"
    "fst (as_admin st ca (\<lambda>u. on_db success (endpoint u)) d) \<in> refused_codes \<Longrightarrow>
      snd (as_admin st ca (\<lambda>u. on_db success (endpoint u)) d) = d"
  using behind_refused [of "\<lambda>u. on_db success (endpoint u)" d st ca] on_db_refused [OF assms] by blast+

text \<open>The two endpoints that do more than write rows.\<close>

lemma submission_refused:
  assumes "fst (serve_submission st ca sub_in up d) \<in> refused_codes"
  shows "snd (serve_submission st ca sub_in up d) = d"
  unfolding serve_submission_def
  by (rule behind_refused(1) [OF _ assms [unfolded serve_submission_def]])
    (auto simp: submit_code_def refused_codes_def split: prod.splits if_splits)

lemma grading_refused:
  assumes "fst (serve_grading st ca i g d) \<in> refused_codes"
  shows "snd (serve_grading st ca i g d) = d"
  unfolding serve_grading_def
  by (rule behind_refused(1) [OF _ assms [unfolded serve_grading_def]])
    (auto simp: submit_for_grading_def refused_codes_def split: prod.splits option.splits sum.splits if_splits)

lemma handle_request_refused:
  assumes "fst (handle_request st ca rq d) \<in> refused_codes"
  shows "snd (handle_request st ca rq d) = d"
proof (cases rq)
  case (Register uc)
  then show ?thesis
    using assms on_db_refused [OF refuses_endpoints(7)] by (auto simp: serve_registration_def split: if_splits)
next
  case (Submit_Code sub_in up)
  then show ?thesis using assms submission_refused by simp
next
  case (Submit_Problem i g)
  then show ?thesis using assms grading_refused by simp
next
  case (List_Problems x y z)
  then show ?thesis using assms on_db_behind_refused(1) [OF refuses_endpoints(1)] by simp
next
  case (Get_Problem i)
  then show ?thesis using assms on_db_behind_refused(1) [OF refuses_endpoints(2)] by simp
next
  case (Create_Problem p)
  then show ?thesis using assms on_db_behind_refused(2) [OF refuses_endpoints(3)] by simp
next
  case (Create_Room r)
  then show ?thesis using assms on_db_behind_refused(1) [OF refuses_endpoints(4)] by simp
next
  case (Join_Room i)
  then show ?thesis using assms on_db_behind_refused(1) [OF refuses_endpoints(5)] by simp
next
  case (Update_Room i c)
  then show ?thesis using assms on_db_behind_refused(1) [OF refuses_endpoints(6)] by simp
qed

text \<open>An owner reads a stored row.\<close>

lemma own_row_got:
  assumes "distinct (map sb_id (db_submissions db))" "s \<in> set (db_submissions db)" "sb_user_id s = us_id u"
  shows "get_submission db (sb_id s) u = Reply (Some s)"
proof -
  have "filter (\<lambda>t. sb_id t = sb_id s \<and> may_read u t) (db_submissions db) =
      filter (may_read u) (filter (\<lambda>t. sb_id t = sb_id s) (db_submissions db))"
    by (simp only: filter_filter)
  then show ?thesis
    using assms(3) filter_unique [OF assms(1,2)] by (simp add: get_submission_def may_read_def)
qed

lemma own_row_read:
  assumes "distinct (map sb_id (db_submissions db))" "s \<in> set (db_submissions db)" "sb_user_id s = us_id u"
  shows "get_submission_details db (sb_id s) u = Reply s"
  using own_row_got [OF assms] by (simp add: get_submission_details_def)

text \<open>The state right after an accepted submission.\<close>

lemma submission_accepted:
  assumes "backend_inv (sy_worker sy)" "draws_fresh (ca_fresh ca) (dm_db (sy_worker sy))"
    and "headers_ok (ca_trace ca)" "submitted_text sub_in"
    and "serve st ca (Submit_Code sub_in up) sy = (202, sy1)"
  obtains u row where "get_current_user (si_jwt st) (ca_now ca) (ca_token ca) (dm_db (sy_worker sy)) = Reply u"
    and "row \<in> set (db_submissions (dm_db (sy_worker sy1)))" "sb_id row = ca_fresh ca 0" "sb_user_id row = us_id u"
    and "sb_source_code row = sc_source_code sub_in" "sb_language row = sc_language sub_in"
    and "sb_stdin_data row = sc_stdin_data sub_in"
    and "settled (si_worker st) (ca_fresh ca 0) (length (dm_queue (sy_worker sy1))) (sy_worker sy1)"
    and "served (sy_worker sy) (sy_worker sy1)"
proof -
  let ?d = "sy_worker sy" and ?i = "ca_fresh ca 0"
  have h: "fst (handle_request st ca (Submit_Code sub_in up) ?d) = 202"
      "sy_worker sy1 = snd (handle_request st ca (Submit_Code sub_in up) ?d)"
    by (cases rule: serve_worker [of st ca "Submit_Code sub_in up" sy]; use assms(5) in simp)+
  obtain u where u: "get_current_user (si_jwt st) (ca_now ca) (ca_token ca) (dm_db ?d) = Reply u"
    using h(1) by (auto simp: serve_submission_def as_user_def dest: current_user_errors split: reply.splits)
  obtain r db ps where s: "submit_code (si_show_float st) (si_python_exe st) (si_registry st) up (ca_trace ca)
      ?i (ca_now ca) u sub_in (dm_db ?d) = (r, db, ps)" by (metis prod_cases3)
  have h': "status_code 202 r = 202" "sy_worker sy1 = fold enqueue ps (?d\<lparr>dm_db := db\<rparr>)"
    using h s u by (simp_all add: serve_submission_def as_user_def)
  obtain row payload where v: "submission_create_valid sub_in" and c: "create_submission (si_show_float st)
      (ca_trace ca) ?i (ca_now ca) (us_id u) sub_in (dm_db ?d) = (row, db, payload)" and ps: "ps = [payload]"
    using s h'(1) by (cases rule: submit_cases) auto
  note row = created_row [OF c]
  have w1: "sy_worker sy1 = ?d\<lparr>dm_db := db, dm_queue := payload # dm_queue ?d\<rparr>"
    using h'(2) ps by (simp add: enqueue_def)
  have q: "dm_queue (sy_worker sy1) = [] @ payload # dm_queue ?d"
    "length (dm_queue ?d) < length (dm_queue (sy_worker sy1))"
    and mem: "row \<in> set (db_submissions (dm_db (sy_worker sy1)))" using w1 row(1) by simp_all
  have "carries payload row" by (rule payload_carries [OF v assms(4,3) fresh_facts(3) [OF assms(2)] c])
  then have "settled (si_worker st) ?i (length (dm_queue (sy_worker sy1))) (sy_worker sy1)"
    using q mem row(2) unfolding settled_def by blast
  moreover have "served ?d (sy_worker sy1)"
    using served_submission [OF assms(1-4), of st up] h(2) by simp
  ultimately show ?thesis using that u mem row by blast
qed

lemma kept_row:
  assumes "keeps db db'" "s \<in> set (db_submissions db)" "distinct (map sb_id (db_submissions db'))"
    and "t \<in> set (db_submissions db')" "sb_id t = sb_id s"
  shows "row_core t = row_core s"
proof -
  have "row_core s \<in> set (map row_core (db_submissions db'))"
    using assms(1,2) set_mono_prefix unfolding keeps_def by fastforce
  then obtain t' where t': "t' \<in> set (db_submissions db')" "row_core t' = row_core s" by auto
  then have "sb_id t' = sb_id t" using assms(5) row_core_simps(1) by metis
  then have "t' = t" using assms(3,4) t'(1) by (auto simp: distinct_map inj_on_def)
  then show ?thesis using t'(2) by simp
qed

end
