(* ===== verification/Routing.thy ===== *)
theory Routing
  imports Backend_System
begin

text \<open>
  The front door of the backend: the routers of backend/app/api/v1/endpoints with their
  prefixes (api/v1/router.py, main.py), in the order they are registered.  A path is given
  by its segments.  The framework tries the routes in order; a path that only matches routes
  of other methods is answered with 405, one that matches none with 404.
\<close>

section \<open>Routes\<close>

datatype http_method = GET | POST | PATCH | WEBSOCKET

datatype segment = Fixed string | Param string

text \<open>The dependencies of an endpoint: nobody, an account, an administrator, or the token a
  WebSocket carries in its query.\<close>

datatype guard = Anyone | Account | Administrator | Query_Token

record route =
  rt_method :: http_method
  rt_path :: "segment list"
  rt_endpoint :: string
  rt_guard :: guard
  rt_status :: nat
  rt_limited :: bool

definition on :: "http_method \<Rightarrow> segment list \<Rightarrow> string \<Rightarrow> guard \<Rightarrow> nat \<Rightarrow> route" where
  "on m p e g s =
     \<lparr>rt_method = m, rt_path = p, rt_endpoint = e, rt_guard = g, rt_status = s, rt_limited = False\<rparr>"

definition include_router :: "segment list \<Rightarrow> route list \<Rightarrow> route list" where
  "include_router base rs = map (\<lambda>r. r\<lparr>rt_path := base @ rt_path r\<rparr>) rs"

definition health_router :: "route list" where
  "health_router = [on GET [Fixed ''health''] ''health_check'' Anyone 200]"

definition metrics_router :: "route list" where
  "metrics_router = [on GET [] ''scrape_metrics'' Anyone 200]"

definition languages_router :: "route list" where
  "languages_router = [on GET [] ''list_supported_languages'' Anyone 200]"

definition problems_router :: "route list" where
  "problems_router =
     [on GET [] ''list_problems'' Account 200,
      on GET [Param ''identifier''] ''get_problem'' Account 200,
      on POST [] ''create_problem'' Administrator 201,
      on POST [Param ''identifier'', Fixed ''submit''] ''submit_for_grading'' Account 200,
      on GET [Fixed ''submissions'', Param ''submission_id'', Fixed ''grading''] ''get_grading_result'' Account 200]"

definition rooms_router :: "route list" where
  "rooms_router =
     [on POST [] ''create_room'' Account 201,
      on GET [] ''list_rooms'' Anyone 200,
      on GET [Param ''room_id''] ''get_room'' Account 200,
      on POST [Param ''room_id'', Fixed ''join''] ''join_room'' Account 200,
      on PATCH [Param ''room_id'', Fixed ''code''] ''update_room_code'' Account 200]"

definition auth_router :: "route list" where
  "auth_router =
     [on POST [Fixed ''register''] ''register'' Anyone 201,
      on POST [Fixed ''login''] ''login'' Anyone 200,
      on POST [Fixed ''login'', Fixed ''json''] ''login_json'' Anyone 200,
      on GET [Fixed ''me''] ''get_current_user_profile'' Account 200]"

definition submissions_router :: "route list" where
  "submissions_router =
     [(on POST [] ''submit_code'' Account 202)\<lparr>rt_limited := True\<rparr>,
      on GET [] ''list_user_submissions'' Account 200,
      on GET [Param ''submission_id''] ''get_submission_details'' Account 200]"

definition ws_router :: "route list" where
  "ws_router =
     [on WEBSOCKET [Fixed ''submissions'', Param ''submission_id''] ''websocket_stream_submission'' Query_Token 101,
      on WEBSOCKET [Fixed ''rooms'', Param ''room_id''] ''websocket_collaborative_room'' Query_Token 101]"

definition api_router :: "route list" where
  "api_router =
     health_router @
     include_router [Fixed ''metrics''] metrics_router @
     include_router [Fixed ''languages''] languages_router @
     include_router [Fixed ''problems''] problems_router @
     include_router [Fixed ''rooms''] rooms_router @
     include_router [Fixed ''auth''] auth_router @
     include_router [Fixed ''submissions''] submissions_router"

text \<open>The pages of the framework come first; \<open>API_V1_STR\<close> is \<open>/api/v1\<close>.\<close>

definition api_v1 :: "segment list" where
  "api_v1 = [Fixed ''api'', Fixed ''v1'']"

definition app_routes :: "route list" where
  "app_routes =
     [on GET (api_v1 @ [Fixed ''openapi.json'']) ''openapi'' Anyone 200,
      on GET [Fixed ''docs''] ''docs'' Anyone 200,
      on GET [Fixed ''redoc''] ''redoc'' Anyone 200] @
     include_router api_v1 api_router @
     include_router [Fixed ''ws'', Fixed ''v1''] ws_router @
     include_router [Fixed ''metrics''] metrics_router @
     [on GET [] ''root_index'' Anyone 200]"

section \<open>Dispatch\<close>

text \<open>A parameter takes one segment that is not empty.\<close>

fun path_matches :: "segment list \<Rightarrow> string list \<Rightarrow> bool" where
  "path_matches [] [] = True"
| "path_matches (Fixed s # ps) (x # xs) = (x = s \<and> path_matches ps xs)"
| "path_matches (Param n # ps) (x # xs) = (x \<noteq> [] \<and> path_matches ps xs)"
| "path_matches _ _ = False"

datatype dispatched = To route | Method_Not_Allowed | Not_Found

definition dispatch :: "route list \<Rightarrow> http_method \<Rightarrow> string list \<Rightarrow> dispatched" where
  "dispatch rs m xs =
     (case filter (\<lambda>r. rt_method r = m \<and> path_matches (rt_path r) xs) rs of
        r # _ \<Rightarrow> To r
      | [] \<Rightarrow>
          if m \<noteq> WEBSOCKET \<and> list_ex (\<lambda>r. rt_method r \<noteq> WEBSOCKET \<and> path_matches (rt_path r) xs) rs
          then Method_Not_Allowed else Not_Found)"

text \<open>Two paths overlap if some request matches both.\<close>

fun overlap :: "segment list \<Rightarrow> segment list \<Rightarrow> bool" where
  "overlap [] [] = True"
| "overlap (Fixed s # ps) (Fixed t # qs) = (s = t \<and> overlap ps qs)"
| "overlap (p # ps) (q # qs) = overlap ps qs"
| "overlap _ _ = False"

lemma overlap_complete: "path_matches p xs \<Longrightarrow> path_matches q xs \<Longrightarrow> overlap p q"
proof (induction p xs arbitrary: q rule: path_matches.induct)
  case (2 s ps x xs)
  then show ?case by (cases q rule: list.exhaust) (auto elim: segment.exhaust path_matches.elims)
next
  case (3 n ps x xs)
  then show ?case by (cases q rule: list.exhaust) (auto elim: path_matches.elims)
qed (auto elim: path_matches.elims)

definition apart :: "route \<Rightarrow> route \<Rightarrow> bool" where
  "apart r s \<longleftrightarrow> rt_method r \<noteq> rt_method s \<or> \<not> overlap (rt_path r) (rt_path s)"

fun pairwise_apart :: "route list \<Rightarrow> bool" where
  "pairwise_apart [] = True"
| "pairwise_apart (r # rs) = (list_all (apart r) rs \<and> pairwise_apart rs)"

lemma apart_sym: "apart r s \<Longrightarrow> apart s r"
proof -
  have "overlap p q = overlap q p" for p q by (induction p q rule: overlap.induct) auto
  then show "apart r s \<Longrightarrow> apart s r" by (auto simp: apart_def)
qed

lemma dispatch_unique:
  assumes "pairwise_apart rs" "r \<in> set rs" "path_matches (rt_path r) xs"
  shows "filter (\<lambda>s. rt_method s = rt_method r \<and> path_matches (rt_path s) xs) rs = [r]"
  using assms
proof (induction rs)
  case (Cons a rs)
  have no: "\<not> (rt_method s = rt_method r' \<and> path_matches (rt_path s) xs)"
    if "apart r' s" "path_matches (rt_path r') xs" for r' s
    using that overlap_complete by (auto simp: apart_def)
  show ?case
  proof (cases "a = r")
    case True
    then have "filter (\<lambda>s. rt_method s = rt_method r \<and> path_matches (rt_path s) xs) rs = []"
      using Cons.prems no by (auto simp: filter_empty_conv list_all_iff)
    then show ?thesis using True Cons.prems(3) by simp
  next
    case False
    then have "r \<in> set rs" "apart r a"
      using Cons.prems(1,2) by (auto simp: list_all_iff intro: apart_sym)
    then show ?thesis using Cons no [of r a] by auto
  qed
qed simp

section \<open>Which route serves a request\<close>

fun route_of :: "request \<Rightarrow> string" where
  "route_of (Register uc) = ''register''"
| "route_of (Submit_Code sub_in queue_up) = ''submit_code''"
| "route_of (List_Problems difficulty skip limit) = ''list_problems''"
| "route_of (Get_Problem identifier) = ''get_problem''"
| "route_of (Create_Problem problem_in) = ''create_problem''"
| "route_of (Submit_Problem identifier g) = ''submit_for_grading''"
| "route_of (Create_Room room_in) = ''create_room''"
| "route_of (Join_Room room_id) = ''join_room''"
| "route_of (Update_Room room_id code) = ''update_room_code''"

definition served_by :: "request \<Rightarrow> route \<Rightarrow> bool" where
  "served_by rq r \<longleftrightarrow> r \<in> set app_routes \<and> rt_endpoint r = route_of rq"

text \<open>What the guard of a route asks of a call, as the code of its refusal.\<close>

definition guard_refusal :: "guard \<Rightarrow> ('w, 'r) site \<Rightarrow> call \<Rightarrow> database \<Rightarrow> nat option" where
  "guard_refusal g st ca db =
     (case g of
        Account \<Rightarrow>
          (case get_current_user (si_jwt st) (ca_now ca) (ca_token ca) db of
             Reply u \<Rightarrow> None | r \<Rightarrow> Some (status_code 200 r))
      | Administrator \<Rightarrow>
          (case get_current_admin_user (si_jwt st) (ca_now ca) (ca_token ca) db of
             Reply u \<Rightarrow> None | r \<Rightarrow> Some (status_code 200 r))
      | _ \<Rightarrow> None)"

definition row_ok :: "string \<Rightarrow> bool \<Rightarrow> guard \<Rightarrow> nat \<Rightarrow> bool" where
  "row_ok e limited' g code \<longleftrightarrow>
     list_all (\<lambda>r. if rt_endpoint r = e then rt_limited r = limited' \<and> rt_guard r = g \<and> rt_status r = code
                   else True) app_routes"

lemma rows:
  "row_ok ''register'' False Anyone 201" "row_ok ''submit_code'' True Account 202"
  "row_ok ''list_problems'' False Account 200" "row_ok ''get_problem'' False Account 200"
  "row_ok ''create_problem'' False Administrator 201" "row_ok ''submit_for_grading'' False Account 200"
  "row_ok ''create_room'' False Account 201" "row_ok ''join_room'' False Account 200"
  "row_ok ''update_room_code'' False Account 200"
  by code_simp+

lemma row_read:
  "row_ok e l g code \<Longrightarrow> r \<in> set app_routes \<Longrightarrow> rt_endpoint r = e \<Longrightarrow>
   rt_limited r = l \<and> rt_guard r = g \<and> rt_status r = code"
  by (auto simp: row_ok_def list_all_iff split: if_splits)

lemma served_by_row:
  assumes "served_by rq r"
  shows "rt_limited r = limited rq \<and>
    rt_guard r = (case rq of Register uc \<Rightarrow> Anyone | Create_Problem p \<Rightarrow> Administrator | _ \<Rightarrow> Account) \<and>
    rt_status r = (case rq of Submit_Code a b \<Rightarrow> 202 | Register uc \<Rightarrow> 201 | Create_Problem p \<Rightarrow> 201 |
       Create_Room rm \<Rightarrow> 201 | _ \<Rightarrow> 200)"
  using assms rows [THEN row_read, of r] unfolding served_by_def by (cases rq) simp_all

text \<open>Every error of an endpoint is at least 400.\<close>

definition plain_errors :: "'a reply \<Rightarrow> bool" where
  "plain_errors r \<longleftrightarrow> (\<forall>c m. r = Http_Error c m \<longrightarrow> 400 \<le> c)"

lemma plain_status: "plain_errors r \<Longrightarrow> status_code success r < 400 \<Longrightarrow> status_code success r = success"
  by (cases r) (auto simp: plain_errors_def)

lemma plain_current_user: "plain_errors (get_current_user jw now tok db)" "plain_errors (get_current_admin_user jw now tok db)"
  by (auto simp: plain_errors_def get_current_admin_user_def get_current_user_def credentials_exception_def
      one_or_none_def split: option.splits json.splits reply.splits if_splits list.splits)

lemma plain_endpoints:
  "plain_errors (fst (register_user bc salt j uc db))"
  "plain_errors (fst (submit_code sf py reg up trace j now u sub_in db))"
  "plain_errors (fst (list_problems_endpoint fresh now difficulty skip limit db))"
  "plain_errors (fst (get_problem fresh now i u db))"
  "plain_errors (fst (create_problem_endpoint fresh now problem_in db))"
  "plain_errors (fst (submit_for_grading fmt exec fresh now i g u db w))"
  "plain_errors (fst (create_room_endpoint fresh now u room_in db))"
  "plain_errors (fst (join_room_endpoint j room_id u db))"
  "plain_errors (fst (update_room_code_endpoint room_id code db))"
proof -
  have f: "get_problem_by_id_or_slug db i b \<noteq> Http_Error c m" for db i b c m
    by (auto simp: get_problem_by_id_or_slug_def find_problem_def one_or_none_def
        split: reply.splits option.splits if_splits list.splits)
  show "plain_errors (fst (register_user bc salt j uc db))"
    "plain_errors (fst (submit_code sf py reg up trace j now u sub_in db))"
    "plain_errors (fst (list_problems_endpoint fresh now difficulty skip limit db))"
    "plain_errors (fst (get_problem fresh now i u db))"
    "plain_errors (fst (create_problem_endpoint fresh now problem_in db))"
    "plain_errors (fst (submit_for_grading fmt exec fresh now i g u db w))"
    "plain_errors (fst (create_room_endpoint fresh now u room_in db))"
    "plain_errors (fst (join_room_endpoint j room_id u db))"
    "plain_errors (fst (update_room_code_endpoint room_id code db))"
    using f
    by (auto simp: plain_errors_def register_user_def create_user_def submit_code_def list_problems_endpoint_def
        list_problems_def get_problem_def found_or_404_def create_problem_endpoint_def submit_for_grading_def
        create_room_endpoint_def join_room_endpoint_def join_room_def insert_member_def
        update_room_code_endpoint_def Let_def
        split: reply.splits option.splits prod.splits sum.splits if_splits)
qed

lemma plain_triple: "plain_errors (fst x) \<Longrightarrow> x = (r, y) \<Longrightarrow> status_code c r < 400 \<Longrightarrow> status_code c r = c"
  using plain_status by force

lemma guarded_success:
  assumes "\<And>u. fst (endpoint u d) < 400 \<Longrightarrow> fst (endpoint u d) = c"
  shows "fst (as_user st ca endpoint d) < 400 \<Longrightarrow> fst (as_user st ca endpoint d) = c"
    "fst (as_admin st ca endpoint d) < 400 \<Longrightarrow> fst (as_admin st ca endpoint d) = c"
  using assms plain_current_user [of "si_jwt st" "ca_now ca" "ca_token ca" "dm_db d"]
  by (auto simp: as_user_def as_admin_def plain_errors_def split: reply.splits)

lemma on_db_success:
  "plain_errors (fst (endpoint (dm_db d))) \<Longrightarrow> fst (on_db c endpoint d) < 400 \<Longrightarrow> fst (on_db c endpoint d) = c"
  using plain_status [of "fst (endpoint (dm_db d))" c] by (auto simp: on_db_def split: prod.splits)

lemma handle_success:
  assumes "served_by rq r" "fst (handle_request st ca rq d) < 400"
  shows "fst (handle_request st ca rq d) = rt_status r"
proof -
  note row = served_by_row [OF assms(1)]
  note ok = guarded_success [OF on_db_success [OF plain_endpoints(3)]]
    guarded_success [OF on_db_success [OF plain_endpoints(4)]]
    guarded_success [OF on_db_success [OF plain_endpoints(5)]]
    guarded_success [OF on_db_success [OF plain_endpoints(7)]]
    guarded_success [OF on_db_success [OF plain_endpoints(8)]]
    guarded_success [OF on_db_success [OF plain_endpoints(9)]]
  show ?thesis
  proof (cases rq)
    case (Register uc)
    then show ?thesis
      using assms(2) row on_db_success [OF plain_endpoints(1)] by (auto simp: serve_registration_def split: if_splits)
  next
    case (Submit_Code sub_in up)
    have "fst (serve_submission st ca sub_in up d) = 202" if "fst (serve_submission st ca sub_in up d) < 400"
      using that unfolding serve_submission_def
      by (rule guarded_success(1) [rotated]) (auto split: prod.splits dest: plain_triple [OF plain_endpoints(2)])
    then show ?thesis using assms(2) row Submit_Code by simp
  next
    case (Submit_Problem i g)
    have "fst (serve_grading st ca i g d) = 200" if "fst (serve_grading st ca i g d) < 400"
      using that unfolding serve_grading_def
      by (rule guarded_success(1) [rotated]) (auto split: prod.splits dest: plain_triple [OF plain_endpoints(6)])
    then show ?thesis using assms(2) row Submit_Problem by simp
  qed (use assms(2) row ok in simp_all)
qed

lemma handle_refusal:
  assumes "served_by rq r" "guard_refusal (rt_guard r) st ca (dm_db d) = Some c"
  shows "handle_request st ca rq d = (c, d)"
proof -
  have g: "rt_guard r = (case rq of Register uc \<Rightarrow> Anyone | Create_Problem p \<Rightarrow> Administrator | _ \<Rightarrow> Account)"
    using served_by_row [OF assms(1)] by simp
  have "as_user st ca ep d = (c, d)" if "rt_guard r = Account" for ep
    using assms(2) that by (auto simp: guard_refusal_def as_user_def split: reply.splits)
  moreover have "as_admin st ca ep d = (c, d)" if "rt_guard r = Administrator" for ep
    using assms(2) that by (auto simp: guard_refusal_def as_admin_def split: reply.splits)
  ultimately show ?thesis
    using g assms(2) by (cases rq) (simp_all add: guard_refusal_def serve_submission_def serve_grading_def)
qed

section \<open>Properties\<close>

lemma routes_apart: "pairwise_apart app_routes"
  by code_simp



text \<open>The listing of rooms asks for no account although the page of a room does, and its items
  carry the shared source: anybody reads the code of every active room.\<close>

lemma rooms_listed_to_anyone:
  assumes "room \<in> set (db_rooms db)" "ro_is_active room"
  shows "dispatch app_routes GET [''api'', ''v1'', ''rooms''] = To (on GET (api_v1 @ [Fixed ''rooms'']) ''list_rooms'' Anyone 200)"
    and "\<exists>page rows n. list_rooms_endpoint db page 50 = Reply (rows, n) \<and>
      ro_current_code room \<in> ro_current_code ` set rows"
proof -
  show "dispatch app_routes GET [''api'', ''v1'', ''rooms''] = To (on GET (api_v1 @ [Fixed ''rooms'']) ''list_rooms'' Anyone 200)"
    by code_simp
  let ?rows = "sort_key (\<lambda>r. - ro_created_at r) (filter ro_is_active (db_rooms db))"
  have "concat (map (\<lambda>p. page_of (int p + 1) 50 ?rows) [0..<length ?rows]) = ?rows"
    using pages_all [of 50 ?rows "length ?rows"] by simp
  moreover have "room \<in> set ?rows" using assms by simp
  ultimately have "room \<in> set (concat (map (\<lambda>p. page_of (int p + 1) 50 ?rows) [0..<length ?rows]))" by metis
  then obtain p :: nat where "room \<in> set (page_of (int p + 1) 50 ?rows)" by auto
  then show "\<exists>page rows n. list_rooms_endpoint db page 50 = Reply (rows, n) \<and>
      ro_current_code room \<in> ro_current_code ` set rows"
    by (intro exI [of _ "int p + 1"]) (auto simp: list_rooms_endpoint_def list_rooms_def Let_def)
qed

end
