(* ===== verification/Schema_Migrations.thy ===== *)
theory Schema_Migrations
  imports Rooms Problems
begin

text \<open>
  The schema of the database: the migrations of backend/alembic/versions as lists of the
  operations they call, and the tables the models of backend/app/models declare, with the
  columns the mixins of backend/app/db/base.py give each of them.  A schema is the list of
  its tables in the order they were created; an operation is refused, as the database
  refuses it, when what it creates exists or what it needs does not.
\<close>

section \<open>Schemas\<close>

datatype column_type =
  UUID_T | String_T nat | Text_T | Boolean_T | Integer_T | Big_Integer_T | Date_Time_TZ_T | JSON_T

record column =
  co_name :: string
  co_type :: column_type
  co_nullable :: bool
  co_server_default :: "string option"

datatype on_delete = CASCADE | SET_NULL

record foreign_key =
  fk_name :: "string option"
  fk_column :: string
  fk_table :: string
  fk_target :: string
  fk_on_delete :: on_delete

record index =
  ix_name :: string
  ix_column :: string
  ix_unique :: bool

record table =
  ta_columns :: "column list"
  ta_primary_key :: "string list"
  ta_foreign_keys :: "foreign_key list"
  ta_indexes :: "index list"

type_synonym schema = "(string \<times> table) list"

section \<open>Operations\<close>

datatype ddl =
    Create_Table string table
  | Drop_Table string
  | Create_Index string index
  | Drop_Index string string
  | Add_Column string column
  | Drop_Column string string
  | Create_Foreign_Key string foreign_key
  | Drop_Constraint string string

definition alter_table :: "string \<Rightarrow> (table \<Rightarrow> table) \<Rightarrow> schema \<Rightarrow> schema" where
  "alter_table n f sch = map (\<lambda>(m, t). (m, if m = n then f t else t)) sch"

definition index_names :: "schema \<Rightarrow> string list" where
  "index_names sch = concat (map (\<lambda>(n, t). map ix_name (ta_indexes t)) sch)"

definition has_column :: "table \<Rightarrow> string \<Rightarrow> bool" where
  "has_column t c \<longleftrightarrow> List.member (map co_name (ta_columns t)) c"

definition constraint_names :: "table \<Rightarrow> string list" where
  "constraint_names t = List.map_filter fk_name (ta_foreign_keys t)"

text \<open>The target of a foreign key is a column of a table that exists or is being created.\<close>

definition target_exists :: "schema \<Rightarrow> foreign_key \<Rightarrow> bool" where
  "target_exists sch fk \<longleftrightarrow>
     (case map_of sch (fk_table fk) of Some t \<Rightarrow> has_column t (fk_target fk) | None \<Rightarrow> False)"

definition referenced :: "schema \<Rightarrow> string \<Rightarrow> bool" where
  "referenced sch n \<longleftrightarrow>
     list_ex (\<lambda>(m, t). m \<noteq> n \<and> list_ex (\<lambda>fk. fk_table fk = n) (ta_foreign_keys t)) sch"

fun apply_ddl :: "ddl \<Rightarrow> schema \<Rightarrow> schema option" where
  "apply_ddl (Create_Table n t) sch =
     (if map_of sch n = None \<and> ta_indexes t = [] \<and> distinct (map co_name (ta_columns t)) \<and>
         distinct (constraint_names t) \<and> list_all (has_column t) (ta_primary_key t) \<and>
         list_all (\<lambda>fk. has_column t (fk_column fk) \<and> target_exists ((n, t) # sch) fk) (ta_foreign_keys t)
      then Some (sch @ [(n, t)]) else None)"
| "apply_ddl (Drop_Table n) sch =
     (if map_of sch n = None \<or> referenced sch n then None else Some (filter (\<lambda>(m, t). m \<noteq> n) sch))"
| "apply_ddl (Create_Index n ix) sch =
     (case map_of sch n of
        None \<Rightarrow> None
      | Some t \<Rightarrow>
          if List.member (index_names sch) (ix_name ix) \<or> \<not> has_column t (ix_column ix) then None
          else Some (alter_table n (\<lambda>t. t\<lparr>ta_indexes := ta_indexes t @ [ix]\<rparr>) sch))"
| "apply_ddl (Drop_Index n i) sch =
     (case map_of sch n of
        None \<Rightarrow> None
      | Some t \<Rightarrow>
          if \<not> List.member (map ix_name (ta_indexes t)) i then None
          else Some (alter_table n (\<lambda>t. t\<lparr>ta_indexes := filter (\<lambda>ix. ix_name ix \<noteq> i) (ta_indexes t)\<rparr>) sch))"
| "apply_ddl (Add_Column n c) sch =
     (case map_of sch n of
        None \<Rightarrow> None
      | Some t \<Rightarrow>
          if has_column t (co_name c) then None
          else Some (alter_table n (\<lambda>t. t\<lparr>ta_columns := ta_columns t @ [c]\<rparr>) sch))"
| "apply_ddl (Drop_Column n c) sch =
     (case map_of sch n of
        None \<Rightarrow> None
      | Some t \<Rightarrow>
          if \<not> has_column t c \<or> list_ex (\<lambda>ix. ix_column ix = c) (ta_indexes t) \<or>
             list_ex (\<lambda>fk. fk_column fk = c) (ta_foreign_keys t) \<or> List.member (ta_primary_key t) c \<or>
             list_ex (\<lambda>(m, u). list_ex (\<lambda>fk. fk_table fk = n \<and> fk_target fk = c) (ta_foreign_keys u)) sch
          then None
          else Some (alter_table n (\<lambda>t. t\<lparr>ta_columns := filter (\<lambda>d. co_name d \<noteq> c) (ta_columns t)\<rparr>) sch))"
| "apply_ddl (Create_Foreign_Key n fk) sch =
     (case map_of sch n of
        None \<Rightarrow> None
      | Some t \<Rightarrow>
          if fk_name fk = None \<or> List.member (constraint_names t) (the (fk_name fk)) \<or>
             \<not> has_column t (fk_column fk) \<or> \<not> target_exists sch fk
          then None
          else Some (alter_table n (\<lambda>t. t\<lparr>ta_foreign_keys := ta_foreign_keys t @ [fk]\<rparr>) sch))"
| "apply_ddl (Drop_Constraint n k) sch =
     (case map_of sch n of
        None \<Rightarrow> None
      | Some t \<Rightarrow>
          if \<not> List.member (constraint_names t) k then None
          else Some (alter_table n (\<lambda>t. t\<lparr>ta_foreign_keys :=
                 filter (\<lambda>fk. fk_name fk \<noteq> Some k) (ta_foreign_keys t)\<rparr>) sch))"

text \<open>A migration runs in one transaction: one refused operation leaves the schema as it was.\<close>

fun run_ddl :: "ddl list \<Rightarrow> schema \<Rightarrow> schema option" where
  "run_ddl [] sch = Some sch"
| "run_ddl (op # ops) sch = (case apply_ddl op sch of None \<Rightarrow> None | Some sch' \<Rightarrow> run_ddl ops sch')"

section \<open>The migrations\<close>

definition required :: "string \<Rightarrow> column_type \<Rightarrow> column" where
  "required n ty = \<lparr>co_name = n, co_type = ty, co_nullable = False, co_server_default = None\<rparr>"

definition required_or :: "string \<Rightarrow> column_type \<Rightarrow> string \<Rightarrow> column" where
  "required_or n ty d = \<lparr>co_name = n, co_type = ty, co_nullable = False, co_server_default = Some d\<rparr>"

definition optional :: "string \<Rightarrow> column_type \<Rightarrow> column" where
  "optional n ty = \<lparr>co_name = n, co_type = ty, co_nullable = True, co_server_default = None\<rparr>"

definition cascade_to :: "string \<Rightarrow> string \<Rightarrow> foreign_key" where
  "cascade_to c tab =
     \<lparr>fk_name = None, fk_column = c, fk_table = tab, fk_target = ''id'', fk_on_delete = CASCADE\<rparr>"

definition new_table :: "column list \<Rightarrow> foreign_key list \<Rightarrow> table" where
  "new_table cs fks = \<lparr>ta_columns = cs, ta_primary_key = [''id''], ta_foreign_keys = fks, ta_indexes = []\<rparr>"

definition on_column :: "string \<Rightarrow> string \<Rightarrow> bool \<Rightarrow> index" where
  "on_column n c u = \<lparr>ix_name = n, ix_column = c, ix_unique = u\<rparr>"

record migration =
  mi_revision :: string
  mi_down_revision :: "string option"
  mi_upgrade :: "ddl list"
  mi_downgrade :: "ddl list"

definition upgrade_001 :: "ddl list" where
  "upgrade_001 =
     [Create_Table ''users'' (new_table
        [required ''id'' UUID_T, required ''username'' (String_T 50), required ''email'' (String_T 255),
         required ''hashed_password'' (String_T 255), required_or ''role'' (String_T 20) ''student'',
         required_or ''is_active'' Boolean_T ''true'', required ''created_at'' Date_Time_TZ_T,
         required ''updated_at'' Date_Time_TZ_T] []),
      Create_Index ''users'' (on_column ''ix_users_email'' ''email'' True),
      Create_Index ''users'' (on_column ''ix_users_username'' ''username'' True),
      Create_Table ''submissions'' (new_table
        [required ''id'' UUID_T, required ''user_id'' UUID_T,
         required_or ''language'' (String_T 30) ''python'', required ''source_code'' Text_T,
         optional ''stdin_data'' Text_T, required_or ''status'' (String_T 30) ''PENDING'',
         optional ''exit_code'' Integer_T, optional ''execution_time_ms'' Integer_T,
         optional ''peak_memory_bytes'' Big_Integer_T, optional ''output_summary'' Text_T,
         required_or ''telemetry'' JSON_T ''{}'', required ''created_at'' Date_Time_TZ_T,
         required ''updated_at'' Date_Time_TZ_T]
        [cascade_to ''user_id'' ''users'']),
      Create_Index ''submissions'' (on_column ''ix_submissions_user_id'' ''user_id'' False),
      Create_Index ''submissions'' (on_column ''ix_submissions_status'' ''status'' False)]"

definition downgrade_001 :: "ddl list" where
  "downgrade_001 =
     [Drop_Index ''submissions'' ''ix_submissions_status'',
      Drop_Index ''submissions'' ''ix_submissions_user_id'',
      Drop_Table ''submissions'',
      Drop_Index ''users'' ''ix_users_username'',
      Drop_Index ''users'' ''ix_users_email'',
      Drop_Table ''users'']"

definition upgrade_002 :: "ddl list" where
  "upgrade_002 =
     [Create_Table ''problems'' (new_table
        [required ''id'' UUID_T, required ''title'' (String_T 200), required ''slug'' (String_T 220),
         required ''description'' Text_T, required_or ''difficulty'' (String_T 20) ''EASY'',
         required_or ''time_limit_ms'' Integer_T ''2000'', required_or ''memory_limit_mb'' Integer_T ''128'',
         required_or ''is_published'' Boolean_T ''true'', required ''created_at'' Date_Time_TZ_T,
         required ''updated_at'' Date_Time_TZ_T] []),
      Create_Index ''problems'' (on_column ''ix_problems_slug'' ''slug'' True),
      Create_Table ''test_cases'' (new_table
        [required ''id'' UUID_T, required ''problem_id'' UUID_T, required ''input_data'' Text_T,
         required ''expected_output'' Text_T, required_or ''is_hidden'' Boolean_T ''false'',
         required_or ''weight'' Integer_T ''10'', required_or ''order'' Integer_T ''1'',
         optional ''explanation'' Text_T, required ''created_at'' Date_Time_TZ_T,
         required ''updated_at'' Date_Time_TZ_T]
        [cascade_to ''problem_id'' ''problems'']),
      Create_Index ''test_cases'' (on_column ''ix_test_cases_problem_id'' ''problem_id'' False),
      Add_Column ''submissions'' (optional ''problem_id'' UUID_T),
      Add_Column ''submissions'' (optional ''score'' Integer_T),
      Add_Column ''submissions'' (optional ''max_score'' Integer_T),
      Add_Column ''submissions'' (optional ''grading_status'' (String_T 40)),
      Create_Foreign_Key ''submissions''
        \<lparr>fk_name = Some ''fk_submissions_problem_id'', fk_column = ''problem_id'', fk_table = ''problems'',
         fk_target = ''id'', fk_on_delete = SET_NULL\<rparr>,
      Create_Index ''submissions'' (on_column ''ix_submissions_problem_id'' ''problem_id'' False)]"

definition downgrade_002 :: "ddl list" where
  "downgrade_002 =
     [Drop_Index ''submissions'' ''ix_submissions_problem_id'',
      Drop_Constraint ''submissions'' ''fk_submissions_problem_id'',
      Drop_Column ''submissions'' ''grading_status'',
      Drop_Column ''submissions'' ''max_score'',
      Drop_Column ''submissions'' ''score'',
      Drop_Column ''submissions'' ''problem_id'',
      Drop_Index ''test_cases'' ''ix_test_cases_problem_id'',
      Drop_Table ''test_cases'',
      Drop_Index ''problems'' ''ix_problems_slug'',
      Drop_Table ''problems'']"

definition upgrade_003 :: "ddl list" where
  "upgrade_003 =
     [Create_Table ''rooms'' (new_table
        [required ''id'' UUID_T, required ''name'' (String_T 120), required ''owner_id'' UUID_T,
         required_or ''language'' (String_T 30) ''python'', required_or ''current_code'' Text_T '''',
         required_or ''is_active'' Boolean_T ''true'', required_or ''max_members'' Integer_T ''10'',
         required ''created_at'' Date_Time_TZ_T, required ''updated_at'' Date_Time_TZ_T]
        [cascade_to ''owner_id'' ''users'']),
      Create_Index ''rooms'' (on_column ''ix_rooms_owner_id'' ''owner_id'' False),
      Create_Table ''room_members'' (new_table
        [required ''id'' UUID_T, required ''room_id'' UUID_T, required ''user_id'' UUID_T,
         required_or ''role'' (String_T 20) ''editor'', required ''created_at'' Date_Time_TZ_T,
         required ''updated_at'' Date_Time_TZ_T]
        [cascade_to ''room_id'' ''rooms'', cascade_to ''user_id'' ''users'']),
      Create_Index ''room_members'' (on_column ''ix_room_members_room_id'' ''room_id'' False),
      Create_Index ''room_members'' (on_column ''ix_room_members_user_id'' ''user_id'' False)]"

definition downgrade_003 :: "ddl list" where
  "downgrade_003 =
     [Drop_Index ''room_members'' ''ix_room_members_user_id'',
      Drop_Index ''room_members'' ''ix_room_members_room_id'',
      Drop_Table ''room_members'',
      Drop_Index ''rooms'' ''ix_rooms_owner_id'',
      Drop_Table ''rooms'']"

definition migrations :: "migration list" where
  "migrations =
     [\<lparr>mi_revision = ''001_initial_schema'', mi_down_revision = None,
       mi_upgrade = upgrade_001, mi_downgrade = downgrade_001\<rparr>,
      \<lparr>mi_revision = ''002_autograding'', mi_down_revision = Some ''001_initial_schema'',
       mi_upgrade = upgrade_002, mi_downgrade = downgrade_002\<rparr>,
      \<lparr>mi_revision = ''003_collaborative_rooms'', mi_down_revision = Some ''002_autograding'',
       mi_upgrade = upgrade_003, mi_downgrade = downgrade_003\<rparr>]"

section \<open>Undoing\<close>

text \<open>What a table of a sound schema satisfies; \<open>undo\<close> is the inverse of an operation that
  creates something.\<close>

definition table_ok :: "schema \<Rightarrow> table \<Rightarrow> bool" where
  "table_ok sch t \<longleftrightarrow>
     distinct (map co_name (ta_columns t)) \<and> list_all (has_column t) (ta_primary_key t) \<and>
     list_all (\<lambda>fk. has_column t (fk_column fk) \<and> target_exists sch fk) (ta_foreign_keys t) \<and>
     list_all (\<lambda>ix. has_column t (ix_column ix)) (ta_indexes t) \<and> distinct (constraint_names t)"

definition schema_wf :: "schema \<Rightarrow> bool" where
  "schema_wf sch \<longleftrightarrow>
     distinct (map fst sch) \<and> distinct (index_names sch) \<and> list_all (\<lambda>(n, t). table_ok sch t) sch"

fun undo :: "ddl \<Rightarrow> ddl" where
  "undo (Create_Table n t) = Drop_Table n"
| "undo (Create_Index n ix) = Drop_Index n (ix_name ix)"
| "undo (Add_Column n c) = Drop_Column n (co_name c)"
| "undo (Create_Foreign_Key n fk) = Drop_Constraint n (case fk_name fk of Some k \<Rightarrow> k | None \<Rightarrow> [])"
| "undo op = op"

fun creates :: "ddl \<Rightarrow> bool" where
  "creates (Create_Table n t) = True"
| "creates (Create_Index n ix) = True"
| "creates (Add_Column n c) = True"
| "creates (Create_Foreign_Key n fk) = True"
| "creates op = False"

lemma map_of_alter [simp]:
  "map_of (alter_table n f sch) m = (if m = n then map_option f (map_of sch m) else map_of sch m)"
  by (induction sch) (auto simp: alter_table_def)

lemma fst_alter [simp]: "map fst (alter_table n f sch) = map fst sch"
  by (simp add: alter_table_def case_prod_unfold)

lemma alter_alter: "alter_table n g (alter_table n f sch) = alter_table n (\<lambda>t. g (f t)) sch"
  by (simp add: alter_table_def case_prod_unfold)

lemma alter_id: "(\<And>t. (n, t) \<in> set sch \<Longrightarrow> f t = t) \<Longrightarrow> alter_table n f sch = sch"
  unfolding alter_table_def by (rule map_idI) auto

lemma index_names_alter:
  "(\<And>t. ta_indexes (f t) = ta_indexes t) \<Longrightarrow> index_names (alter_table n f sch) = index_names sch"
  by (simp add: index_names_def alter_table_def case_prod_unfold comp_def if_distrib)
    (rule arg_cong [where f = concat], simp)

lemma has_column_update [simp]:
  "has_column (t\<lparr>ta_indexes := a\<rparr>) c = has_column t c" "has_column (t\<lparr>ta_foreign_keys := b\<rparr>) c = has_column t c"
  "has_column (t\<lparr>ta_columns := ta_columns t @ [d]\<rparr>) c \<longleftrightarrow> has_column t c \<or> c = co_name d"
  by (auto simp: has_column_def)

lemma target_alter:
  "target_exists sch fk \<Longrightarrow> (\<And>t c. has_column t c \<Longrightarrow> has_column (f t) c) \<Longrightarrow>
   target_exists (alter_table n f sch) fk"
  by (auto simp: target_exists_def split: option.splits if_splits)

text \<open>Altering one table of a sound schema so that its columns stay keeps the schema sound.\<close>

lemma alter_wf:
  assumes "schema_wf sch" "\<And>t c. has_column t c \<Longrightarrow> has_column (f t) c"
    and "\<And>t. (n, t) \<in> set sch \<Longrightarrow> table_ok (alter_table n f sch) t \<Longrightarrow> table_ok (alter_table n f sch) (f t)"
    and "distinct (index_names (alter_table n f sch))"
  shows "schema_wf (alter_table n f sch)"
proof -
  have "table_ok (alter_table n f sch) t" if "(m, t) \<in> set sch" for m t
    using assms(1) that target_alter [OF _ assms(2)]
    by (fastforce simp: schema_wf_def table_ok_def list_all_iff)
  then have "\<forall>(m, t) \<in> set (alter_table n f sch). table_ok (alter_table n f sch) t"
    using assms(3) by (auto simp: alter_table_def)
  then show ?thesis
    using assms(1,4) by (simp add: schema_wf_def list_all_iff)
qed

lemma wf_entry:
  assumes "schema_wf sch" "map_of sch n = Some t"
  shows "(n, t) \<in> set sch" "table_ok sch t" "\<And>t'. (n, t') \<in> set sch \<Longrightarrow> t' = t"
proof -
  show m: "(n, t) \<in> set sch" by (rule map_of_SomeD [OF assms(2)])
  then show "table_ok sch t" using assms(1) by (auto simp: schema_wf_def list_all_iff)
  show "t' = t" if "(n, t') \<in> set sch" for t'
    using assms that by (simp add: schema_wf_def map_of_is_SomeI)
qed

lemma undo_table:
  assumes "schema_wf sch" "apply_ddl (Create_Table n t) sch = Some sch'"
  shows "schema_wf sch' \<and> apply_ddl (Drop_Table n) sch' = Some sch"
proof -
  have n: "map_of sch n = None" and sch': "sch' = sch @ [(n, t)]"
    and ok: "ta_indexes t = []" "distinct (map co_name (ta_columns t))" "distinct (constraint_names t)"
      "list_all (has_column t) (ta_primary_key t)"
      "list_all (\<lambda>fk. has_column t (fk_column fk) \<and> target_exists ((n, t) # sch) fk) (ta_foreign_keys t)"
    using assms(2) by (auto split: if_splits)
  have fresh: "n \<notin> fst ` set sch" using n by (simp add: map_of_eq_None_iff)
  have old: "target_exists sch fk \<Longrightarrow> target_exists sch' fk \<and> fk_table fk \<noteq> n" for fk
    using n by (auto simp: target_exists_def sch' map_add_def split: option.splits)
  have new: "target_exists ((n, t) # sch) fk = target_exists sch' fk" for fk
    using n by (simp add: target_exists_def sch' map_add_def split: option.split)
  have "table_ok sch u \<Longrightarrow> table_ok sch' u" for u
    using old by (auto simp: table_ok_def list_all_iff)
  then have "schema_wf sch'"
    using assms(1) fresh ok new by (auto simp: schema_wf_def list_all_iff sch' index_names_def table_ok_def)
  moreover have "\<not> referenced sch' n"
    using assms(1) old by (fastforce simp: referenced_def list_ex_iff sch' schema_wf_def table_ok_def list_all_iff)
  moreover have "filter (\<lambda>(m, u). m \<noteq> n) sch = sch" using fresh by (auto simp: filter_id_conv image_iff)
  ultimately show ?thesis using n by (simp add: sch' map_add_def)
qed

lemma undo_index:
  assumes "schema_wf sch" "apply_ddl (Create_Index n ix) sch = Some sch'"
  shows "schema_wf sch' \<and> apply_ddl (Drop_Index n (ix_name ix)) sch' = Some sch"
proof -
  let ?f = "\<lambda>t. t\<lparr>ta_indexes := ta_indexes t @ [ix]\<rparr>"
  obtain t where t: "map_of sch n = Some t" "ix_name ix \<notin> set (index_names sch)" "has_column t (ix_column ix)"
      and sch': "sch' = alter_table n ?f sch"
    using assms(2) by (auto split: option.splits if_splits)
  note e = wf_entry [OF assms(1) t(1)]
  have old: "ix_name ix \<notin> ix_name ` set (ta_indexes u)" if "(m, u) \<in> set sch" for m u
    using t(2) that by (force simp: index_names_def)
  obtain pre post where split: "sch = pre @ (n, t) # post" using split_list [OF e(1)] by blast
  then have p: "n \<notin> fst ` set pre" "n \<notin> fst ` set post" using assms(1) by (auto simp: schema_wf_def)
  then have "sch' = pre @ (n, ?f t) # post"
    unfolding sch' split alter_table_def by (auto intro!: map_idI simp: image_iff)
  then have "distinct (index_names sch')"
    using assms(1) t(2) by (auto simp: schema_wf_def index_names_def split)
  moreover have "table_ok s (?f u)" if "(n, u) \<in> set sch" "table_ok s u" for s u
    using that t(3) e(3) [OF that(1)] by (simp add: table_ok_def list_all_iff constraint_names_def)
  ultimately have "schema_wf sch'"
    unfolding sch' by (intro alter_wf [OF assms(1)]) simp_all
  moreover have "filter (\<lambda>i. ix_name i \<noteq> ix_name ix) (ta_indexes u) = ta_indexes u" if "(n, u) \<in> set sch" for u
    using old [OF that] by (auto simp: filter_id_conv image_iff)
  then have "alter_table n (\<lambda>u. ?f u\<lparr>ta_indexes := filter (\<lambda>i. ix_name i \<noteq> ix_name ix) (ta_indexes (?f u))\<rparr>) sch = sch"
    by (intro alter_id) simp
  ultimately show ?thesis using t(1) by (simp add: sch' alter_alter)
qed

lemma undo_column:
  assumes "schema_wf sch" "apply_ddl (Add_Column n c) sch = Some sch'"
  shows "schema_wf sch' \<and> apply_ddl (Drop_Column n (co_name c)) sch' = Some sch"
proof -
  let ?f = "\<lambda>t. t\<lparr>ta_columns := ta_columns t @ [c]\<rparr>"
  obtain t where t: "map_of sch n = Some t" "\<not> has_column t (co_name c)" and sch': "sch' = alter_table n ?f sch"
    using assms(2) by (auto split: option.splits if_splits)
  note e = wf_entry [OF assms(1) t(1)]
  have fresh: "co_name c \<notin> co_name ` set (ta_columns t)" using t(2) by (simp add: has_column_def)
  have "distinct (index_names sch')"
    using assms(1) unfolding sch' by (subst index_names_alter) (simp_all add: schema_wf_def)
  moreover have "table_ok s (?f u)" if "(n, u) \<in> set sch" "table_ok s u" for s u
    using that fresh e(3) [OF that(1)] by (auto simp: table_ok_def list_all_iff constraint_names_def)
  ultimately have "schema_wf sch'"
    unfolding sch' by (intro alter_wf [OF assms(1)]) simp_all
  moreover have "\<not> list_ex (\<lambda>ix. ix_column ix = co_name c) (ta_indexes t)"
    "\<not> list_ex (\<lambda>fk. fk_column fk = co_name c) (ta_foreign_keys t)"
    "co_name c \<notin> set (ta_primary_key t)"
    using e(2) t(2) by (auto simp: table_ok_def list_all_iff list_ex_iff)
  moreover have "\<not> list_ex (\<lambda>fk. fk_table fk = n \<and> fk_target fk = co_name c) (ta_foreign_keys u)"
    if "(m, u) \<in> set sch" for m u
    using assms(1) that t by (fastforce simp: schema_wf_def table_ok_def list_all_iff list_ex_iff target_exists_def)
  then have "\<not> list_ex (\<lambda>(m, u). list_ex (\<lambda>fk. fk_table fk = n \<and> fk_target fk = co_name c) (ta_foreign_keys u)) sch'"
    unfolding sch' alter_table_def list_ex_iff by (auto split: if_splits)
  moreover have "filter (\<lambda>d. co_name d \<noteq> co_name c) (ta_columns u) = ta_columns u" if "(n, u) \<in> set sch" for u
    using fresh e(3) [OF that] by (auto simp: filter_id_conv image_iff)
  then have "alter_table n (\<lambda>u. ?f u\<lparr>ta_columns := filter (\<lambda>d. co_name d \<noteq> co_name c) (ta_columns (?f u))\<rparr>) sch = sch"
    by (intro alter_id) simp
  ultimately show ?thesis using t(1) by (simp add: sch' alter_alter)
qed

lemma undo_foreign_key:
  assumes "schema_wf sch" "apply_ddl (Create_Foreign_Key n fk) sch = Some sch'"
  shows "schema_wf sch' \<and> apply_ddl (undo (Create_Foreign_Key n fk)) sch' = Some sch"
proof -
  let ?f = "\<lambda>t. t\<lparr>ta_foreign_keys := ta_foreign_keys t @ [fk]\<rparr>"
  obtain t k where t: "map_of sch n = Some t" "fk_name fk = Some k" "k \<notin> set (constraint_names t)"
      "has_column t (fk_column fk)" "target_exists sch fk" and sch': "sch' = alter_table n ?f sch"
    using assms(2) by (auto split: option.splits if_splits)
  note e = wf_entry [OF assms(1) t(1)]
  have names: "constraint_names (?f u) = constraint_names u @ [k]" for u
    using t(2) by (simp add: constraint_names_def map_filter_simps(1) map_filter_def)
  have "distinct (index_names sch')"
    using assms(1) unfolding sch' by (subst index_names_alter) (simp_all add: schema_wf_def)
  moreover have tgt: "target_exists sch' fk" unfolding sch' by (rule target_alter [OF t(5)]) simp
  then have "table_ok sch' (?f u)" if "(n, u) \<in> set sch" "table_ok sch' u" for u
    using that t(3,4) e(3) [OF that(1)] names by (simp add: table_ok_def list_all_iff)
  ultimately have "schema_wf sch'"
    unfolding sch' by (intro alter_wf [OF assms(1)]) simp_all
  moreover have "filter (\<lambda>x. fk_name x \<noteq> Some k) (ta_foreign_keys u) = ta_foreign_keys u" if "(n, u) \<in> set sch" for u
    using t(3) e(3) [OF that] by (force simp: filter_id_conv constraint_names_def map_filter_def)
  then have "alter_table n (\<lambda>u. ?f u\<lparr>ta_foreign_keys := filter (\<lambda>x. fk_name x \<noteq> Some k) (ta_foreign_keys (?f u))\<rparr>) sch = sch"
    using t(2) by (intro alter_id) simp
  ultimately show ?thesis using t(1,2) names by (simp add: sch' alter_alter)
qed

lemma undo_undoes:
  assumes "schema_wf sch" "creates op" "apply_ddl op sch = Some sch'"
  shows "schema_wf sch' \<and> apply_ddl (undo op) sch' = Some sch"
proof (cases op)
  case (Create_Table n t)
  then show ?thesis using undo_table [OF assms(1)] assms(3) by simp
next
  case (Create_Index n ix)
  then show ?thesis using undo_index [OF assms(1)] assms(3) by (simp del: apply_ddl.simps)
next
  case (Add_Column n c)
  then show ?thesis using undo_column [OF assms(1)] assms(3) by (simp del: apply_ddl.simps)
next
  case (Create_Foreign_Key n fk)
  then show ?thesis using undo_foreign_key [OF assms(1)] assms(3) by (simp del: apply_ddl.simps undo.simps)
qed (use assms(2) in simp_all)

lemma run_ddl_append: "run_ddl (xs @ ys) sch = (case run_ddl xs sch of None \<Rightarrow> None | Some s \<Rightarrow> run_ddl ys s)"
  by (induction xs arbitrary: sch) (simp_all split: option.split)

lemma run_undo:
  "schema_wf sch \<Longrightarrow> list_all creates ops \<Longrightarrow> run_ddl ops sch = Some sch' \<Longrightarrow>
   schema_wf sch' \<and> run_ddl (rev (map undo ops)) sch' = Some sch"
proof (induction ops arbitrary: sch)
  case (Cons op ops)
  then obtain s where s: "apply_ddl op sch = Some s" "run_ddl ops s = Some sch'"
    by (auto split: option.splits)
  from undo_undoes [OF Cons.prems(1) _ s(1)] Cons.prems(2)
  have u: "schema_wf s" "apply_ddl (undo op) s = Some sch" by simp_all
  from Cons.IH [OF u(1) _ s(2)] Cons.prems(2) show ?case
    using u(2) by (simp add: run_ddl_append)
qed simp

section \<open>The models\<close>

text \<open>A mapped column: \<open>index=True\<close> makes an index, unique when the column is; a default is
  applied in Python when a row is created.\<close>

datatype py_default =
  No_Default | Call_Default | Str_Default string | Int_Default int | Bool_Default bool | Dict_Default

record mapped_column =
  mc_name :: string
  mc_type :: column_type
  mc_nullable :: bool
  mc_unique :: bool
  mc_index :: bool
  mc_foreign_key :: "(string \<times> on_delete) option"
  mc_default :: py_default

definition mapped :: "string \<Rightarrow> column_type \<Rightarrow> mapped_column" where
  "mapped n ty =
     \<lparr>mc_name = n, mc_type = ty, mc_nullable = False, mc_unique = False, mc_index = False,
      mc_foreign_key = None, mc_default = No_Default\<rparr>"

definition mapped_or :: "string \<Rightarrow> column_type \<Rightarrow> py_default \<Rightarrow> mapped_column" where
  "mapped_or n ty d = (mapped n ty)\<lparr>mc_default := d\<rparr>"

definition nullable :: "mapped_column \<Rightarrow> mapped_column" where
  "nullable c = c\<lparr>mc_nullable := True\<rparr>"

definition indexed :: "bool \<Rightarrow> mapped_column \<Rightarrow> mapped_column" where
  "indexed u c = c\<lparr>mc_index := True, mc_unique := u\<rparr>"

definition references :: "string \<Rightarrow> on_delete \<Rightarrow> mapped_column \<Rightarrow> mapped_column" where
  "references tab od c = c\<lparr>mc_foreign_key := Some (tab, od)\<rparr>"

definition timestamp_mixin :: "mapped_column list" where
  "timestamp_mixin =
     [mapped_or ''created_at'' Date_Time_TZ_T Call_Default,
      mapped_or ''updated_at'' Date_Time_TZ_T Call_Default]"

definition uuid_primary_key_mixin :: "mapped_column list" where
  "uuid_primary_key_mixin = [mapped_or ''id'' UUID_T Call_Default]"

definition with_mixins :: "mapped_column list \<Rightarrow> mapped_column list" where
  "with_mixins cs = uuid_primary_key_mixin @ timestamp_mixin @ cs"

definition user_model :: "string \<times> mapped_column list" where
  "user_model =
     (''users'', with_mixins
       [indexed True (mapped ''username'' (String_T 50)), indexed True (mapped ''email'' (String_T 255)),
        mapped ''hashed_password'' (String_T 255), mapped_or ''role'' (String_T 20) (Str_Default ''student''),
        mapped_or ''is_active'' Boolean_T (Bool_Default True)])"

definition submission_model :: "string \<times> mapped_column list" where
  "submission_model =
     (''submissions'', with_mixins
       [indexed False (references ''users'' CASCADE (mapped ''user_id'' UUID_T)),
        indexed False (references ''problems'' SET_NULL (nullable (mapped ''problem_id'' UUID_T))),
        mapped_or ''language'' (String_T 30) (Str_Default ''python''), mapped ''source_code'' Text_T,
        nullable (mapped ''stdin_data'' Text_T),
        indexed False (mapped_or ''status'' (String_T 30) (Str_Default ''PENDING'')),
        nullable (mapped ''score'' Integer_T), nullable (mapped ''max_score'' Integer_T),
        nullable (mapped ''grading_status'' (String_T 40)), nullable (mapped ''exit_code'' Integer_T),
        nullable (mapped ''execution_time_ms'' Integer_T),
        nullable (mapped ''peak_memory_bytes'' Big_Integer_T),
        nullable (mapped ''output_summary'' Text_T), mapped_or ''telemetry'' JSON_T Dict_Default])"

definition problem_model :: "string \<times> mapped_column list" where
  "problem_model =
     (''problems'', with_mixins
       [mapped ''title'' (String_T 200), indexed True (mapped ''slug'' (String_T 220)),
        mapped ''description'' Text_T, mapped_or ''difficulty'' (String_T 20) (Str_Default ''EASY''),
        mapped_or ''time_limit_ms'' Integer_T (Int_Default 2000),
        mapped_or ''memory_limit_mb'' Integer_T (Int_Default 128),
        mapped_or ''is_published'' Boolean_T (Bool_Default True)])"

definition test_case_model :: "string \<times> mapped_column list" where
  "test_case_model =
     (''test_cases'', with_mixins
       [indexed False (references ''problems'' CASCADE (mapped ''problem_id'' UUID_T)),
        mapped ''input_data'' Text_T, mapped ''expected_output'' Text_T,
        mapped_or ''is_hidden'' Boolean_T (Bool_Default False), mapped_or ''weight'' Integer_T (Int_Default 10),
        mapped_or ''order'' Integer_T (Int_Default 1), nullable (mapped ''explanation'' Text_T)])"

definition room_model :: "string \<times> mapped_column list" where
  "room_model =
     (''rooms'', with_mixins
       [mapped ''name'' (String_T 120),
        indexed False (references ''users'' CASCADE (mapped ''owner_id'' UUID_T)),
        mapped_or ''language'' (String_T 30) (Str_Default ''python''),
        mapped_or ''current_code'' Text_T (Str_Default []),
        mapped_or ''is_active'' Boolean_T (Bool_Default True),
        mapped_or ''max_members'' Integer_T (Int_Default 10)])"

definition room_member_model :: "string \<times> mapped_column list" where
  "room_member_model =
     (''room_members'', with_mixins
       [indexed False (references ''rooms'' CASCADE (mapped ''room_id'' UUID_T)),
        indexed False (references ''users'' CASCADE (mapped ''user_id'' UUID_T)),
        mapped_or ''role'' (String_T 20) (Str_Default ''editor'')])"

definition models :: "(string \<times> mapped_column list) list" where
  "models = [user_model, submission_model, problem_model, test_case_model, room_model, room_member_model]"

text \<open>The table SQLAlchemy derives from a model, with its default names of indexes.\<close>

definition declared_column :: "mapped_column \<Rightarrow> column" where
  "declared_column c =
     \<lparr>co_name = mc_name c, co_type = mc_type c, co_nullable = mc_nullable c, co_server_default = None\<rparr>"

definition declared_table :: "string \<Rightarrow> mapped_column list \<Rightarrow> table" where
  "declared_table n cs =
     \<lparr>ta_columns = map declared_column cs, ta_primary_key = [''id''],
      ta_foreign_keys = List.map_filter (\<lambda>c. case mc_foreign_key c of
         None \<Rightarrow> None
       | Some (tab, od) \<Rightarrow> Some \<lparr>fk_name = None, fk_column = mc_name c, fk_table = tab, fk_target = ''id'',
                                fk_on_delete = od\<rparr>) cs,
      ta_indexes = map (\<lambda>c. on_column (''ix_'' @ n @ ''_'' @ mc_name c) (mc_name c) (mc_unique c))
        (filter mc_index cs)\<rparr>"

text \<open>How the database writes a default; a value computed per row has no such form.\<close>

fun sql_default :: "py_default \<Rightarrow> pstr option" where
  "sql_default No_Default = None"
| "sql_default Call_Default = None"
| "sql_default (Str_Default s) = Some (lit s)"
| "sql_default (Int_Default i) = Some (show_int i)"
| "sql_default (Bool_Default b) = Some (if b then lit ''true'' else lit ''false'')"
| "sql_default Dict_Default = Some (lit ''{}'')"

definition same_items :: "'a list \<Rightarrow> 'a list \<Rightarrow> bool" where
  "same_items xs ys \<longleftrightarrow> length xs = length ys \<and> distinct xs \<and> list_all (List.member ys) xs"

lemma same_items_mset: "same_items xs ys \<Longrightarrow> mset xs = mset ys"
proof -
  assume a: "same_items xs ys"
  then have d: "distinct xs" and s: "set xs \<subseteq> set ys" and l: "length xs = length ys"
    by (auto simp: same_items_def list_all_iff)
  have c: "card (set xs) = length ys" using d l distinct_card by force
  then have e: "set xs = set ys"
    using s card_length [of ys] card_mono [OF _ s] by (intro card_subset_eq) auto
  then have "distinct ys" using c card_distinct by metis
  then show "mset xs = mset ys" using d e set_eq_iff_mset_eq_distinct by blast
qed

definition table_agrees :: "table \<Rightarrow> table \<Rightarrow> bool" where
  "table_agrees t d \<longleftrightarrow>
     same_items (map (\<lambda>c. c\<lparr>co_server_default := None\<rparr>) (ta_columns t)) (ta_columns d) \<and>
     ta_primary_key t = ta_primary_key d \<and>
     same_items (map (\<lambda>fk. fk\<lparr>fk_name := None\<rparr>) (ta_foreign_keys t)) (ta_foreign_keys d) \<and>
     same_items (ta_indexes t) (ta_indexes d)"

definition defaults_agree :: "table \<Rightarrow> mapped_column list \<Rightarrow> bool" where
  "defaults_agree t cs \<longleftrightarrow>
     list_all (\<lambda>c. list_all (\<lambda>m.
       if mc_name m = co_name c then sql_default (mc_default m) = map_option lit (co_server_default c)
       else True) cs) (ta_columns t)"

definition schema_agrees :: "schema \<Rightarrow> (string \<times> mapped_column list) list \<Rightarrow> bool" where
  "schema_agrees sch ms \<longleftrightarrow>
     same_items (map fst sch) (map fst ms) \<and>
     list_all (\<lambda>(n, cs). case map_of sch n of
         Some t \<Rightarrow> table_agrees t (declared_table n cs) \<and> defaults_agree t cs
       | None \<Rightarrow> False) ms"

section \<open>Widths\<close>

text \<open>Whether the database accepts a text in a column: a longer one is an error.\<close>

definition fits :: "string \<times> mapped_column list \<Rightarrow> string \<Rightarrow> pstr \<Rightarrow> bool" where
  "fits model c s =
     (case map_of (map (\<lambda>m. (mc_name m, mc_type m)) (snd model)) c of
        Some (String_T n) \<Rightarrow> length s \<le> n
      | Some Text_T \<Rightarrow> True
      | _ \<Rightarrow> False)"

lemmas model_defs = fits_def user_model_def submission_model_def problem_model_def room_model_def
  room_member_model_def with_mixins_def uuid_primary_key_mixin_def timestamp_mixin_def mapped_or_def
  mapped_def indexed_def nullable_def references_def

lemma fits_simps [simp]:
  "fits user_model ''username'' s \<longleftrightarrow> length s \<le> 50" "fits user_model ''email'' s \<longleftrightarrow> length s \<le> 255"
  "fits user_model ''hashed_password'' s \<longleftrightarrow> length s \<le> 255" "fits user_model ''role'' s \<longleftrightarrow> length s \<le> 20"
  "fits submission_model ''status'' s \<longleftrightarrow> length s \<le> 30"
  "fits submission_model ''grading_status'' s \<longleftrightarrow> length s \<le> 40"
  "fits submission_model ''language'' s \<longleftrightarrow> length s \<le> 30"
  "fits problem_model ''title'' s \<longleftrightarrow> length s \<le> 200" "fits problem_model ''slug'' s \<longleftrightarrow> length s \<le> 220"
  "fits problem_model ''difficulty'' s \<longleftrightarrow> length s \<le> 20"
  "fits room_model ''name'' s \<longleftrightarrow> length s \<le> 120" "fits room_model ''language'' s \<longleftrightarrow> length s \<le> 30"
  "fits room_member_model ''role'' s \<longleftrightarrow> length s \<le> 20"
  by (simp_all add: model_defs)

definition user_fits :: "user_row \<Rightarrow> bool" where
  "user_fits u \<longleftrightarrow>
     fits user_model ''username'' (us_username u) \<and> fits user_model ''email'' (us_email u) \<and>
     fits user_model ''hashed_password'' (us_hashed_password u) \<and> fits user_model ''role'' (us_role u)"

definition problem_fits :: "problem_row \<Rightarrow> bool" where
  "problem_fits p \<longleftrightarrow>
     fits problem_model ''title'' (pr_title p) \<and> fits problem_model ''slug'' (pr_slug p) \<and>
     fits problem_model ''difficulty'' (pr_difficulty p)"

definition outcome_fits :: "submission_row \<Rightarrow> bool" where
  "outcome_fits s \<longleftrightarrow>
     fits submission_model ''status'' (sb_status s) \<and>
     pred_option (fits submission_model ''grading_status'') (sb_grading_status s)"

lemma role_fits: "List.member account_roles r \<Longrightarrow> length r \<le> 20"
  by (auto simp: account_roles_def)

lemma difficulty_fits: "List.member difficulties d \<Longrightarrow> length d \<le> 20"
  by (auto simp: difficulties_def)

lemma verdict_fits: "length (verdict_value v) \<le> 30"
  by (cases v) simp_all

lemma status_fits: "length (status_value v) \<le> 30"
  by (cases v) simp_all

section \<open>Properties\<close>


text \<open>C24. Every migration can be taken back: from any sound schema, whatever else it holds, on which
  the upgrade of a revision succeeds, its downgrade succeeds and restores exactly that schema.\<close>

theorem migrations_reversible:
  assumes "m \<in> set migrations" and "schema_wf sch" and "run_ddl (mi_upgrade m) sch = Some sch'"
  shows "schema_wf sch' \<and> run_ddl (mi_downgrade m) sch' = Some sch"
proof -
  have "mi_downgrade m = rev (map undo (mi_upgrade m)) \<and> list_all creates (mi_upgrade m)"
    using assms(1)
    by (auto simp: migrations_def upgrade_001_def downgrade_001_def upgrade_002_def downgrade_002_def
        upgrade_003_def downgrade_003_def on_column_def required_def optional_def)
  then show ?thesis using run_undo [OF assms(2) _ assms(3)] by simp
qed

theorem migrations_reversible_witness:
  "run_ddl (mi_downgrade (hd migrations)) (the (run_ddl (mi_upgrade (hd migrations)) [])) = Some []"
proof -
  have "hd migrations \<in> set migrations" "schema_wf []"
    by (simp_all add: migrations_def schema_wf_def index_names_def)
  moreover have "run_ddl (mi_upgrade (hd migrations)) [] \<noteq> None" by code_simp
  then have "run_ddl (mi_upgrade (hd migrations)) [] = Some (the (run_ddl (mi_upgrade (hd migrations)) []))" by simp
  ultimately show ?thesis using migrations_reversible by blast
qed



text \<open>Two texts are not bounded: the language of a room is any text, and the language of a
  submission is looked up without the spaces around it but stored with them.\<close>

lemma unbounded_language:
  "room_create_valid \<lparr>rc_name = lit ''abc'', rc_language = replicate 31 97, rc_initial_code = [],
     rc_max_members = 2\<rparr>"
  "\<not> fits room_model ''language'' (replicate 31 97)"
  "resolve (lit ''python'' @ replicate 30 32) = resolve (lit ''python'')"
  "\<not> fits submission_model ''language'' (lit ''python'' @ replicate 30 32)"
proof -
  have r: "py_rstrip (s @ replicate n 32) = py_rstrip s" for s n
  proof (induction n)
    case (Suc n)
    have "s @ replicate (Suc n) (32 :: nat) = (s @ replicate n 32) @ [32]"
      by (simp add: replicate_append_same)
    then show ?case using Suc py_rstrip_snoc [of "s @ replicate n 32" 32] by (simp only:) simp
  qed simp
  have l: "py_lstrip (lit ''python'' @ s) = lit ''python'' @ s" for s
    by (simp add: py_lstrip_def lit_def py_isspace_def)
  have "py_strip (lit ''python'' @ replicate 30 32) = py_strip (lit ''python'')"
    using r [of "lit ''python''" 30] l [of "replicate 30 32"] l [of "[]"]
    by (simp only: py_strip_def append_Nil2)
  then show "resolve (lit ''python'' @ replicate 30 32) = resolve (lit ''python'')"
    by (simp only: resolve_def)
qed (simp_all add: room_create_valid_def)

end
