(* ===== verification/Observability.thy ===== *)
theory Observability
  imports Daemon_Claims
begin

text \<open>
  Health, tracing and metrics of the backend: api/v1/endpoints/health.py, core/telemetry.py,
  core/metrics.py and the life of the application in main.py.  The probes of the health
  endpoint are given by what the two clients return; OpenTelemetry is the record
  \<open>opentelemetry\<close>; times and versions are texts.
\<close>

section \<open>Health\<close>

record health_response =
  hr_status :: pstr
  hr_version :: pstr
  hr_environment :: pstr
  hr_components :: "(pstr \<times> pstr) list"
  hr_timestamp :: pstr

text \<open>\<open>scalar()\<close> of the answer to \<open>SELECT 1\<close>, or the exception of the query.\<close>

definition database_state :: "py_exn + int option \<Rightarrow> pstr" where
  "database_state answer =
     (case answer of
        Inl exc \<Rightarrow> lit ''unavailable''
      | Inr v \<Rightarrow> if v = Some 1 then lit ''healthy'' else lit ''unhealthy'')"

text \<open>Opening the client, \<open>ping\<close> and \<open>aclose\<close>, each of which may raise.\<close>

definition redis_state :: "py_exn option \<Rightarrow> py_exn + bool \<Rightarrow> py_exn option \<Rightarrow> pstr" where
  "redis_state opened ping aclosed =
     (case (opened, ping, aclosed) of
        (None, Inr pong, None) \<Rightarrow> if pong then lit ''healthy'' else lit ''unhealthy''
      | _ \<Rightarrow> lit ''unavailable'')"

definition health_check ::
  "pstr \<Rightarrow> pstr \<Rightarrow> pstr \<Rightarrow> py_exn + int option \<Rightarrow> py_exn option \<Rightarrow> py_exn + bool \<Rightarrow> py_exn option \<Rightarrow> health_response" where
  "health_check version environment timestamp answer opened ping aclosed =
     (let database = database_state answer; redis = redis_state opened ping aclosed;
          is_healthy = (database = lit ''healthy'' \<and> redis = lit ''healthy'')
      in \<lparr>hr_status = (if is_healthy then lit ''healthy'' else lit ''degraded''),
          hr_version = version, hr_environment = environment,
          hr_components = [(lit ''api'', lit ''healthy''), (lit ''database'', database), (lit ''redis'', redis)],
          hr_timestamp = timestamp\<rparr>)"

section \<open>Tracing\<close>

record provider =
  pv_resource :: "(pstr \<times> pstr) list"
  pv_console :: bool

text \<open>The global provider as the library keeps it; \<open>None\<close> is its placeholder.\<close>

record 'g opentelemetry =
  ot_get :: "'g \<Rightarrow> provider option"
  ot_set :: "provider \<Rightarrow> 'g \<Rightarrow> 'g"

text \<open>The module's flag and the library's state.\<close>

record 'g tracing =
  tg_initialized :: bool
  tg_global :: 'g

definition new_provider :: "pstr \<Rightarrow> bool \<Rightarrow> provider" where
  "new_provider service_name debug_console =
     \<lparr>pv_resource =
        [(lit ''service.name'', service_name), (lit ''service.namespace'', lit ''rce-laboratory''),
         (lit ''service.version'', lit ''1.5.0'')],
      pv_console = debug_console\<rparr>"

definition init_tracer :: "'g opentelemetry \<Rightarrow> pstr \<Rightarrow> bool \<Rightarrow> 'g tracing \<Rightarrow> provider \<times> 'g tracing" where
  "init_tracer ot service_name debug_console tg =
     (case ot_get ot (tg_global tg) of
        Some current_provider \<Rightarrow>
          if tg_initialized tg then (current_provider, tg)
          else (new_provider service_name debug_console,
                \<lparr>tg_initialized = True, tg_global = ot_set ot (new_provider service_name debug_console) (tg_global tg)\<rparr>)
      | None \<Rightarrow>
          (new_provider service_name debug_console,
           \<lparr>tg_initialized = True, tg_global = ot_set ot (new_provider service_name debug_console) (tg_global tg)\<rparr>))"

text \<open>The tracer of a module belongs to the global provider.\<close>

definition get_tracer :: "'g opentelemetry \<Rightarrow> pstr \<Rightarrow> 'g tracing \<Rightarrow> (provider option \<times> pstr) \<times> 'g tracing" where
  "get_tracer ot module_name tg =
     (let tg' = (if \<not> tg_initialized tg then snd (init_tracer ot (lit ''rce-backend-api'') False tg) else tg)
      in ((ot_get ot (tg_global tg'), module_name), tg'))"

text \<open>\<open>inject\<close> and \<open>extract\<close> of the library, for a context of type \<open>'c\<close>.\<close>

definition inject_context ::
  "((pstr \<times> pstr) list \<Rightarrow> (pstr \<times> pstr) list) \<Rightarrow> (pstr \<times> pstr) list option \<Rightarrow> (pstr \<times> pstr) list" where
  "inject_context inject carrier = inject (case carrier of None \<Rightarrow> [] | Some c \<Rightarrow> c)"

record 'c span_request =
  sp_name :: pstr
  sp_context :: "'c option"
  sp_attributes :: "(pstr \<times> json) list"

definition start_as_current_span ::
  "((pstr \<times> pstr) list \<Rightarrow> 'c) \<Rightarrow> pstr \<Rightarrow> (pstr \<times> pstr) list option \<Rightarrow> (pstr \<times> json) list option \<Rightarrow> 'c span_request" where
  "start_as_current_span extract name carrier attributes =
     \<lparr>sp_name = name,
      sp_context = (case carrier of None \<Rightarrow> None | Some c \<Rightarrow> if c = [] then None else Some (extract c)),
      sp_attributes = (case attributes of None \<Rightarrow> [] | Some a \<Rightarrow> a)\<rparr>"

text \<open>\<open>format(trace_id, "032x")\<close> of the active span, if its context is valid.\<close>

definition current_trace_id :: "(bool \<times> nat) option \<Rightarrow> pstr option" where
  "current_trace_id current =
     (case current of Some (is_valid, trace_id) \<Rightarrow> if is_valid then Some (hex_digits 32 trace_id) else None
      | None \<Rightarrow> None)"

section \<open>The life of the application\<close>

datatype lifespan_event = Tracer_Initialised pstr | Instrumented | Not_Instrumented | Serving | Engine_Disposed

text \<open>\<open>instrument\<close>: whether instrumenting FastAPI raises.\<close>

definition lifespan :: "bool \<Rightarrow> pstr \<Rightarrow> py_exn option \<Rightarrow> lifespan_event list" where
  "lifespan otel_enabled otel_service_name instrument =
     (if otel_enabled
      then [Tracer_Initialised otel_service_name, if instrument = None then Instrumented else Not_Instrumented]
      else []) @
     [Serving, Engine_Disposed]"

section \<open>Metrics\<close>

datatype metric_kind = Counter | Gauge | Histogram "int list"

text \<open>The upper bounds of a histogram in thousandths of its unit.\<close>

record metric =
  mt_name :: pstr
  mt_kind :: metric_kind
  mt_labels :: "pstr list"

definition submissions_total :: metric where
  "submissions_total =
     \<lparr>mt_name = lit ''rce_submissions_total'', mt_kind = Counter, mt_labels = [lit ''language'', lit ''status'']\<rparr>"

definition execution_duration_seconds :: metric where
  "execution_duration_seconds =
     \<lparr>mt_name = lit ''rce_execution_duration_seconds'',
      mt_kind = Histogram [50, 100, 250, 500, 1000, 2000, 3500, 5000, 10000], mt_labels = [lit ''language'']\<rparr>"

definition peak_memory_bytes :: metric where
  "peak_memory_bytes =
     \<lparr>mt_name = lit ''rce_memory_peak_bytes'',
      mt_kind = Histogram (map ((*) 1000) [1000000, 5000000, 10000000, 25000000, 50000000, 100000000, 134217728]),
      mt_labels = [lit ''language'']\<rparr>"

definition active_sandboxes :: metric where
  "active_sandboxes =
     \<lparr>mt_name = lit ''rce_active_sandboxes'', mt_kind = Gauge, mt_labels = [lit ''sandbox_type'']\<rparr>"

definition queue_depth :: metric where
  "queue_depth = \<lparr>mt_name = lit ''rce_queue_depth'', mt_kind = Gauge, mt_labels = [lit ''queue_name'']\<rparr>"

definition rate_limit_hits_total :: metric where
  "rate_limit_hits_total =
     \<lparr>mt_name = lit ''rce_rate_limit_hits_total'', mt_kind = Counter, mt_labels = [lit ''endpoint'']\<rparr>"

definition metrics_registry :: "metric list" where
  "metrics_registry =
     [submissions_total, execution_duration_seconds, peak_memory_bytes, active_sandboxes, queue_depth,
      rate_limit_hits_total]"

text \<open>The labels the submission endpoint counts an accepted submission under.\<close>

definition submission_labels :: "submission_create \<Rightarrow> pstr list" where
  "submission_labels sub_in = [py_lower (sc_language sub_in), lit ''PENDING'']"

section \<open>What holds\<close>

lemma health_states:
  "database_state a \<in> {lit ''healthy'', lit ''unhealthy'', lit ''unavailable''}"
  "database_state a = lit ''healthy'' \<longleftrightarrow> a = Inr (Some 1)"
  "redis_state c p e \<in> {lit ''healthy'', lit ''unhealthy'', lit ''unavailable''}"
  "redis_state c p e = lit ''healthy'' \<longleftrightarrow> c = None \<and> p = Inr True \<and> e = None"
  by (auto simp: database_state_def redis_state_def split: sum.split option.split)

text \<open>The library keeps the first provider it is given.\<close>

definition opentelemetry_ok :: "'g opentelemetry \<Rightarrow> bool" where
  "opentelemetry_ok ot \<longleftrightarrow>
     (\<forall>p g. ot_get ot (ot_set ot p g) = Some (case ot_get ot g of None \<Rightarrow> p | Some q \<Rightarrow> q))"

fun init_all :: "'g opentelemetry \<Rightarrow> (pstr \<times> bool) list \<Rightarrow> 'g tracing \<Rightarrow> provider list \<times> 'g tracing" where
  "init_all ot [] tg = ([], tg)"
| "init_all ot ((s, c) # calls) tg =
     (case init_tracer ot s c tg of
        (p, tg1) \<Rightarrow> (case init_all ot calls tg1 of (ps, tg2) \<Rightarrow> (p # ps, tg2)))"

lemma init_all_settled:
  "tg_initialized tg \<Longrightarrow> ot_get ot (tg_global tg) = Some p \<Longrightarrow>
   init_all ot calls tg = (replicate (length calls) p, tg)"
  by (induction ot calls tg rule: init_all.induct) (auto simp: init_tracer_def)

lemma hex_digits_inject:
  "a < 16 ^ n \<Longrightarrow> b < 16 ^ n \<Longrightarrow> hex_digits n a = hex_digits n b \<Longrightarrow> a = b"
  by (metis hex_number_digits mod_less)

text \<open>The registry is well formed: names are distinct and bounds ascend; the memory limit of the
  sandbox is the last bound, the longest run time a request may ask for is beyond it.\<close>

definition metric_ok :: "metric \<Rightarrow> bool" where
  "metric_ok m \<longleftrightarrow>
     (case mt_kind m of Histogram bounds \<Rightarrow> bounds \<noteq> [] \<and> sorted_wrt (<) bounds | _ \<Rightarrow> True) \<and>
     mt_labels m \<noteq> [] \<and> distinct (mt_labels m)"

lemma registry_ok: "distinct (map mt_name metrics_registry) \<and> list_all metric_ok metrics_registry"
  by (simp add: metrics_registry_def metric_ok_def submissions_total_def execution_duration_seconds_def
      peak_memory_bytes_def active_sandboxes_def queue_depth_def rate_limit_hits_total_def)

text \<open>When another part of the process has already set a provider, the first call returns a
  provider that is not the global one.\<close>

lemma foreign_provider:
  assumes "opentelemetry_ok ot" "ot_get ot g = Some q" "q \<noteq> new_provider s c"
  shows "fst (init_tracer ot s c \<lparr>tg_initialized = False, tg_global = g\<rparr>) \<noteq>
           the (ot_get ot (tg_global (snd (init_tracer ot s c \<lparr>tg_initialized = False, tg_global = g\<rparr>))))"
  using assms by (simp add: init_tracer_def opentelemetry_ok_def)

text \<open>The daemon takes no notice of the trace a job was sent with: jobs that differ only in
  their tracing headers are handled alike, so the spans of a run are not linked to the request.\<close>

lemma trace_context_ignored:
  assumes "submission_create_valid sub_in" "submitted_text sub_in" "headers_ok trace1" "headers_ok trace2"
    and "create_submission sf trace1 i now uid sub_in db = (row1, db1, payload1)"
    and "create_submission sf trace2 i now uid sub_in db = (row2, db2, payload2)"
  shows "handle_payload en payload1 d = handle_payload en payload2 d"
  unfolding handle_submitted [OF assms(1,2,3,5)] handle_submitted [OF assms(1,2,4,6)] ..

section \<open>Properties\<close>

text \<open>The health page tells the truth: it reports healthy exactly when all of its components do,
  which is exactly when the database answers 1 and Redis can be opened, answers a ping and
  can be closed; otherwise it still answers, with status degraded and the failing component.\<close>

lemma health_truthful:
  assumes "h = health_check version environment timestamp answer opened ping aclosed"
  shows "(hr_status h = lit ''healthy'' \<longleftrightarrow> list_all (\<lambda>(c, s). s = lit ''healthy'') (hr_components h)) \<and>
         (hr_status h = lit ''healthy'' \<longleftrightarrow>
            answer = Inr (Some 1) \<and> opened = None \<and> ping = Inr True \<and> aclosed = None) \<and>
         (hr_status h \<noteq> lit ''healthy'' \<longrightarrow> hr_status h = lit ''degraded'') \<and>
         map fst (hr_components h) = [lit ''api'', lit ''database'', lit ''redis''] \<and>
         snd ` set (hr_components h) \<subseteq> {lit ''healthy'', lit ''unhealthy'', lit ''unavailable''}"
  using health_states(1) [of answer] health_states(3) [of opened ping aclosed]
  by (simp add: assms health_check_def Let_def health_states(2,4))

lemma health_truthful_witness:
  "hr_status (health_check [] [] [] (Inr (Some 1)) None (Inr False) None) = lit ''degraded''"
  using health_truthful [OF refl, of "[]" "[]" "[]" "Inr (Some 1)" None "Inr False" None] by auto

text \<open>The tracer is set up once: whatever services ask for it in whatever order, the first call
  decides, every call returns its provider, and that provider stays the global one.\<close>

lemma tracer_set_up_once:
  assumes "opentelemetry_ok ot" and "ot_get ot g = None"
    and "init_all ot ((service, console) # calls) \<lparr>tg_initialized = False, tg_global = g\<rparr> = (ps, tg)"
  shows "ps = replicate (Suc (length calls)) (new_provider service console) \<and>
         tg_initialized tg \<and> fst (get_tracer ot name tg) = (Some (new_provider service console), name)"
proof -
  let ?tg = "\<lparr>tg_initialized = True, tg_global = ot_set ot (new_provider service console) g\<rparr>"
  have g: "ot_get ot (tg_global ?tg) = Some (new_provider service console)"
    using assms(1,2) by (simp add: opentelemetry_ok_def)
  have "ps = new_provider service console # fst (init_all ot calls ?tg) \<and> tg = snd (init_all ot calls ?tg)"
    using assms(2,3) by (auto simp: init_tracer_def split: prod.splits)
  then show ?thesis
    using init_all_settled [OF _ g, of calls] g by (simp add: get_tracer_def Let_def)
qed

lemma tracer_set_up_once_witness:
  "fst (init_all \<lparr>ot_get = id, ot_set = (\<lambda>p g. case g of None \<Rightarrow> Some p | Some q \<Rightarrow> Some q)\<rparr>
     [(lit ''a'', False), (lit ''b'', True)] \<lparr>tg_initialized = False, tg_global = None\<rparr>) =
   replicate 2 (new_provider (lit ''a'') False)"
proof -
  let ?ot = "\<lparr>ot_get = id, ot_set = (\<lambda>p g. case g of None \<Rightarrow> Some p | Some q \<Rightarrow> Some q)\<rparr>"
  have "opentelemetry_ok ?ot" by (simp add: opentelemetry_ok_def split: option.split)
  from tracer_set_up_once [OF this, of None "lit ''a''" False "[(lit ''b'', True)]"] show ?thesis
    by (cases "init_all ?ot [(lit ''a'', False), (lit ''b'', True)] \<lparr>tg_initialized = False, tg_global = None\<rparr>")
      (simp add: numeral_2_eq_2)
qed

end
