(* ===== verification/Websocket_Sessions.thy ===== *)
theory Websocket_Sessions
  imports Rooms
begin

text \<open>
  The WebSocket endpoints (backend/app/api/v1/endpoints/websocket.py) apart from the
  downstream pump of a submission, which is in Stream_Delivery: the handshakes, the pump that
  forwards a client's input to the worker, and the relay of a collaborative room.  A pump is
  given the texts it receives until the client disconnects; it returns what it publishes,
  each message with its channel.  The JWT library refuses a token whose subject is not a
  string.  \<open>sf\<close> is the text of a float.
\<close>

section \<open>The handshake\<close>

text \<open>Closed with code 1008, or accepted with the token's payload.\<close>

datatype handshake = Closed nat | Accepted "(pstr \<times> json) list"

definition ws_handshake :: "jwt \<Rightarrow> int \<Rightarrow> pstr option \<Rightarrow> handshake" where
  "ws_handshake jw now token =
     (case token of
        None \<Rightarrow> Closed 1008
      | Some t \<Rightarrow>
          if t = [] then Closed 1008
          else
            (case decode_token jw now t of
               None \<Rightarrow> Closed 1008
             | Some payload \<Rightarrow>
                 (case map_of payload (lit ''sub'') of
                    Some (JStr subject) \<Rightarrow> if subject = [] then Closed 1008 else Accepted payload
                  | _ \<Rightarrow> Closed 1008)))"

section \<open>Input for a submission\<close>

definition input_channel :: "uuid \<Rightarrow> pstr" where
  "input_channel submission_id = lit ''rce:input:'' @ show_uuid submission_id"

definition stdin_frame :: "pstr \<Rightarrow> json" where
  "stdin_frame raw_text = JObj [(lit ''type'', JStr (lit ''stdin'')), (lit ''data'', JStr raw_text)]"

text \<open>A JSON value that is no object has no \<open>get\<close>: the exception ends the pump.\<close>

fun upstream_pump :: "(pyfloat \<Rightarrow> pstr) \<Rightarrow> pstr \<Rightarrow> pstr list \<Rightarrow> (pstr \<times> pstr) list" where
  "upstream_pump sf channel [] = []"
| "upstream_pump sf channel (raw_text # texts) =
     (if raw_text = [] then upstream_pump sf channel texts
      else
        case loads raw_text of
          None \<Rightarrow> (channel, dumps sf (stdin_frame raw_text)) # upstream_pump sf channel texts
        | Some (JObj frame) \<Rightarrow>
            if map_of frame (lit ''type'') \<in>
                 {Some (JStr (lit ''stdin'')), Some (JStr (lit ''resize'')), Some (JStr (lit ''signal''))}
            then (channel, raw_text) # upstream_pump sf channel texts
            else upstream_pump sf channel texts
        | Some _ \<Rightarrow> [])"

text \<open>Whether a text ends the pump that reads it; both endpoints treat texts alike here.\<close>

definition text_ends_pump :: "pstr \<Rightarrow> bool" where
  "text_ends_pump raw_text \<longleftrightarrow>
     raw_text \<noteq> [] \<and> (case loads raw_text of None \<Rightarrow> False | Some (JObj _) \<Rightarrow> False | Some _ \<Rightarrow> True)"

section \<open>The relay of a room\<close>

definition sync_channel :: "uuid \<Rightarrow> pstr" where
  "sync_channel room_id = lit ''rce:room:sync:'' @ show_uuid room_id"

definition exec_channel :: "uuid \<Rightarrow> pstr" where
  "exec_channel room_id = lit ''rce:room:exec:'' @ show_uuid room_id"

definition presence_event :: "pstr \<Rightarrow> pstr \<Rightarrow> json \<Rightarrow> json" where
  "presence_event action user_id email =
     JObj [(lit ''type'', JStr (lit ''presence'')), (lit ''action'', JStr action),
           (lit ''user_id'', JStr user_id), (lit ''email'', email)]"

definition stamp :: "pstr \<Rightarrow> json \<Rightarrow> (pstr \<times> json) list \<Rightarrow> (pstr \<times> json) list" where
  "stamp user_id email frame =
     dict_set (lit ''sender_email'') email (dict_set (lit ''sender_id'') (JStr user_id) frame)"

text \<open>A value that takes no string key raises \<open>TypeError\<close>, which ends the pump.\<close>

fun room_upstream ::
  "(pyfloat \<Rightarrow> pstr) \<Rightarrow> uuid \<Rightarrow> pstr \<Rightarrow> json \<Rightarrow> pstr list \<Rightarrow> (pstr \<times> pstr) list" where
  "room_upstream sf room_id user_id email [] = []"
| "room_upstream sf room_id user_id email (raw_text # texts) =
     (if raw_text = [] then room_upstream sf room_id user_id email texts
      else
        case loads raw_text of
          None \<Rightarrow> room_upstream sf room_id user_id email texts
        | Some (JObj raw_frame) \<Rightarrow>
            (let frame = stamp user_id email raw_frame; frame_type = map_of frame (lit ''type'')
             in if frame_type \<in> {Some (JStr (lit ''code_delta'')), Some (JStr (lit ''cursor_move'')),
                                  Some (JStr (lit ''chat_message''))}
                then (sync_channel room_id, dumps sf (JObj frame)) #
                     room_upstream sf room_id user_id email texts
                else if frame_type = Some (JStr (lit ''run_code''))
                then (exec_channel room_id, dumps sf (JObj frame)) #
                     room_upstream sf room_id user_id email texts
                else room_upstream sf room_id user_id email texts)
        | Some _ \<Rightarrow> [])"

text \<open>Everything one connection publishes, from joining to leaving.\<close>

definition room_session ::
  "(pyfloat \<Rightarrow> pstr) \<Rightarrow> uuid \<Rightarrow> (pstr \<times> json) list \<Rightarrow> pstr list \<Rightarrow> (pstr \<times> pstr) list" where
  "room_session sf room_id payload texts =
     (let user_id = (case map_of payload (lit ''sub'') of Some (JStr s) \<Rightarrow> s | _ \<Rightarrow> []);
          email = dict_get (lit ''email'') (JStr (lit ''Anonymous'')) payload
      in [(sync_channel room_id, dumps sf (presence_event (lit ''joined'') user_id email))] @
         room_upstream sf room_id user_id email texts @
         [(sync_channel room_id, dumps sf (presence_event (lit ''left'') user_id email))])"

definition websocket_collaborative_room ::
  "(pyfloat \<Rightarrow> pstr) \<Rightarrow> jwt \<Rightarrow> int \<Rightarrow> uuid \<Rightarrow> pstr option \<Rightarrow> pstr list \<Rightarrow> (pstr \<times> pstr) list" where
  "websocket_collaborative_room sf jw now room_id token texts =
     (case ws_handshake jw now token of
        Closed code \<Rightarrow> []
      | Accepted payload \<Rightarrow> room_session sf room_id payload texts)"

definition websocket_submission_input ::
  "(pyfloat \<Rightarrow> pstr) \<Rightarrow> jwt \<Rightarrow> int \<Rightarrow> uuid \<Rightarrow> pstr option \<Rightarrow> pstr list \<Rightarrow> (pstr \<times> pstr) list" where
  "websocket_submission_input sf jw now submission_id token texts =
     (case ws_handshake jw now token of
        Closed code \<Rightarrow> []
      | Accepted payload \<Rightarrow> upstream_pump sf (input_channel submission_id) texts)"

section \<open>Properties\<close>

lemma stdin_frame_read:
  "utf8_text t \<Longrightarrow> handle_input_frame signals (dumps sf (stdin_frame t)) = Some (Write_Stdin (JStr t))"
proof -
  assume t: "utf8_text t"
  then have l: "loads (dumps sf (stdin_frame t)) = Some (stdin_frame t)"
    by (intro loads_dumps) (simp add: stdin_frame_def)
  then have "dumps sf (stdin_frame t) \<noteq> []" by (simp add: stdin_frame_def)
  then show ?thesis
    unfolding handle_input_frame_def l by (simp add: stdin_frame_def dict_get_def)
qed

lemma upstream_raw:
  assumes "list_all (\<lambda>t. t \<noteq> [] \<and> loads t = None) ts"
  shows "upstream_pump sf channel (ts @ rest) =
    map (\<lambda>t. (channel, dumps sf (stdin_frame t))) ts @ upstream_pump sf channel rest"
  using assms by (induction ts) (simp_all del: dumps.simps)



lemma stamp_sender:
  "map_of (stamp uid email f) (lit ''sender_id'') = Some (JStr uid)"
  "map_of (stamp uid email f) (lit ''sender_email'') = Some email"
  by (simp_all add: stamp_def)

lemma room_upstream_stamped:
  "m \<in> set (room_upstream sf room_id uid email texts) \<Longrightarrow>
   \<exists>f. snd m = dumps sf (JObj (stamp uid email f)) \<and> fst m \<in> {sync_channel room_id, exec_channel room_id}"
proof (induction texts)
  case (Cons t texts)
  show ?case
  proof (cases "loads t")
    case None
    then show ?thesis using Cons by (simp split: if_splits)
  next
    case (Some v)
    then show ?thesis
      using Cons by (cases v) (auto simp: Let_def simp del: dumps.simps split: if_splits)
  qed
qed simp

text \<open>In a room nobody can speak for somebody else.  With a token the login endpoint minted for
  a user, everything the connection publishes goes to the channels of that room and carries
  that user's identifier as its sender, whatever the frames of the client say; the session
  begins with the user joining and ends with the user leaving.  The e-mail shown is always
  \<open>Anonymous\<close>: no token carries one.\<close>

lemma room_senders_authentic:
  assumes "jwt_ok jw" and "later < now + access_token_expire_minutes * 60000000"
    and "token = create_access_token jw now (show_uuid i) (Some (access_token_expire_minutes * 60000000))"
    and "token \<noteq> []"
  shows "\<exists>body. websocket_collaborative_room sf jw later room_id (Some token) texts =
      [(sync_channel room_id, dumps sf (presence_event (lit ''joined'') (show_uuid i) (JStr (lit ''Anonymous''))))] @
      body @ [(sync_channel room_id, dumps sf (presence_event (lit ''left'') (show_uuid i) (JStr (lit ''Anonymous''))))] \<and>
    (\<forall>m \<in> set body. fst m \<in> {sync_channel room_id, exec_channel room_id} \<and>
       (\<exists>f. snd m = dumps sf (JObj f) \<and> map_of f (lit ''sender_id'') = Some (JStr (show_uuid i)) \<and>
          map_of f (lit ''sender_email'') = Some (JStr (lit ''Anonymous''))))"
proof -
  let ?c = "access_claims now (show_uuid i) (Some (access_token_expire_minutes * 60000000))"
  have "decode_token jw later token = Some ?c"
    using token_decodes [OF assms(1,2), of "show_uuid i"] assms(3)
    by (simp add: decode_token_def create_access_token_def)
  moreover have "map_of ?c (lit ''sub'') = Some (JStr (show_uuid i))" "map_of ?c (lit ''email'') = None"
    by (simp_all add: access_claims_def Let_def)
  moreover have "show_uuid i \<noteq> []" by (simp add: show_uuid_def Let_def)
  ultimately have "websocket_collaborative_room sf jw later room_id (Some token) texts =
      [(sync_channel room_id, dumps sf (presence_event (lit ''joined'') (show_uuid i) (JStr (lit ''Anonymous''))))] @
      room_upstream sf room_id (show_uuid i) (JStr (lit ''Anonymous'')) texts @
      [(sync_channel room_id, dumps sf (presence_event (lit ''left'') (show_uuid i) (JStr (lit ''Anonymous''))))]"
    using assms(4)
    by (simp add: websocket_collaborative_room_def ws_handshake_def room_session_def dict_get_def Let_def
        del: dumps.simps)
  moreover have "\<forall>m \<in> set (room_upstream sf room_id (show_uuid i) (JStr (lit ''Anonymous'')) texts).
      fst m \<in> {sync_channel room_id, exec_channel room_id} \<and>
      (\<exists>f. snd m = dumps sf (JObj f) \<and> map_of f (lit ''sender_id'') = Some (JStr (show_uuid i)) \<and>
         map_of f (lit ''sender_email'') = Some (JStr (lit ''Anonymous'')))"
    using room_upstream_stamped stamp_sender by metis
  ultimately show ?thesis by blast
qed

lemma room_senders_authentic_witness:
  "hd (websocket_collaborative_room (\<lambda>_. []) demo_jwt 1000000 1
       (Some (create_access_token demo_jwt 0 (show_uuid 7) (Some (access_token_expire_minutes * 60000000))))
       [lit ''{}'']) =
     (sync_channel 1, dumps (\<lambda>_. []) (presence_event (lit ''joined'') (show_uuid 7) (JStr (lit ''Anonymous''))))"
proof -
  have "create_access_token demo_jwt 0 (show_uuid 7) (Some (access_token_expire_minutes * 60000000)) \<noteq> []"
    by (simp add: create_access_token_def demo_jwt_def access_claims_def Let_def)
  moreover have "(1000000 :: int) < 0 + access_token_expire_minutes * 60000000"
    by (simp add: access_token_expire_minutes_def)
  ultimately show ?thesis
    using room_senders_authentic [OF demo_jwt_ok _ refl, of 1000000 0 7 "\<lambda>_. []" 1 "[lit ''{}'']"]
    by (auto simp del: dumps.simps)
qed

end
