(* ===== verification/Submission_Socket.thy ===== *)
theory Submission_Socket
  imports Websocket_Sessions
begin

text \<open>
  One WebSocket of a submission (\<open>websocket_stream_submission\<close> of
  backend/app/api/v1/endpoints/websocket.py): the downstream pump of Stream_Delivery and the
  upstream pump of Websocket_Sessions running as two tasks.  An event is a live message from
  the broker, a text from the client, or the client going away; the session lasts until the
  first of the pumps ends, and the other one is cancelled.
\<close>

section \<open>The session\<close>

datatype socket_event = Frame pstr | Typed pstr | Client_Gone

record socket =
  so_pump :: pump_state
  so_published :: "(pstr \<times> pstr) list"
  so_running :: bool

text \<open>The buffer is replayed before the pumps wait for anything.\<close>

definition open_socket :: "pstr list \<Rightarrow> socket" where
  "open_socket buffered = \<lparr>so_pump = replay_buffer buffered, so_published = [], so_running = True\<rparr>"

fun socket_step :: "(pyfloat \<Rightarrow> pstr) \<Rightarrow> pstr \<Rightarrow> socket_event \<Rightarrow> socket \<Rightarrow> socket" where
  "socket_step sf channel (Frame data_str) so =
     (if \<not> so_running so \<or> data_str = [] then so
      else so\<lparr>so_pump := forward_frame data_str (so_pump so),
              so_running := \<not> (frame_seq data_str \<noteq> None \<and> frame_is_final data_str)\<rparr>)"
| "socket_step sf channel (Typed raw_text) so =
     (if \<not> so_running so then so
      else so\<lparr>so_published := so_published so @ upstream_pump sf channel [raw_text],
              so_running := \<not> text_ends_pump raw_text\<rparr>)"
| "socket_step sf channel Client_Gone so = so\<lparr>so_running := False\<rparr>"

definition submission_session ::
  "(pyfloat \<Rightarrow> pstr) \<Rightarrow> uuid \<Rightarrow> pstr list \<Rightarrow> socket_event list \<Rightarrow> socket" where
  "submission_session sf submission_id buffered events =
     fold (socket_step sf (input_channel submission_id)) events (open_socket buffered)"

section \<open>Closing\<close>

text \<open>\<open>with contextlib.suppress(Exception)\<close>: the block stops at its first failure.\<close>

datatype cleanup = Announce_Left | Unsubscribe | Close_Pubsub | Close_Redis | Close_Socket

fun suppressed :: "(cleanup \<Rightarrow> bool) \<Rightarrow> cleanup list \<Rightarrow> cleanup list" where
  "suppressed fails [] = []"
| "suppressed fails (a # as) = (if fails a then [] else a # suppressed fails as)"

definition close_submission_session :: "(cleanup \<Rightarrow> bool) \<Rightarrow> cleanup list" where
  "close_submission_session fails =
     suppressed fails [Unsubscribe, Close_Pubsub, Close_Redis] @ suppressed fails [Close_Socket]"

definition close_room_session :: "(cleanup \<Rightarrow> bool) \<Rightarrow> cleanup list" where
  "close_room_session fails =
     suppressed fails [Announce_Left, Unsubscribe, Close_Pubsub, Close_Redis] @ suppressed fails [Close_Socket]"

lemma socket_closed_anyway:
  "\<not> fails Close_Socket \<Longrightarrow> Close_Socket \<in> set (close_submission_session fails) \<inter> set (close_room_session fails)"
  by (simp add: close_submission_session_def close_room_session_def)

text \<open>A failing publication of the departure leaves the subscription and the client open.\<close>

lemma failed_departure_leaks:
  "fails Announce_Left \<Longrightarrow> set (close_room_session fails) \<subseteq> {Close_Socket}"
  "fails Unsubscribe \<Longrightarrow> Close_Redis \<notin> set (close_submission_session fails)"
  by (auto simp: close_room_session_def close_submission_session_def)

section \<open>The session is its two pumps\<close>

definition ends_session :: "socket_event \<Rightarrow> bool" where
  "ends_session e =
     (case e of
        Frame d \<Rightarrow> d \<noteq> [] \<and> frame_seq d \<noteq> None \<and> frame_is_final d
      | Typed t \<Rightarrow> text_ends_pump t
      | Client_Gone \<Rightarrow> True)"

text \<open>The events up to and including the first that ends the session.\<close>

fun lived :: "socket_event list \<Rightarrow> socket_event list" where
  "lived [] = []"
| "lived (e # es) = e # (if ends_session e then [] else lived es)"

definition live_frames :: "socket_event list \<Rightarrow> pstr list" where
  "live_frames es = List.map_filter (\<lambda>e. case e of Frame d \<Rightarrow> Some d | _ \<Rightarrow> None) es"

definition typed_texts :: "socket_event list \<Rightarrow> pstr list" where
  "typed_texts es = List.map_filter (\<lambda>e. case e of Typed t \<Rightarrow> Some t | _ \<Rightarrow> None) es"

lemma events_simps [simp]:
  "live_frames [] = []" "live_frames (Frame d # es) = d # live_frames es"
  "live_frames (Typed t # es) = live_frames es" "live_frames (Client_Gone # es) = live_frames es"
  "typed_texts [] = []" "typed_texts (Frame d # es) = typed_texts es"
  "typed_texts (Typed t # es) = t # typed_texts es" "typed_texts (Client_Gone # es) = typed_texts es"
  by (simp_all add: live_frames_def typed_texts_def map_filter_simps)

lemma upstream_pump_Cons:
  "upstream_pump sf ch (t # ts) =
     upstream_pump sf ch [t] @ (if text_ends_pump t then [] else upstream_pump sf ch ts)"
proof (cases "loads t")
  case (Some v)
  then show ?thesis by (cases v) (simp_all add: text_ends_pump_def del: dumps.simps)
qed (simp add: text_ends_pump_def del: dumps.simps)

lemma stopped_stays: "\<not> so_running so \<Longrightarrow> fold (socket_step sf ch) es so = so"
proof (induction es)
  case (Cons e es)
  then have "socket_step sf ch e so = so" by (cases e) auto
  then show ?case using Cons by simp
qed simp

lemma session_from:
  assumes "so_running so"
  shows "fold (socket_step sf ch) es so =
    \<lparr>so_pump = live_loop (live_frames (lived es)) (so_pump so),
     so_published = so_published so @ upstream_pump sf ch (typed_texts (lived es)),
     so_running = list_all (\<lambda>e. \<not> ends_session e) es\<rparr>"
  using assms
proof (induction es arbitrary: so)
  case (Cons e es)
  let ?so = "socket_step sf ch e so"
  show ?case
  proof (cases "ends_session e")
    case True
    then have "\<not> so_running ?so" using Cons.prems by (cases e) (auto simp: ends_session_def)
    then have "fold (socket_step sf ch) (e # es) so = ?so" by (simp add: stopped_stays)
    also have "\<dots> = \<lparr>so_pump = live_loop (live_frames [e]) (so_pump so),
        so_published = so_published so @ upstream_pump sf ch (typed_texts [e]), so_running = False\<rparr>"
      using True Cons.prems
      by (cases e) (auto simp: ends_session_def simp del: upstream_pump.simps(2))
    finally show ?thesis using True by simp
  next
    case False
    then have "so_running ?so" using Cons.prems by (cases e) (auto simp: ends_session_def)
    then show ?thesis
      using False Cons.IH [of ?so] Cons.prems
      by (cases e)
        (auto simp: ends_session_def upstream_pump_Cons [of sf ch _ "typed_texts (lived es)"]
          simp del: upstream_pump.simps(2) split: if_splits)
  qed
qed simp



end
