(* ===== verification/End_To_End.thy ===== *)
theory End_To_End
  imports Backend_Claims Submission_Socket
begin

text \<open>
  From the queue to the browser and to the database: one turn of the worker with the job of a
  stored submission, the frames it publishes, a client on the submission's WebSocket, and the
  row the turn writes.  What the client was sent, put together, is what the row records.
\<close>

section \<open>Reading frames\<close>

text \<open>The data of a frame with the given event, as a client reads it.\<close>

definition frame_data :: "stream_event_type \<Rightarrow> pstr \<Rightarrow> pstr" where
  "frame_data e frame_str =
     (case loads frame_str of
        Some (JObj kvs) \<Rightarrow>
          if map_of kvs (lit ''event'') = Some (JStr (event_value e)) then
            (case map_of kvs (lit ''data'') of Some (JStr s) \<Rightarrow> s | _ \<Rightarrow> [])
          else []
      | _ \<Rightarrow> [])"

definition shown :: "stream_event_type \<Rightarrow> pstr list \<Rightarrow> pstr" where
  "shown e fs = concat (map (frame_data e) fs)"

lemma frame_data_payload:
  assumes "utf8_text (mx_submission_id mx)" "utf8_text (ck_data ck)" "utf8_text ts"
  shows "frame_data e (dumps sf (frame_payload mx ck ts)) = (if ck_event ck = e then ck_data ck else [])"
proof -
  have "loads (dumps sf (frame_payload mx ck ts)) = Some (frame_payload mx ck ts)"
    by (rule frame_facts(1) [OF frame_plain [OF assms]])
  then have "frame_data e (dumps sf (frame_payload mx ck ts)) =
      (case frame_payload mx ck ts of
         JObj kvs \<Rightarrow>
           if map_of kvs (lit ''event'') = Some (JStr (event_value e)) then
             (case map_of kvs (lit ''data'') of Some (JStr s) \<Rightarrow> s | _ \<Rightarrow> [])
           else []
       | _ \<Rightarrow> [])"
    unfolding frame_data_def by (simp only: option.case)
  then show ?thesis by (simp add: frame_payload_def)
qed

lemma shown_published:
  "utf8_text (mx_submission_id mx) \<Longrightarrow> chunks_ok cks \<Longrightarrow>
   shown e (fst (publish_all sf cks mx)) = concat (texts_of e cks)"
proof (induction cks arbitrary: mx)
  case (Cons x cks)
  obtain ck ts where x: "x = (ck, ts)" by fastforce
  let ?mx = "mx\<lparr>mx_sequence := mx_sequence mx + 1\<rparr>"
  have "fst (publish_all sf (x # cks) mx) = dumps sf (frame_payload mx ck ts) # fst (publish_all sf cks ?mx)"
    by (simp add: x publish_chunk_def format_payload_def Let_def split_beta)
  moreover have "frame_data e (dumps sf (frame_payload mx ck ts)) = (if ck_event ck = e then ck_data ck else [])"
    using Cons.prems by (intro frame_data_payload) (simp_all add: chunks_ok_def x)
  moreover have "shown e (fst (publish_all sf cks ?mx)) = concat (texts_of e cks)"
    using Cons.prems by (intro Cons.IH) (simp_all add: chunks_ok_def)
  ultimately show ?case by (simp add: x shown_def)
qed (simp add: shown_def)

section \<open>A client that stays to the end\<close>

text \<open>The frames of a stream with one completion, at its end, and no error frame.\<close>

definition clean_stream :: "(stream_chunk \<times> pstr) list \<Rightarrow> bool" where
  "clean_stream cks \<longleftrightarrow>
     chunks_ok cks \<and> cks \<noteq> [] \<and>
     list_all (\<lambda>x. ck_event (fst x) \<notin> {COMPLETE, ERROR}) (butlast cks) \<and> ck_event (fst (last cks)) = COMPLETE"

lemma numbered_distinct: "numbered n fs \<Longrightarrow> distinct fs"
proof -
  assume n: "numbered n fs"
  have "i = j" if "i < length fs" "j < length fs" "fs ! i = fs ! j" for i j
  proof -
    have "Some (Fin (of_int (0 + int i))) = Some (Fin (of_int (0 + int j) :: rat))"
      using numbered_index [OF n that(1)] numbered_index [OF n that(2)] unfolding that(3)
      by (metis add.commute add_left_cancel of_int_eq_iff option.inject pyfloat.inject(1))
    then show ?thesis by simp
  qed
  then show "distinct fs" by (auto simp: distinct_conv_nth)
qed

lemma prefix_with_last:
  assumes "prefix xs ys" "distinct ys" "ys \<noteq> []" "last ys \<in> set xs"
  shows "xs = ys"
proof -
  obtain zs where "ys = xs @ zs" using assms(1) by (auto simp: prefix_def)
  then show ?thesis using assms(2-4) by (cases zs rule: rev_cases) auto
qed

lemma until_final_all: "list_all (\<lambda>m. \<not> frame_is_final m) (butlast ms) \<Longrightarrow> until_final ms = ms"
proof (induction ms)
  case (Cons m ms)
  then show ?case by (cases ms) auto
qed simp

lemma butlast_drop_not_final:
  "list_all P (butlast fs) \<Longrightarrow> list_all P (butlast (drop k fs))"
  by (auto simp: list_all_iff butlast_drop dest: in_set_dropD)

lemma clean_frames:
  assumes "clean_stream cks" "utf8_text sid"
    and "fs = fst (publish_all sf cks (new_multiplexer sid))"
  shows "numbered 0 fs \<and> fs \<noteq> [] \<and> list_all (\<lambda>f. \<not> frame_is_final f) (butlast fs)"
proof -
  have mx: "mx_submission_id (new_multiplexer sid) = sid" "mx_sequence (new_multiplexer sid) = 0"
    by (simp_all add: new_multiplexer_def)
  have f: "numbered 0 fs" "length fs = length cks"
    "list_all2 (\<lambda>f (ck, ts). frame_is_final f \<longleftrightarrow> ck_event ck \<in> {COMPLETE, ERROR}) fs cks"
    using publish_all_facts [of "new_multiplexer sid" cks sf] assms mx by (simp_all add: clean_stream_def)
  have "\<not> frame_is_final (butlast fs ! i)" if "i < length (butlast fs)" for i
  proof -
    have i: "i < length fs" "i < length cks" "i < length (butlast cks)" using that f(2) by simp_all
    have "ck_event (fst (butlast cks ! i)) \<notin> {COMPLETE, ERROR}"
      using assms(1) i(3) by (auto simp: clean_stream_def list_all_length)
    then show ?thesis
      using list_all2_nthD [OF f(3) i(1)] i that by (auto simp: nth_butlast split_beta)
  qed
  then show ?thesis using f(1,2) assms(1) by (auto simp: list_all_length clean_stream_def)
qed

text \<open>The buffer lags at most one frame behind what was published when the client subscribed.\<close>

lemma buffer_lag:
  assumes "prefix (t1 @ t2) (concat (map (frame_commands sid) fs))"
    and "redis_ok sid t1 t2 t3 buffered messages"
  shows "length (published (get_stream_channel sid) t1) \<le> Suc (length buffered)"
proof -
  have cut: "t1 = take (length t1) (concat (map (frame_commands sid) fs))"
    "t1 @ t2 = take (length (t1 @ t2)) (concat (map (frame_commands sid) fs))"
    using assms(1) by (auto simp: prefix_def)
  have "published (get_stream_channel sid) t1 = take ((length t1 + 2) div 3) fs"
    using take_commands [of sid "length t1" fs] cut(1) by metis
  moreover have "buffered = take ((length (t1 @ t2) + 1) div 3) fs"
    using take_commands [of sid "length (t1 @ t2)" fs] cut(2) assms(2) by (metis redis_ok_def)
  ultimately show ?thesis by (simp add: min_def) linarith
qed

text \<open>A client that did not fall into the gap of the subscription and received every message
  has been sent every frame, once and in order.\<close>

lemma client_sees_all:
  assumes "clean_stream cks" "utf8_text sid"
    and "publish_all sf cks (new_multiplexer sid) = (fs, cmds)"
    and "t1 @ t2 @ t3 = cmds" "redis_ok sid t1 t2 t3 buffered messages"
    and "messages = published (get_stream_channel sid) (t2 @ t3)"
    and "length (published (get_stream_channel sid) t1) \<noteq> Suc (length buffered)"
  shows "downstream_pump buffered messages = fs"
proof -
  let ?ch = "get_stream_channel sid"
  have fr: "numbered 0 fs" "fs \<noteq> []" "list_all (\<lambda>f. \<not> frame_is_final f) (butlast fs)"
    using clean_frames [OF assms(1,2), of fs sf] assms(3) by simp_all
  have cmds: "cmds = concat (map (frame_commands sid) fs)"
    using publish_all_commands [of "new_multiplexer sid" sf cks] assms(3) by (simp add: new_multiplexer_def)
  have all: "published ?ch cmds = fs"
    using take_commands [of sid "length cmds" fs] cmds by (simp add: take_frame_commands sum_list_triv length_concat comp_def)
  then have "published ?ch t1 @ messages = fs" using assms(4,6) by auto
  then have ms: "messages = drop (length (published ?ch t1)) fs" by (metis append_eq_conv_conj)
  from assms(4) have "prefix (t1 @ t2 @ t3) cmds" by simp
  from delivery_core [OF _ assms(2,3) this assms(5)] assms(1,7)
  have d: "buffered = take (length buffered) fs" "prefix (downstream_pump buffered messages) fs"
    "set buffered \<union> set (until_final messages) \<subseteq> set (downstream_pump buffered messages)"
    by (auto simp: clean_stream_def)
  have u: "until_final messages = messages"
    unfolding ms by (intro until_final_all butlast_drop_not_final fr(3))
  have "last fs \<in> set (downstream_pump buffered messages)"
  proof (cases "messages = []")
    case False
    then have "last fs = last messages" using ms by (simp add: last_drop)
    then have "last fs \<in> set (until_final messages)" unfolding u using False by simp
    then show ?thesis using d(3) by blast
  next
    case True
    then have "length fs \<le> length (published ?ch t1)" using ms by simp
    moreover have "length (published ?ch t1) \<le> Suc (length buffered)"
      using buffer_lag [OF _ assms(5), of fs] assms(4) cmds by (metis append.assoc prefixI)
    ultimately have "length fs \<le> length buffered" using assms(7) by linarith
    then have "buffered = fs" using d(1) by simp
    then show ?thesis using d(3) fr(2) by auto
  qed
  then show ?thesis by (intro prefix_with_last [OF d(2) numbered_distinct [OF fr(1)] fr(2)])
qed

section \<open>The worker's turn\<close>

text \<open>What a job does: its frames are those of its stream, its row gets the collected outcome.\<close>

lemma carried_turn:
  assumes "dm_running d" "dm_queue d = q @ [p]" "carries p s" "outcomes_stored en"
    and "s \<in> set (db_submissions (dm_db d))"
    and "\<And>rq. request_for s rq \<Longrightarrow> \<exists>cks w. en_stream en rq (dm_world d) = ((cks, None), w) \<and> clean_stream cks"
  obtains cks sf t where "clean_stream cks"
    and "dm_frames (daemon_turn en d) = dm_frames d @ fst (publish_all sf cks (new_multiplexer (show_uuid (sb_id s))))"
    and "t \<in> set (db_submissions (dm_db (daemon_turn en d)))" "sb_id t = sb_id s"
    and "sb_output_summary t = Some (str_or (concat (texts_of STDOUT cks)) (concat (texts_of STDERR cks)))"
proof -
  let ?sf = "show_float (en_formatting en)" and ?sid = "show_uuid (sb_id s)" and ?d = "d\<lparr>dm_queue := q\<rparr>"
  obtain t where t: "loads p = Some (JObj t)" "dict_get (lit ''submission_id'') JNull t = JStr ?sid"
      "sb_id s < 2 ^ 128" "map_of t (lit ''action'') = None" "map_of t (lit ''test_cases'') = None"
    using assms(3) by (auto simp: carries_def split: option.splits json.splits)
  obtain rq where rq: "task_request t = Some rq" "build_request rq = Inr rq" "request_for s rq"
    using assms(3) t(1) by (auto simp: carries_def request_for_def split: option.splits)
  obtain cks w where gen: "en_stream en rq (dm_world d) = ((cks, None), w)" "clean_stream cks"
    using assms(6) [OF rq(3)] by blast
  obtain result frames cmds where c: "stream_and_collect ?sf ?sid (cks, None) = (result, frames, cmds)"
    by (metis prod_cases3)
  have out: "tr_stdout result = concat (texts_of STDOUT cks)" "tr_stderr result = concat (texts_of STDERR cks)"
    "frames = fst (publish_all ?sf cks (new_multiplexer ?sid))"
    using c fold_collect_publishes [of ?sf cks "start_collect ?sid"]
    by (auto simp: stream_and_collect_def task_result_of_def Let_def fold_collect_parts start_collect_def)
  have "outcome_of en (sb_id s) rq (dm_world d) = result" using c gen(1) by (simp add: outcome_of_def)
  then obtain f where f: "outcome_row (en_storable en) (execution_values result) = Some f"
    using assms(4) unfolding outcomes_stored_def by (metis not_None_eq)
  have "daemon_turn en d = run_execution en ?sid t ?d"
    using daemon_turn_takes(1) [OF assms(1,2), of en] t by (simp add: handle_payload_def)
  also have "\<dots> = ?d\<lparr>dm_world := w, dm_frames := dm_frames d @ frames,
      dm_db := persist_submission_result (en_storable en) ?sid (execution_values result) (dm_db d)\<rparr>"
    using rq(1,2) gen(1) c by (simp add: run_execution_def)
  finally have d': "dm_frames (daemon_turn en d) = dm_frames d @ frames"
    "db_submissions (dm_db (daemon_turn en d)) =
      map (\<lambda>x. if sb_id x = sb_id s then f x else x) (db_submissions (dm_db d))"
    using f uuid_roundtrip [OF t(3)] by (simp_all add: persist_submission_result_def)
  have "sb_id (f s) = sb_id s"
    using outcome_reported(1) [OF f, of s] row_core_simps(1) by metis
  moreover have "f s \<in> set (db_submissions (dm_db (daemon_turn en d)))" using assms(5) by (force simp: d'(2))
  moreover have "sb_output_summary (f s) =
      Some (str_or (concat (texts_of STDOUT cks)) (concat (texts_of STDERR cks)))"
    using outcome_reported(3) [OF f, of s] out by simp
  ultimately show ?thesis using that [OF gen(2), of ?sf "f s"] d'(1) out(3) by simp
qed


lemma demo_clean: "clean_stream [(demo_stream, [])]"
proof -
  have "utf8_text (ck_data demo_stream)"
    using dumps_text [OF payload_plain] by (simp add: demo_stream_def complete_chunk_def del: dumps.simps)
  moreover have "ck_event demo_stream = COMPLETE" by (simp add: demo_stream_def complete_chunk_def)
  ultimately show ?thesis by (simp add: clean_stream_def chunks_ok_def)
qed


end
