(* ===== verification/Room_Hub.thy ===== *)
theory Room_Hub
  imports "HOL-Library.Sublist" Websocket_Sessions
begin

text \<open>
  The rooms of backend/app/api/v1/endpoints/websocket.py as one system: every WebSocket of a
  room is a connection with its two pumps, and the connections meet in the publish/subscribe
  broker.  A step is what happens between two awaits of one connection; the broker hands a
  published message to the connections that are subscribed at that moment, in the order of
  publication.
\<close>

section \<open>Connections and the broker\<close>

text \<open>\<open>Announced\<close>: accepted, \<open>joined\<close> published, not yet subscribed.  \<open>Live\<close>: both pumps
  run.  \<open>Ending\<close>: the upstream pump has ended by itself.  \<open>Departed\<close>: \<open>left\<close> is published.\<close>

datatype stage = Announced | Live | Ending | Departed | Gone

record connection =
  cn_room :: uuid
  cn_user_id :: pstr
  cn_email :: json
  cn_stage :: stage
  cn_inbox :: "pstr list"
  cn_sent :: "pstr list"

record hub =
  hb_connections :: "nat \<Rightarrow> connection option"
  hb_published :: "(pstr \<times> pstr) list"

definition empty_hub :: hub where
  "empty_hub = \<lparr>hb_connections = (\<lambda>_. None), hb_published = []\<rparr>"

definition in_room :: "uuid \<Rightarrow> pstr \<times> pstr \<Rightarrow> bool" where
  "in_room room_id m \<longleftrightarrow> fst m \<in> {sync_channel room_id, exec_channel room_id}"

definition subscribed :: "connection \<Rightarrow> bool" where
  "subscribed cn \<longleftrightarrow> cn_stage cn \<in> {Live, Ending, Departed}"

definition receive :: "pstr \<times> pstr \<Rightarrow> connection \<Rightarrow> connection" where
  "receive m cn =
     (if subscribed cn \<and> in_room (cn_room cn) m then cn\<lparr>cn_inbox := cn_inbox cn @ [snd m]\<rparr> else cn)"

definition publish :: "pstr \<times> pstr \<Rightarrow> hub \<Rightarrow> hub" where
  "publish m h =
     h\<lparr>hb_connections := (\<lambda>i. map_option (receive m) (hb_connections h i)),
       hb_published := hb_published h @ [m]\<rparr>"

definition put_connection :: "nat \<Rightarrow> connection \<Rightarrow> hub \<Rightarrow> hub" where
  "put_connection i cn h = h\<lparr>hb_connections := (hb_connections h)(i \<mapsto> cn)\<rparr>"

definition announce :: "(pyfloat \<Rightarrow> pstr) \<Rightarrow> pstr \<Rightarrow> connection \<Rightarrow> pstr \<times> pstr" where
  "announce sf action cn =
     (sync_channel (cn_room cn), dumps sf (presence_event action (cn_user_id cn) (cn_email cn)))"

text \<open>The connection of an accepted handshake, before it is subscribed.\<close>

definition new_connection :: "uuid \<Rightarrow> (pstr \<times> json) list \<Rightarrow> connection" where
  "new_connection room_id payload =
     \<lparr>cn_room = room_id,
      cn_user_id = (case map_of payload (lit ''sub'') of Some (JStr s) \<Rightarrow> s | _ \<Rightarrow> []),
      cn_email = dict_get (lit ''email'') (JStr (lit ''Anonymous'')) payload,
      cn_stage = Announced, cn_inbox = [], cn_sent = []\<rparr>"

text \<open>What one text of a client publishes.\<close>

definition text_publishes :: "(pyfloat \<Rightarrow> pstr) \<Rightarrow> connection \<Rightarrow> pstr \<Rightarrow> (pstr \<times> pstr) list" where
  "text_publishes sf cn raw_text = room_upstream sf (cn_room cn) (cn_user_id cn) (cn_email cn) [raw_text]"

section \<open>Steps\<close>

datatype hub_event =
  Joins nat uuid "(pstr \<times> json) list" | Subscribes nat | Types nat pstr | Delivers nat
| Leaves nat | Unsubscribes nat

text \<open>\<open>None\<close> when the event is not enabled.  A message without data is taken and dropped; a pump
  may end, and with it the session, at any moment after the connection was announced.\<close>

fun hub_step :: "(pyfloat \<Rightarrow> pstr) \<Rightarrow> hub_event \<Rightarrow> hub \<Rightarrow> hub option" where
  "hub_step sf (Joins i room_id payload) h =
     (case hb_connections h i of
        None \<Rightarrow>
          (let cn = new_connection room_id payload
           in Some (publish (announce sf (lit ''joined'') cn) (put_connection i cn h)))
      | Some _ \<Rightarrow> None)"
| "hub_step sf (Subscribes i) h =
     (case hb_connections h i of
        Some cn \<Rightarrow>
          if cn_stage cn = Announced then Some (put_connection i (cn\<lparr>cn_stage := Live\<rparr>) h) else None
      | None \<Rightarrow> None)"
| "hub_step sf (Types i raw_text) h =
     (case hb_connections h i of
        Some cn \<Rightarrow>
          if cn_stage cn = Live then
            if text_ends_pump raw_text then Some (put_connection i (cn\<lparr>cn_stage := Ending\<rparr>) h)
            else Some (fold publish (text_publishes sf cn raw_text) h)
          else None
      | None \<Rightarrow> None)"
| "hub_step sf (Delivers i) h =
     (case hb_connections h i of
        Some cn \<Rightarrow>
          if cn_stage cn \<in> {Live, Ending} then
            (case cn_inbox cn of
               [] \<Rightarrow> None
             | t # ts \<Rightarrow>
                 Some (put_connection i
                   (cn\<lparr>cn_inbox := ts, cn_sent := (if t \<noteq> [] then cn_sent cn @ [t] else cn_sent cn)\<rparr>) h))
          else None
      | None \<Rightarrow> None)"
| "hub_step sf (Leaves i) h =
     (case hb_connections h i of
        Some cn \<Rightarrow>
          if cn_stage cn \<in> {Live, Ending}
          then Some (publish (announce sf (lit ''left'') cn) (put_connection i (cn\<lparr>cn_stage := Departed\<rparr>) h))
          else if cn_stage cn = Announced
          then Some (publish (announce sf (lit ''left'') cn) (put_connection i (cn\<lparr>cn_stage := Gone\<rparr>) h))
          else None
      | None \<Rightarrow> None)"
| "hub_step sf (Unsubscribes i) h =
     (case hb_connections h i of
        Some cn \<Rightarrow>
          if cn_stage cn = Departed then Some (put_connection i (cn\<lparr>cn_stage := Gone\<rparr>) h) else None
      | None \<Rightarrow> None)"

inductive reachable_hub :: "(pyfloat \<Rightarrow> pstr) \<Rightarrow> hub \<Rightarrow> bool" for sf where
  hub_start: "reachable_hub sf empty_hub"
| hub_next: "reachable_hub sf h \<Longrightarrow> hub_step sf e h = Some h' \<Longrightarrow> reachable_hub sf h'"

section \<open>The pump as a sequence of steps\<close>

text \<open>The steps of one connection publish what its upstream pump publishes.\<close>

lemma room_upstream_steps:
  "room_upstream sf (cn_room cn) (cn_user_id cn) (cn_email cn) (t # ts) =
     (if text_ends_pump t then []
      else text_publishes sf cn t @ room_upstream sf (cn_room cn) (cn_user_id cn) (cn_email cn) ts)"
proof (cases "loads t")
  case None
  then show ?thesis by (simp add: text_ends_pump_def text_publishes_def)
next
  case (Some v)
  then show ?thesis
    by (cases v) (simp_all add: text_ends_pump_def text_publishes_def Let_def del: dumps.simps)
qed

section \<open>What a connection has seen\<close>

definition room_log :: "uuid \<Rightarrow> (pstr \<times> pstr) list \<Rightarrow> pstr list" where
  "room_log room_id msgs = map snd (filter (in_room room_id) msgs)"

definition view_ok :: "(pstr \<times> pstr) list \<Rightarrow> connection \<Rightarrow> bool" where
  "view_ok msgs cn \<longleftrightarrow>
     sublist (cn_sent cn @ cn_inbox cn) (room_log (cn_room cn) msgs) \<and>
     (subscribed cn \<longrightarrow> suffix (cn_sent cn @ cn_inbox cn) (room_log (cn_room cn) msgs)) \<and>
     (cn_stage cn = Announced \<longrightarrow> cn_sent cn = [] \<and> cn_inbox cn = [])"

text \<open>What a connection may say: its own presence, and frames stamped with its identity.\<close>

definition spoken_by :: "(pyfloat \<Rightarrow> pstr) \<Rightarrow> connection \<Rightarrow> pstr \<times> pstr \<Rightarrow> bool" where
  "spoken_by sf cn m \<longleftrightarrow>
     in_room (cn_room cn) m \<and>
     ((\<exists>action \<in> {lit ''joined'', lit ''left''}.
         snd m = dumps sf (presence_event action (cn_user_id cn) (cn_email cn))) \<or>
      (\<exists>f. snd m = dumps sf (JObj (stamp (cn_user_id cn) (cn_email cn) f))))"

abbreviation identity :: "connection \<Rightarrow> uuid \<times> pstr \<times> json" where
  "identity cn \<equiv> (cn_room cn, cn_user_id cn, cn_email cn)"

definition hub_inv :: "(pyfloat \<Rightarrow> pstr) \<Rightarrow> hub \<Rightarrow> bool" where
  "hub_inv sf h \<longleftrightarrow>
     (\<forall>i cn. hb_connections h i = Some cn \<longrightarrow> view_ok (hb_published h) cn) \<and>
     (\<forall>m \<in> set (hb_published h). \<exists>i cn. hb_connections h i = Some cn \<and> spoken_by sf cn m)"

lemma spoken_nonempty: "spoken_by sf cn m \<Longrightarrow> snd m \<noteq> []"
  by (auto simp: spoken_by_def presence_event_def)

lemma spoken_identity: "identity cn = identity cn' \<Longrightarrow> spoken_by sf cn m = spoken_by sf cn' m"
  by (simp add: spoken_by_def)

lemma receive_identity [simp]:
  "identity (receive m cn) = identity cn" "cn_stage (receive m cn) = cn_stage cn"
  by (simp_all add: receive_def)

lemma room_log_snoc:
  "room_log room_id (msgs @ [m]) = room_log room_id msgs @ (if in_room room_id m then [snd m] else [])"
  by (simp add: room_log_def)

lemma view_receive:
  assumes "view_ok msgs cn"
  shows "view_ok (msgs @ [m]) (receive m cn)"
proof (cases "subscribed cn \<and> in_room (cn_room cn) m")
  case True
  then have "suffix ((cn_sent cn @ cn_inbox cn) @ [snd m]) (room_log (cn_room cn) (msgs @ [m]))"
    using assms by (auto simp: view_ok_def room_log_snoc suffix_def)
  then show ?thesis
    using assms True by (auto simp: view_ok_def receive_def subscribed_def suffix_imp_sublist)
next
  case False
  then have "receive m cn = cn" by (auto simp: receive_def)
  then show ?thesis using assms False by (auto simp: view_ok_def room_log_snoc sublist_append)
qed

lemma publish_simps [simp]:
  "hb_published (publish m h) = hb_published h @ [m]"
  "hb_connections (publish m h) i = map_option (receive m) (hb_connections h i)"
  by (simp_all add: publish_def)

lemma put_simps [simp]:
  "hb_published (put_connection i cn h) = hb_published h"
  "hb_connections (put_connection i cn h) j = (if j = i then Some cn else hb_connections h j)"
  by (simp_all add: put_connection_def)

lemma hub_inv_publish:
  assumes "hub_inv sf h" and "hb_connections h i = Some cn" and "spoken_by sf cn m"
  shows "hub_inv sf (publish m h)"
  unfolding hub_inv_def
proof (intro conjI allI impI ballI)
  fix j cn' assume "hb_connections (publish m h) j = Some cn'"
  then show "view_ok (hb_published (publish m h)) cn'"
    using assms(1) by (auto simp: hub_inv_def view_receive)
next
  fix m' assume "m' \<in> set (hb_published (publish m h))"
  then obtain j cn' where "hb_connections h j = Some cn'" "spoken_by sf cn' m'"
    using assms by (auto simp: hub_inv_def)
  then show "\<exists>j cn'. hb_connections (publish m h) j = Some cn' \<and> spoken_by sf cn' m'"
    using spoken_identity [of "receive m cn'" cn'] by (intro exI [of _ j]) simp
qed

lemma hub_inv_put:
  assumes "hub_inv sf h" and "hb_connections h i = Some cn" and "identity cn' = identity cn"
    and "view_ok (hb_published h) cn'"
  shows "hub_inv sf (put_connection i cn' h)"
  unfolding hub_inv_def
proof (intro conjI allI impI ballI)
  fix j c assume "hb_connections (put_connection i cn' h) j = Some c"
  then show "view_ok (hb_published (put_connection i cn' h)) c"
    using assms(1,4) by (auto simp: hub_inv_def split: if_splits)
next
  fix m assume "m \<in> set (hb_published (put_connection i cn' h))"
  then obtain j c where j: "hb_connections h j = Some c" "spoken_by sf c m"
    using assms(1) by (auto simp: hub_inv_def)
  then show "\<exists>j c. hb_connections (put_connection i cn' h) j = Some c \<and> spoken_by sf c m"
    using assms(2) spoken_identity [OF assms(3), of sf m] by (intro exI [of _ j]) auto
qed

lemma hub_inv_new:
  assumes "hub_inv sf h" and "hb_connections h i = None"
    and "cn_stage cn = Announced" "cn_sent cn = []" "cn_inbox cn = []"
  shows "hub_inv sf (put_connection i cn h)"
  unfolding hub_inv_def
proof (intro conjI allI impI ballI)
  fix j c assume "hb_connections (put_connection i cn h) j = Some c"
  then show "view_ok (hb_published (put_connection i cn h)) c"
    using assms by (auto simp: hub_inv_def view_ok_def subscribed_def split: if_splits)
next
  fix m assume "m \<in> set (hb_published (put_connection i cn h))"
  then obtain j c where "hb_connections h j = Some c" "spoken_by sf c m"
    using assms(1) by (auto simp: hub_inv_def)
  then show "\<exists>j c. hb_connections (put_connection i cn h) j = Some c \<and> spoken_by sf c m"
    using assms(2) by (intro exI [of _ j] exI [of _ c]) auto
qed

lemma hub_inv_publishes:
  "hub_inv sf h \<Longrightarrow> hb_connections h i = Some cn \<Longrightarrow> \<forall>m \<in> set ms. spoken_by sf cn m \<Longrightarrow>
   hub_inv sf (fold publish ms h)"
proof (induction ms arbitrary: h cn)
  case (Cons m ms)
  have "hub_inv sf (publish m h)" using Cons.prems by (intro hub_inv_publish) auto
  moreover have "hb_connections (publish m h) i = Some (receive m cn)" using Cons.prems(2) by simp
  moreover have "\<forall>m' \<in> set ms. spoken_by sf (receive m cn) m'"
    using Cons.prems(3) spoken_identity [of "receive m cn" cn] by simp
  ultimately show ?case using Cons.IH by simp
qed simp

lemma announce_spoken:
  "action \<in> {lit ''joined'', lit ''left''} \<Longrightarrow> spoken_by sf cn (announce sf action cn)"
  by (auto simp: spoken_by_def announce_def in_room_def simp del: dumps.simps)

lemma text_spoken: "m \<in> set (text_publishes sf cn t) \<Longrightarrow> spoken_by sf cn m"
  using room_upstream_stamped [of m sf "cn_room cn" "cn_user_id cn" "cn_email cn" "[t]"]
  by (auto simp: spoken_by_def text_publishes_def in_room_def simp del: dumps.simps room_upstream.simps)

lemma hub_inv_announce:
  assumes "hub_inv sf (put_connection i cn h)" "action \<in> {lit ''joined'', lit ''left''}"
    and "identity cn' = identity cn"
  shows "hub_inv sf (publish (announce sf action cn') (put_connection i cn h))"
proof (rule hub_inv_publish [OF assms(1)])
  show "hb_connections (put_connection i cn h) i = Some cn" by simp
  show "spoken_by sf cn (announce sf action cn')"
    using announce_spoken [OF assms(2), of sf cn'] spoken_identity [OF assms(3)] by simp
qed

text \<open>What waits for a connection has been published in its room, so it is not empty.\<close>

lemma inbox_nonempty:
  assumes "hub_inv sf h" and "hb_connections h i = Some cn" and "t \<in> set (cn_inbox cn)"
  shows "t \<noteq> []"
proof -
  have "sublist (cn_sent cn @ cn_inbox cn) (room_log (cn_room cn) (hb_published h))"
    using assms(1,2) by (simp add: hub_inv_def view_ok_def)
  then have "t \<in> set (room_log (cn_room cn) (hb_published h))"
    using assms(3) set_mono_sublist by fastforce
  then obtain m where m: "m \<in> set (hb_published h)" "t = snd m" by (auto simp: room_log_def)
  then obtain j c where "spoken_by sf c m" using assms(1) unfolding hub_inv_def by blast
  then show ?thesis unfolding m(2) by (rule spoken_nonempty)
qed

lemma hub_step_inv:
  assumes "hub_inv sf h" and "hub_step sf e h = Some h'"
  shows "hub_inv sf h'"
proof (cases e)
  case (Joins i room_id payload)
  let ?cn = "new_connection room_id payload"
  have "hb_connections h i = None" and h': "h' = publish (announce sf (lit ''joined'') ?cn) (put_connection i ?cn h)"
    using assms(2) Joins by (auto simp: Let_def split: option.splits)
  then show ?thesis
    unfolding h' by (intro hub_inv_announce hub_inv_new assms(1)) (simp_all add: new_connection_def)
next
  case (Types i t)
  then obtain cn where cn: "hb_connections h i = Some cn" "cn_stage cn = Live"
    using assms(2) by (auto split: option.splits if_splits)
  then have v: "view_ok (hb_published h) (cn\<lparr>cn_stage := Ending\<rparr>)"
    using assms(1) by (auto simp: hub_inv_def view_ok_def subscribed_def)
  show ?thesis
  proof (cases "text_ends_pump t")
    case True
    then show ?thesis
      using hub_inv_put [OF assms(1) cn(1) _ v] Types cn assms(2) by simp
  next
    case False
    then show ?thesis
      using hub_inv_publishes [OF assms(1) cn(1), of "text_publishes sf cn t"] Types cn assms(2)
      by (simp add: text_spoken)
  qed
next
  case (Subscribes i)
  then obtain cn where cn: "hb_connections h i = Some cn" "cn_stage cn = Announced"
      and h': "h' = put_connection i (cn\<lparr>cn_stage := Live\<rparr>) h"
    using assms(2) by (auto split: option.splits if_splits)
  then have "view_ok (hb_published h) (cn\<lparr>cn_stage := Live\<rparr>)"
    using assms(1) by (auto simp: hub_inv_def view_ok_def)
  then show ?thesis unfolding h' using hub_inv_put [OF assms(1) cn(1)] by simp
next
  case (Delivers i)
  then obtain cn t ts where cn: "hb_connections h i = Some cn" "cn_inbox cn = t # ts"
      and st: "cn_stage cn \<in> {Live, Ending}"
      and h': "h' = put_connection i
        (cn\<lparr>cn_inbox := ts, cn_sent := (if t \<noteq> [] then cn_sent cn @ [t] else cn_sent cn)\<rparr>) h"
    using assms(2) by (fastforce split: option.splits if_splits list.splits)
  have v: "view_ok (hb_published h) cn" using assms(1) cn by (simp add: hub_inv_def)
  have "t \<noteq> []" by (rule inbox_nonempty [OF assms(1) cn(1)]) (simp add: cn)
  moreover from this v st cn have "view_ok (hb_published h) (cn\<lparr>cn_inbox := ts, cn_sent := cn_sent cn @ [t]\<rparr>)"
    by (auto simp: view_ok_def subscribed_def)
  ultimately show ?thesis unfolding h' using hub_inv_put [OF assms(1) cn(1)] by simp
next
  case (Leaves i)
  then obtain cn g where cn: "hb_connections h i = Some cn"
      and g: "g = Departed \<and> cn_stage cn \<in> {Live, Ending} \<or> g = Gone \<and> cn_stage cn = Announced"
      and h': "h' = publish (announce sf (lit ''left'') cn) (put_connection i (cn\<lparr>cn_stage := g\<rparr>) h)"
    using assms(2) by (auto split: option.splits if_splits)
  have "view_ok (hb_published h) (cn\<lparr>cn_stage := g\<rparr>)"
    using assms(1) cn g by (auto simp: hub_inv_def view_ok_def subscribed_def)
  then show ?thesis
    unfolding h' by (intro hub_inv_announce hub_inv_put [OF assms(1) cn]) simp_all
next
  case (Unsubscribes i)
  then obtain cn where cn: "hb_connections h i = Some cn" "cn_stage cn = Departed"
      and h': "h' = put_connection i (cn\<lparr>cn_stage := Gone\<rparr>) h"
    using assms(2) by (auto split: option.splits if_splits)
  then have "view_ok (hb_published h) (cn\<lparr>cn_stage := Gone\<rparr>)"
    using assms(1) by (auto simp: hub_inv_def view_ok_def subscribed_def)
  then show ?thesis unfolding h' using hub_inv_put [OF assms(1) cn(1)] by simp
qed

lemma reachable_hub_inv: "reachable_hub sf h \<Longrightarrow> hub_inv sf h"
proof (induction rule: reachable_hub.induct)
  case hub_start
  show ?case by (simp add: hub_inv_def empty_hub_def)
next
  case (hub_next h e h')
  then show ?case using hub_step_inv by blast
qed

section \<open>What participants see\<close>

text \<open>C27. All participants of a room see one order of events.  What a connection was sent is a
  contiguous run of what was published in its room; two connections that are subscribed and
  have nothing waiting have seen the same messages in the same order since the later of them
  subscribed; and nothing that waits is lost: it can be delivered, in order, to the end.\<close>

theorem room_order_agreed:
  assumes "reachable_hub sf h"
    and "hb_connections h i = Some a" and "hb_connections h j = Some b" and "cn_room a = cn_room b"
  shows "sublist (cn_sent a) (room_log (cn_room a) (hb_published h)) \<and>
         (subscribed a \<and> cn_inbox a = [] \<and> subscribed b \<and> cn_inbox b = [] \<longrightarrow>
            suffix (cn_sent a) (cn_sent b) \<or> suffix (cn_sent b) (cn_sent a)) \<and>
         (subscribed a \<longrightarrow> suffix (cn_sent a @ cn_inbox a) (room_log (cn_room a) (hb_published h)))"
proof -
  have a: "view_ok (hb_published h) a" and b: "view_ok (hb_published h) b"
    using reachable_hub_inv [OF assms(1)] assms(2,3) by (auto simp: hub_inv_def)
  from a have "sublist (cn_sent a @ cn_inbox a) (room_log (cn_room a) (hb_published h))"
    by (simp add: view_ok_def)
  then have "sublist (cn_sent a) (room_log (cn_room a) (hb_published h))"
    by (rule sublist_order.order_trans [rotated]) simp
  moreover have "suffix (cn_sent a) (cn_sent b) \<or> suffix (cn_sent b) (cn_sent a)"
    if "subscribed a" "cn_inbox a = []" "subscribed b" "cn_inbox b = []"
    using a b that assms(4) suffix_same_cases [of "cn_sent a" _ "cn_sent b"] by (auto simp: view_ok_def)
  ultimately show ?thesis using a by (auto simp: view_ok_def)
qed

lemma in_room_unique:
  assumes "in_room r m" "in_room r' m" "r < 2 ^ 128" "r' < 2 ^ 128"
  shows "r = r'"
proof -
  have "show_uuid r = show_uuid r'"
    using assms(1,2) by (auto simp: in_room_def sync_channel_def exec_channel_def lit_def)
  then show ?thesis using show_uuid_inject assms(3,4) by blast
qed


text \<open>The waiting messages of a live connection can all be delivered, in their order.\<close>

lemma inbox_drains:
  assumes "reachable_hub sf h" and "hb_connections h i = Some a" and "cn_stage a \<in> {Live, Ending}"
  shows "\<exists>h' a'. reachable_hub sf h' \<and> hb_connections h' i = Some a' \<and>
    cn_inbox a' = [] \<and> cn_sent a' = cn_sent a @ cn_inbox a \<and> hb_published h' = hb_published h"
  using assms
proof (induction "cn_inbox a" arbitrary: h a)
  case Nil
  then show ?case by (intro exI [of _ h] exI [of _ a]) simp
next
  case (Cons t ts)
  have "t \<noteq> []"
    by (rule inbox_nonempty [OF reachable_hub_inv [OF Cons.prems(1)] Cons.prems(2)]) (simp flip: Cons.hyps(2))
  let ?a = "a\<lparr>cn_inbox := ts, cn_sent := cn_sent a @ [t]\<rparr>"
  have step: "hub_step sf (Delivers i) h = Some (put_connection i ?a h)"
    using Cons.prems(2,3) Cons.hyps(2) [symmetric] \<open>t \<noteq> []\<close> by simp
  have "\<exists>h' a'. reachable_hub sf h' \<and> hb_connections h' i = Some a' \<and> cn_inbox a' = [] \<and>
      cn_sent a' = cn_sent ?a @ cn_inbox ?a \<and> hb_published h' = hb_published (put_connection i ?a h)"
    using Cons.prems(3) by (intro Cons.hyps(1) hub_next [OF Cons.prems(1) step]) simp_all
  then show ?case using Cons.hyps(2) [symmetric] by simp
qed

text \<open>Two users of room 2: the second arrives while the first is subscribed.\<close>

definition demo_payload :: "nat \<Rightarrow> (pstr \<times> json) list" where
  "demo_payload i = [(lit ''sub'', JStr (show_uuid i))]"

definition demo_arrival :: "hub_event list" where
  "demo_arrival = [Joins 0 2 (demo_payload 7), Subscribes 0, Joins 1 2 (demo_payload 8), Subscribes 1, Delivers 0]"

fun hub_run :: "(pyfloat \<Rightarrow> pstr) \<Rightarrow> hub_event list \<Rightarrow> hub \<Rightarrow> hub option" where
  "hub_run sf [] h = Some h"
| "hub_run sf (e # es) h = (case hub_step sf e h of None \<Rightarrow> None | Some h1 \<Rightarrow> hub_run sf es h1)"

lemma hub_run_reachable: "reachable_hub sf h \<Longrightarrow> hub_run sf es h = Some h' \<Longrightarrow> reachable_hub sf h'"
  by (induction sf es h rule: hub_run.induct) (auto split: option.splits intro: hub_next)

definition demo_member :: "nat \<Rightarrow> connection" where
  "demo_member i = (new_connection 2 (demo_payload i))\<lparr>cn_stage := Live\<rparr>"

definition demo_joined :: "nat \<Rightarrow> pstr \<times> pstr" where
  "demo_joined i = announce (\<lambda>_. []) (lit ''joined'') (demo_member i)"

lemma demo_hub:
  "\<exists>h. reachable_hub (\<lambda>_. []) h \<and>
     hb_connections h = (\<lambda>_. None)(0 \<mapsto> (demo_member 7)\<lparr>cn_sent := [snd (demo_joined 8)]\<rparr>, 1 \<mapsto> demo_member 8) \<and>
     hb_published h = [demo_joined 7, demo_joined 8]"
proof -
  have ne: "snd (demo_joined 8) \<noteq> []" by (simp add: demo_joined_def announce_def presence_event_def)
  have ann: "announce (\<lambda>_. []) (lit ''joined'') (new_connection 2 (demo_payload i)) = demo_joined i" for i
    by (simp add: demo_joined_def demo_member_def announce_def)
  have room: "in_room 2 (demo_joined i)" for i
    by (simp add: demo_joined_def in_room_def announce_def demo_member_def new_connection_def)
  have new [simp]: "cn_room (new_connection r p) = r" "cn_stage (new_connection r p) = Announced"
      "cn_inbox (new_connection r p) = []" "cn_sent (new_connection r p) = []" for r p
    by (simp_all add: new_connection_def)
  have "\<exists>h. hub_run (\<lambda>_. []) demo_arrival empty_hub = Some h \<and>
     hb_connections h = (\<lambda>_. None)(0 \<mapsto> (demo_member 7)\<lparr>cn_sent := [snd (demo_joined 8)]\<rparr>, 1 \<mapsto> demo_member 8) \<and>
     hb_published h = [demo_joined 7, demo_joined 8]"
    using ne room by (auto simp: demo_arrival_def Let_def ann empty_hub_def put_connection_def publish_def
        demo_member_def receive_def subscribed_def fun_eq_iff)
  then show ?thesis using hub_run_reachable [OF hub_start] by blast
qed

theorem room_order_agreed_witness:
  "\<exists>h a. reachable_hub (\<lambda>_. []) h \<and> hb_connections h 0 = Some a \<and> cn_sent a \<noteq> [] \<and>
     sublist (cn_sent a) (room_log (cn_room a) (hb_published h))"
proof -
  obtain h where h: "reachable_hub (\<lambda>_. []) h"
    "hb_connections h = (\<lambda>_. None)(0 \<mapsto> (demo_member 7)\<lparr>cn_sent := [snd (demo_joined 8)]\<rparr>, 1 \<mapsto> demo_member 8)"
    using demo_hub by blast
  then have "hb_connections h 0 = Some ((demo_member 7)\<lparr>cn_sent := [snd (demo_joined 8)]\<rparr>)" by simp
  from room_order_agreed [OF h(1) this this refl] this h(1) show ?thesis by (intro exI [of _ h]) simp
qed


end
