(* ===== verification/Grading_Steps.thy ===== *)
theory Grading_Steps
  imports Grading_Claims
begin

text \<open>
  The grading loop one test case at a time.  \<open>grade_next\<close> is one iteration; iterated it is
  \<open>grade_loop\<close>.  Between two iterations the world of the sandboxes may change: what the loop
  then computes is what it computes on the outcomes it saw, one per test case.
\<close>

section \<open>One iteration\<close>

fun grade_next ::
  "formatting \<Rightarrow> 'w driver \<Rightarrow> grading_job \<Rightarrow> pyfloat \<Rightarrow> test_case_data list \<times> grading_state \<Rightarrow> 'w
     \<Rightarrow> (py_exn + test_case_data list \<times> grading_state) \<times> 'w" where
  "grade_next fmt exec job timeout ([], s) w = (Inr ([], s), w)"
| "grade_next fmt exec job timeout (tc # tcs, s) w =
     (case build_request (case_request job timeout tc) of
        Inl exc \<Rightarrow> (Inl exc, w)
      | Inr request \<Rightarrow>
          (case exec w request of
             (Inl exc, w') \<Rightarrow> (Inr (tcs, note_verdict (system_error_verdict tc exc) s), w')
           | (Inr r, w') \<Rightarrow>
               if rs_status r = ES_COMPILE_ERROR then
                 (Inr ([], (note_usage r s)
                    \<lparr>gr_compile_error := Some (str_or (rs_compile_output r) (rs_stderr r)),
                     gr_results := gr_results s @ measured r (compile_failed_verdict tc) #
                                   map compile_failed_verdict tcs\<rparr>), w')
               else
                 (Inr (tcs, note_verdict (judge_result fmt job tc r) (note_usage r s)), w')))"

text \<open>The end of the loop.\<close>

fun loop_over :: "py_exn + test_case_data list \<times> grading_state \<Rightarrow> bool" where
  "loop_over (Inl exc) = True"
| "loop_over (Inr (tcs, s)) = (tcs = [])"

section \<open>Nothing in between\<close>

lemma grade_loop_next:
  "grade_loop fmt exec job timeout (tc # tcs) s w =
     (case grade_next fmt exec job timeout (tc # tcs, s) w of
        (Inl exc, w') \<Rightarrow> (Inl exc, w')
      | (Inr (tcs', s'), w') \<Rightarrow> grade_loop fmt exec job timeout tcs' s' w')"
  by (simp split: sum.split prod.split)

lemma grade_next_raises:
  "grade_next fmt exec job timeout (rest, s) w = (Inl exc, w') \<Longrightarrow> \<not> job_valid job timeout"
  by (cases rest) (auto simp: build_case_request split: sum.splits prod.splits if_splits)

definition next_case ::
  "formatting \<Rightarrow> 'w driver \<Rightarrow> grading_job \<Rightarrow> pyfloat \<Rightarrow>
   (py_exn + test_case_data list \<times> grading_state) \<times> 'w \<Rightarrow> (py_exn + test_case_data list \<times> grading_state) \<times> 'w" where
  "next_case fmt exec job timeout x =
     (case x of (Inl exc, w) \<Rightarrow> (Inl exc, w) | (Inr work, w) \<Rightarrow> grade_next fmt exec job timeout work w)"

lemma next_case_over [simp]:
  "loop_over (fst x) \<Longrightarrow> next_case fmt exec job timeout x = x"
  by (cases x; cases "fst x"; auto simp: next_case_def split: sum.split)

lemma next_case_rest:
  "next_case fmt exec job timeout (Inr (tcs, s), w) = (Inr (tcs', s'), w') \<Longrightarrow> length tcs' \<le> length tcs - 1"
  by (cases tcs) (auto simp: next_case_def split: sum.splits prod.splits if_splits)

lemma iterated_over [simp]:
  "loop_over (fst x) \<Longrightarrow> (next_case fmt exec job timeout ^^ n) x = x"
  by (induction n) simp_all

lemma loop_iterated:
  "length tcs \<le> n \<Longrightarrow>
   (next_case fmt exec job timeout ^^ n) (Inr (tcs, s), w) =
     (case grade_loop fmt exec job timeout tcs s w of (r, w') \<Rightarrow> (map_sum id (Pair []) r, w'))"
proof (induction n arbitrary: tcs s w)
  case (Suc n)
  show ?case
  proof (cases tcs)
    case (Cons tc tcs0)
    obtain r w1 where x: "grade_next fmt exec job timeout (tc # tcs0, s) w = (r, w1)" by fastforce
    have nc: "next_case fmt exec job timeout (Inr (tc # tcs0, s), w) = (r, w1)"
      by (simp add: next_case_def del: grade_next.simps) (rule x)
    show ?thesis
    proof (cases r)
      case (Inl exc)
      then show ?thesis
        unfolding Cons funpow_Suc_right comp_def grade_loop_next x nc by simp
    next
      case (Inr work)
      obtain tcs1 s1 where work: "work = (tcs1, s1)" by fastforce
      have "length tcs1 \<le> n"
        using next_case_rest [of fmt exec job timeout "tc # tcs0" s w tcs1 s1 w1] nc Inr work Suc.prems Cons
        by simp
      from Suc.IH [OF this] show ?thesis
        unfolding Cons funpow_Suc_right comp_def grade_loop_next x nc Inr work by simp
    qed
  qed simp
qed simp


section \<open>Anything in between\<close>

text \<open>A driver that replays outcomes, and the outcomes a driver can give on the test cases.\<close>

fun replay :: "outcome list driver" where
  "replay [] rq = (Inl OverflowError, [])"
| "replay (out # outs) rq = (out, outs)"

definition answers :: "'w driver \<Rightarrow> grading_job \<Rightarrow> pyfloat \<Rightarrow> test_case_data \<Rightarrow> outcome \<Rightarrow> bool" where
  "answers exec job timeout tc out \<longleftrightarrow> (\<exists>w. fst (exec w (case_request job timeout tc)) = out)"

text \<open>
  How far a loop has come that saw \<open>outs\<close>: on the replayed outcomes it stands where it stands
  here, and each outcome is the driver's answer to the test case in its place.
\<close>

definition come_to ::
  "formatting \<Rightarrow> 'w driver \<Rightarrow> grading_job \<Rightarrow> pyfloat \<Rightarrow> test_case_data list \<Rightarrow> outcome list \<Rightarrow>
   test_case_data list \<Rightarrow> grading_state \<Rightarrow> bool" where
  "come_to fmt exec job timeout tcs outs rest s \<longleftrightarrow>
     list_all2 (answers exec job timeout) (take (length outs) tcs) outs \<and>
     rest \<in> {[], drop (length outs) tcs} \<and>
     (\<forall>more. grade_loop fmt replay job timeout tcs initial_grading (outs @ more) =
        grade_loop fmt replay job timeout rest s more)"

lemma come_to_start: "come_to fmt exec job timeout tcs [] tcs initial_grading"
  by (simp add: come_to_def)

lemma come_to_next:
  assumes "come_to fmt exec job timeout tcs outs rest s"
    and "grade_next fmt exec job timeout (rest, s) w = (Inr (rest', s'), w')"
  shows "\<exists>outs'. come_to fmt exec job timeout tcs outs' rest' s'"
proof (cases rest)
  case Nil
  then show ?thesis using assms by auto
next
  case (Cons tc tcs0)
  then have tcs: "drop (length outs) tcs = tc # tcs0" using assms(1) by (auto simp: come_to_def)
  then have t: "take (length (outs @ [out])) tcs = take (length outs) tcs @ [tc]"
    and d: "drop (length (outs @ [out])) tcs = tcs0" for out :: outcome
    by (metis append_eq_conv_conj append_take_drop_id length_append_singleton take_Suc_conv_app_nth
          drop_eq_Nil2 hd_drop_conv_nth linorder_not_le list.distinct(1) list.sel(1))
       (metis drop_Suc length_append_singleton list.sel(3) tcs tl_drop)
  obtain out w1 where x: "exec w (case_request job timeout tc) = (out, w1)" by fastforce
  have valid: "job_valid job timeout"
    using assms(2) by (auto simp: Cons build_case_request split: if_splits)
  have n: "grade_next fmt replay job timeout (rest, s) (out # more) = (Inr (rest', s'), more)" for more
    using assms(2) x by (auto simp: Cons build_case_request valid split: sum.splits if_splits)
  have "grade_loop fmt replay job timeout tcs initial_grading ((outs @ [out]) @ more) =
      grade_loop fmt replay job timeout rest' s' more" for more
    using assms(1) n [of more] unfolding come_to_def Cons by (simp only: append.simps append_assoc grade_loop_next) simp
  moreover have "list_all2 (answers exec job timeout) (take (length outs) tcs @ [tc]) (outs @ [out])"
    using assms(1) x by (intro list_all2_appendI) (auto simp: come_to_def answers_def intro: exI [of _ w])
  moreover have "rest' = [] \<or> rest' = tcs0"
    using assms(2) by (auto simp: Cons split: sum.splits prod.splits if_splits)
  ultimately have "come_to fmt exec job timeout tcs (outs @ [out]) rest' s'"
    unfolding come_to_def t d by auto
  then show ?thesis by blast
qed

text \<open>What an evaluation that was interrupted at will may say: the summary of an evaluation in
  which the driver answered the test cases one after the other.\<close>

definition graded_by ::
  "formatting \<Rightarrow> 'w driver \<Rightarrow> grading_job \<Rightarrow> test_case_data list \<Rightarrow> grading_summary \<Rightarrow> bool" where
  "graded_by fmt exec job tcs summary \<longleftrightarrow>
     (\<exists>timeout outs. timeout_sec (gj_time_limit_ms job) = Inr timeout \<and>
        list_all2 (answers exec job timeout) (take (length outs) tcs) outs \<and>
        evaluate_submission fmt replay job tcs outs = (Inr summary, []))"

lemma grade_loop_ends: "grade_loop fmt exec job timeout [] s w = (Inr s, w)"
  by simp

lemma come_to_end:
  assumes "come_to fmt exec job timeout tcs outs [] s" "timeout_sec (gj_time_limit_ms job) = Inr timeout"
    and "summarise job tcs s = Inr summary"
  shows "graded_by fmt exec job tcs summary"
proof -
  have "grade_loop fmt replay job timeout tcs initial_grading (outs @ []) = (Inr s, [])"
    using assms(1) unfolding come_to_def by (metis grade_loop_ends)
  then have "evaluate_submission fmt replay job tcs outs = (Inr summary, [])"
    using assms(2,3) by (simp add: evaluate_submission_def)
  then show ?thesis using assms(1,2) unfolding graded_by_def come_to_def by blast
qed

text \<open>A loop that came to its end has a summary.\<close>

lemma come_to_summary:
  assumes "come_to fmt exec job timeout tcs outs [] s" "timeout_sec (gj_time_limit_ms job) = Inr timeout"
    and "job_in_range job" "list_all (\<lambda>tc. 0 \<le> tc_weight tc) tcs"
  shows "\<exists>summary. summarise job tcs s = Inr summary"
proof -
  have "grade_loop fmt replay job timeout tcs initial_grading (outs @ []) = (Inr s, [])"
    using assms(1) unfolding come_to_def by (metis grade_loop_ends)
  then show ?thesis
    using evaluation_returns [OF assms(3,4), of fmt replay outs] assms(2) by (auto simp: evaluate_submission_def)
qed

end
