(* ===== verification/Concurrent_Grading.thy ===== *)
theory Concurrent_Grading
  imports Backend_Claims Grading_Steps
begin

text \<open>
  Gradings that overlap.  A grading request awaits its sandbox between two commits, once per
  test case, so other requests and other gradings run in between.  Here the request is taken
  apart: the first commit, one step per test case, and the commit of the result.  Gradings in
  flight interleave with each other and with every step of the backend, and may die with their
  process; the scorecards on record are right all the same.
\<close>

section \<open>The parts of a grading request\<close>

text \<open>
  The local variables of a request between its commits: its row, the problem as it was read,
  whether the submitter is an administrator, and the loop over the test cases, that is the
  cases to come with the running totals, or what was raised.
\<close>

record flight =
  fl_row :: submission_row
  fl_problem :: problem_row
  fl_privileged :: bool
  fl_work :: "py_exn + test_case_data list \<times> grading_state"

definition fl_id :: "flight \<Rightarrow> uuid" where
  "fl_id f = sb_id (fl_row f)"

definition fl_job :: "flight \<Rightarrow> grading_job" where
  "fl_job f = problem_job (fl_row f) (fl_problem f)"

definition fl_cases :: "flight \<Rightarrow> test_case_data list" where
  "fl_cases f = tc_data_list (fl_problem f)"

text \<open>Up to the first commit: a reply when the request ends there, or the grading in flight.\<close>

definition start_work :: "grading_job \<Rightarrow> test_case_data list \<Rightarrow> py_exn + test_case_data list \<times> grading_state" where
  "start_work job tcs =
     (case timeout_sec (gj_time_limit_ms job) of
        Inl exc \<Rightarrow> Inl exc
      | Inr timeout \<Rightarrow> Inr (tcs, initial_grading))"

definition raised :: "py_exn \<Rightarrow> 'a reply" where
  "raised exc = (if is_value_error exc then Http_Error 404 (exn_str exc) else Crash)"

definition begin_grading ::
  "('w, 'r) site \<Rightarrow> call \<Rightarrow> pstr \<Rightarrow> grading_submission_create \<Rightarrow> 'w daemon \<Rightarrow>
   (grading_result_read reply + flight) \<times> 'w daemon" where
  "begin_grading st ca identifier submission_in d =
     (case get_current_user (si_jwt st) (ca_now ca) (ca_token ca) (dm_db d) of
        Reply current_user \<Rightarrow>
          if \<not> grading_submission_valid submission_in then (Inl (Http_Error 422 []), d)
          else
            (case start_grading (ca_fresh ca 0) (ca_now ca) (us_id current_user) identifier submission_in
                    (seed_default_problems_if_empty (\<lambda>i. ca_fresh ca (i + 1)) (ca_now ca) (dm_db d)) of
               (Started problem submission, db) \<Rightarrow>
                 (Inr \<lparr>fl_row = submission, fl_problem = problem, fl_privileged = is_admin current_user,
                       fl_work = start_work (problem_job submission problem) (tc_data_list problem)\<rparr>,
                  d\<lparr>dm_db := db\<rparr>)
             | (Not_Started exc, db) \<Rightarrow> (Inl (raised exc), d\<lparr>dm_db := db\<rparr>)
             | (Lookup_Failed, db) \<Rightarrow> (Inl Crash, d\<lparr>dm_db := db\<rparr>))
      | Http_Error code m \<Rightarrow> (Inl (Http_Error code m), d)
      | Crash \<Rightarrow> (Inl Crash, d))"

definition run_case :: "'w environment \<Rightarrow> flight \<Rightarrow> 'w \<Rightarrow> flight \<times> 'w" where
  "run_case en f w =
     (case (timeout_sec (gj_time_limit_ms (fl_job f)), fl_work f) of
        (Inr timeout, Inr work) \<Rightarrow>
          (case grade_next (en_formatting en) (en_driver en) (fl_job f) timeout work w of
             (work', w') \<Rightarrow> (f\<lparr>fl_work := work'\<rparr>, w'))
      | _ \<Rightarrow> (f, w))"

text \<open>The commit of what the loop computed.\<close>

definition conclusion :: "flight \<Rightarrow> py_exn + grading_summary" where
  "conclusion f =
     (case fl_work f of
        Inl exc \<Rightarrow> Inl exc
      | Inr (tcs, s) \<Rightarrow> summarise (fl_job f) (fl_cases f) s)"

definition store_grading :: "flight \<Rightarrow> 'w daemon \<Rightarrow> grading_result_read reply \<times> 'w daemon" where
  "store_grading f d =
     (case conclusion f of
        Inl exc \<Rightarrow> (raised exc, d)
      | Inr summary \<Rightarrow>
          (Reply (shown_to (fl_privileged f) summary),
           d\<lparr>dm_db := finish_grading summary (fl_id f) (dm_db d)\<rparr>))"


section \<open>Nothing in between: the grading request\<close>

lemma fl_work_update [simp]:
  "fl_id (f\<lparr>fl_work := x\<rparr>) = fl_id f" "fl_job (f\<lparr>fl_work := x\<rparr>) = fl_job f"
  "fl_cases (f\<lparr>fl_work := x\<rparr>) = fl_cases f"
  by (simp_all add: fl_id_def fl_job_def fl_cases_def)

definition run_cases_of :: "'w environment \<Rightarrow> nat \<Rightarrow> flight \<times> 'w \<Rightarrow> flight \<times> 'w" where
  "run_cases_of en n = ((\<lambda>(f, w). run_case en f w) ^^ n)"

lemma run_case_next:
  assumes "timeout_sec (gj_time_limit_ms (fl_job f)) = Inr timeout"
  shows "run_case en f w =
    (case next_case (en_formatting en) (en_driver en) (fl_job f) timeout (fl_work f, w) of
       (work', w') \<Rightarrow> (f\<lparr>fl_work := work'\<rparr>, w'))"
  using assms by (simp add: run_case_def next_case_def split: sum.split)

lemma run_cases_iterated:
  assumes "timeout_sec (gj_time_limit_ms (fl_job f)) = Inr timeout"
  shows "run_cases_of en n (f, w) =
    (case (next_case (en_formatting en) (en_driver en) (fl_job f) timeout ^^ n) (fl_work f, w) of
       (work', w') \<Rightarrow> (f\<lparr>fl_work := work'\<rparr>, w'))"
proof (induction n)
  case (Suc n)
  then show ?case
    using run_case_next [of "f\<lparr>fl_work := x\<rparr>" timeout en for x] assms
    by (simp add: run_cases_of_def split: prod.splits)
qed (simp add: run_cases_of_def)

lemma run_cases_stuck:
  "timeout_sec (gj_time_limit_ms (fl_job f)) = Inl exc \<Longrightarrow> run_cases_of en n (f, w) = (f, w)"
  by (induction n) (simp_all add: run_cases_of_def run_case_def)

text \<open>A grading that nothing interrupts is the evaluation of the submission.\<close>

lemma run_cases_evaluate:
  assumes "fl_work f = start_work (fl_job f) (fl_cases f)"
    and "run_cases_of en (length (fl_cases f)) (f, w) = (f', w')"
  shows "loop_over (fl_work f') \<and> fl_row f' = fl_row f \<and> fl_privileged f' = fl_privileged f \<and>
    evaluate_submission (en_formatting en) (en_driver en) (fl_job f) (fl_cases f) w = (conclusion f', w')"
proof (cases "timeout_sec (gj_time_limit_ms (fl_job f))")
  case (Inl exc)
  then show ?thesis
    using assms run_cases_stuck [OF Inl, of en "length (fl_cases f)" w]
    by (simp add: start_work_def conclusion_def evaluate_submission_def)
next
  case (Inr timeout)
  obtain r w1 where g: "grade_loop (en_formatting en) (en_driver en) (fl_job f) timeout (fl_cases f) initial_grading w =
      (r, w1)" by fastforce
  have "(f', w') = (f\<lparr>fl_work := map_sum id (Pair []) r\<rparr>, w1)"
    using assms Inr g by (simp add: run_cases_iterated start_work_def loop_iterated)
  then show ?thesis
    using Inr g by (cases r) (simp_all add: conclusion_def evaluate_submission_def)
qed

lemma begin_started:
  assumes "begin_grading st ca i g d = (Inr f, d')"
  obtains u p db where "get_current_user (si_jwt st) (ca_now ca) (ca_token ca) (dm_db d) = Reply u"
    and "grading_submission_valid g"
    and "db = seed_default_problems_if_empty (\<lambda>k. ca_fresh ca (k + 1)) (ca_now ca) (dm_db d)"
    and "find_problem db i = Reply (Some p)" "pr_test_cases p \<noteq> []"
    and "f = \<lparr>fl_row = grading_submission (ca_fresh ca 0) (ca_now ca) (us_id u) p g, fl_problem = p,
           fl_privileged = is_admin u,
           fl_work = start_work (problem_job (grading_submission (ca_fresh ca 0) (ca_now ca) (us_id u) p g) p)
             (tc_data_list p)\<rparr>"
    and "d' = d\<lparr>dm_db := db\<lparr>db_submissions := db_submissions db @ [fl_row f]\<rparr>\<rparr>"
  using assms
  by (auto simp: begin_grading_def start_grading_def Let_def split: reply.splits if_splits prod.splits started.splits
      option.splits)


end
