(* ===== verification/Grading_Runs.thy ===== *)
theory Grading_Runs
  imports Concurrent_Grading
begin

text \<open>
  The backend with gradings in flight: every request that grades is taken apart, and its parts
  interleave with the other requests, with the worker and with one another.  The rows that
  problems grade are written by their own gradings only, whatever the interleaving.
\<close>

section \<open>Gradings in flight\<close>

record ('w, 'r) busy =
  bs_system :: "('w, 'r) system"
  bs_flights :: "flight list"

abbreviation bs_daemon :: "('w, 'r) busy \<Rightarrow> 'w daemon" where
  "bs_daemon b \<equiv> sy_worker (bs_system b)"

abbreviation bs_db :: "('w, 'r) busy \<Rightarrow> database" where
  "bs_db b \<equiv> dm_db (bs_daemon b)"

definition with_daemon :: "'w daemon \<Rightarrow> ('w, 'r) busy \<Rightarrow> ('w, 'r) busy" where
  "with_daemon d b = b\<lparr>bs_system := (bs_system b)\<lparr>sy_worker := d\<rparr>\<rparr>"

definition put_flight :: "flight \<Rightarrow> ('w, 'r) busy \<Rightarrow> ('w, 'r) busy" where
  "put_flight f b = b\<lparr>bs_flights := map (\<lambda>x. if fl_id x = fl_id f then f else x) (bs_flights b)\<rparr>"

definition drop_flight :: "uuid \<Rightarrow> ('w, 'r) busy \<Rightarrow> ('w, 'r) busy" where
  "drop_flight i b = b\<lparr>bs_flights := filter (\<lambda>x. fl_id x \<noteq> i) (bs_flights b)\<rparr>"

lemma busy_simps [simp]:
  "bs_flights (with_daemon d b) = bs_flights b" "bs_daemon (with_daemon d b) = d"
  "bs_system (put_flight f b) = bs_system b" "bs_system (drop_flight i b) = bs_system b"
  "bs_flights (drop_flight i b) = filter (\<lambda>x. fl_id x \<noteq> i) (bs_flights b)"
  "bs_flights (put_flight f b) = map (\<lambda>x. if fl_id x = fl_id f then f else x) (bs_flights b)"
  by (simp_all add: with_daemon_def put_flight_def drop_flight_def)

text \<open>What a grading does next, by the identifier of its row; a grading dies with its process.\<close>

datatype busy_event =
    Other event
  | Begins call pstr grading_submission_create
  | Runs uuid
  | Ends uuid
  | Dies uuid

fun grades :: "event \<Rightarrow> bool" where
  "grades (Request ca (Submit_Problem i g)) = True"
| "grades _ = False"

inductive busy_step ::
  "('w, 'r) site \<Rightarrow> ('w, 'r) busy \<Rightarrow> busy_event \<Rightarrow> ('w, 'r) busy \<Rightarrow> bool" for st where
  other: "site_step st (bs_system b) e sy \<Longrightarrow> \<not> grades e \<Longrightarrow>
    busy_step st b (Other e) (b\<lparr>bs_system := sy\<rparr>)"
| refused: "draws_fresh (ca_fresh ca) (bs_db b) \<Longrightarrow> begin_grading st ca i g (bs_daemon b) = (Inl r, d) \<Longrightarrow>
    busy_step st b (Begins ca i g) (with_daemon d b)"
| begins: "draws_fresh (ca_fresh ca) (bs_db b) \<Longrightarrow> begin_grading st ca i g (bs_daemon b) = (Inr f, d) \<Longrightarrow>
    busy_step st b (Begins ca i g) ((with_daemon d b)\<lparr>bs_flights := f # bs_flights b\<rparr>)"
| runs: "f \<in> set (bs_flights b) \<Longrightarrow> run_case (si_worker st) f (dm_world (bs_daemon b)) = (f', w) \<Longrightarrow>
    busy_step st b (Runs (fl_id f)) (put_flight f' (with_daemon ((bs_daemon b)\<lparr>dm_world := w\<rparr>) b))"
| ends: "f \<in> set (bs_flights b) \<Longrightarrow> loop_over (fl_work f) \<Longrightarrow>
    busy_step st b (Ends (fl_id f)) (drop_flight (fl_id f) (with_daemon (snd (store_grading f (bs_daemon b))) b))"
| dies: "f \<in> set (bs_flights b) \<Longrightarrow> busy_step st b (Dies (fl_id f)) (drop_flight (fl_id f) b)"

inductive busy_run ::
  "('w, 'r) site \<Rightarrow> ('w, 'r) busy \<Rightarrow> busy_event list \<Rightarrow> ('w, 'r) busy \<Rightarrow> bool" for st where
  busy_none: "busy_run st b [] b"
| busy_more: "busy_step st b e b' \<Longrightarrow> busy_run st b' es b'' \<Longrightarrow> busy_run st b (e # es) b''"

inductive_cases busy_stepE: "busy_step st b e b'"
inductive_simps busy_run_Nil [simp]: "busy_run st b [] b'"
inductive_simps busy_run_Cons [simp]: "busy_run st b (e # es) b'"

definition busy_reachable :: "('w, 'r) site \<Rightarrow> ('w, 'r) busy \<Rightarrow> bool" where
  "busy_reachable st b \<longleftrightarrow>
     (\<exists>b0 es. fresh_system (bs_system b0) \<and> bs_flights b0 = [] \<and> busy_run st b0 es b)"

section \<open>The rows that problems grade\<close>

definition problem_rows :: "database \<Rightarrow> submission_row list" where
  "problem_rows db = filter (\<lambda>s. sb_problem_id s \<noteq> None) (db_submissions db)"

lemma problem_rows_simps [simp]:
  "problem_rows (db\<lparr>db_users := us\<rparr>) = problem_rows db"
  "problem_rows (db\<lparr>db_problems := ps\<rparr>) = problem_rows db"
  "problem_rows (db\<lparr>db_rooms := rs\<rparr>) = problem_rows db"
  "problem_rows (db\<lparr>db_members := ms\<rparr>) = problem_rows db"
  "problem_rows (db\<lparr>db_submissions := ss @ ss'\<rparr>) =
     problem_rows (db\<lparr>db_submissions := ss\<rparr>) @ problem_rows (db\<lparr>db_submissions := ss'\<rparr>)"
  "problem_rows (db\<lparr>db_submissions := db_submissions db\<rparr>) = problem_rows db"
  by (simp_all add: problem_rows_def)

lemma problem_rows_seed [simp]: "problem_rows (seed_default_problems_if_empty f now db) = problem_rows db"
  by (simp add: seed_default_problems_if_empty_def problem_rows_def)

text \<open>No other request touches them.\<close>

definition spares :: "'w daemon \<Rightarrow> 'w daemon \<Rightarrow> bool" where
  "spares d d' \<longleftrightarrow> problem_rows (dm_db d') = problem_rows (dm_db d)"

lemma spares_refl [simp]: "spares d d"
  by (simp add: spares_def)

lemma spares_on_db:
  "(\<And>db. db_submissions (snd (endpoint db)) = db_submissions db) \<Longrightarrow> spares d (snd (on_db code endpoint d))"
  by (simp add: spares_def on_db_def problem_rows_def split: prod.split) (metis snd_conv)

lemma spares_behind:
  assumes "\<And>u. spares d (snd (endpoint u d))"
  shows "spares d (snd (as_user st ca endpoint d))" "spares d (snd (as_admin st ca endpoint d))"
  using assms by (simp_all add: as_user_def as_admin_def split: reply.split)

lemma endpoint_submissions [simp]:
  "db_submissions (snd (register_user bc salt i uc db)) = db_submissions db"
  "db_submissions (snd (list_problems_endpoint fresh now difficulty skip limit db)) = db_submissions db"
  "db_submissions (snd (get_problem fresh now identifier u db)) = db_submissions db"
  "db_submissions (snd (create_problem_endpoint fresh now problem_in db)) = db_submissions db"
  "db_submissions (snd (create_room_endpoint fresh now u room_in db)) = db_submissions db"
  "db_submissions (snd (join_room_endpoint i room_id u db)) = db_submissions db"
  "db_submissions (snd (update_room_code_endpoint room_id code db)) = db_submissions db"
proof -
  show "db_submissions (snd (register_user bc salt i uc db)) = db_submissions db"
    by (simp add: register_user_def create_user_def Let_def split: reply.split option.split prod.split sum.split)
  show "db_submissions (snd (list_problems_endpoint fresh now difficulty skip limit db)) = db_submissions db"
    "db_submissions (snd (get_problem fresh now identifier u db)) = db_submissions db"
    by (simp_all add: list_problems_endpoint_def get_problem_def seed_default_problems_if_empty_def Let_def)
  show "db_submissions (snd (create_problem_endpoint fresh now problem_in db)) = db_submissions db"
    by (auto simp: create_problem_endpoint_def create_problem_def Let_def
        split: reply.splits option.splits prod.splits if_splits)
  show "db_submissions (snd (create_room_endpoint fresh now u room_in db)) = db_submissions db"
    by (simp add: create_room_endpoint_def create_room_def Let_def)
  show "db_submissions (snd (join_room_endpoint i room_id u db)) = db_submissions db"
    by (simp add: join_room_endpoint_def join_room_def insert_member_def Let_def split: reply.split option.split)
  show "db_submissions (snd (update_room_code_endpoint room_id code db)) = db_submissions db"
    by (simp add: update_room_code_endpoint_def update_room_code_def split: reply.split option.split)
qed

lemma spares_request:
  assumes "\<not> grades (Request ca rq)"
  shows "spares d (snd (handle_request st ca rq d))"
proof (cases rq)
  case (Submit_Code sub_in up)
  have "spares d (snd (case submit_code sf py reg up trace i now u sub_in (dm_db d) of
      (r, db, payloads) \<Rightarrow> (status_code 202 r, fold enqueue payloads (d\<lparr>dm_db := db\<rparr>))))" for sf py reg trace i now u
  proof -
    obtain r db ps where s: "submit_code sf py reg up trace i now u sub_in (dm_db d) = (r, db, ps)" by (metis prod_cases3)
    then have "problem_rows db = problem_rows (dm_db d)"
    proof (cases rule: submit_cases)
      case (2 row payload)
      then show ?thesis using created_row(1,4) [OF 2(2)] by (simp add: problem_rows_def)
    next
      case (3 row payload)
      then show ?thesis using created_row(1,4) [OF 3(2)] by (simp add: problem_rows_def)
    qed simp
    then show ?thesis by (simp add: s spares_def fold_enqueue)
  qed
  then show ?thesis using Submit_Code by (simp add: serve_submission_def spares_behind)
qed (use assms in \<open>auto simp: serve_registration_def intro!: spares_behind spares_on_db\<close>)

text \<open>Nor does a turn of the worker, whose jobs belong to other rows.\<close>

lemma spares_turn:
  assumes "backend_inv d"
  shows "spares d (daemon_turn en d)"
proof (cases rule: daemon_turn_cases [of en d])
  case (2 q p)
  then obtain s where s: "s \<in> set (db_submissions (dm_db d))" "carries p s"
    using assms by (auto simp: backend_inv_def queue_ok_def list_ex_iff)
  then have n: "sb_problem_id s = None" by (simp add: carries_def)
  have d: "distinct (map sb_id (db_submissions (dm_db d)))" using assms by (simp add: backend_inv_def db_inv_def)
  obtain v where v: "dm_db (daemon_turn en d) = persist_submission_result (en_storable en) (show_uuid (sb_id s)) v (dm_db d)"
    "uuid_of (show_uuid (sb_id s)) = Some (sb_id s)"
    using carried_persists [OF s(2), of en "d\<lparr>dm_queue := q\<rparr>"] 2(2) by auto
  show ?thesis
  proof (cases "outcome_row (en_storable en) v")
    case None
    then show ?thesis using v by (simp add: spares_def persist_submission_result_def)
  next
    case (Some f)
    have f: "sb_problem_id (f x) = sb_problem_id x" for x
      using outcome_core [OF Some, of x] row_core_simps(3) by metis
    have "filter (\<lambda>x. sb_problem_id x \<noteq> None) (map (\<lambda>x. if sb_id x = sb_id s then f x else x) ss) =
        filter (\<lambda>x. sb_problem_id x \<noteq> None) ss" if "\<forall>x \<in> set ss. sb_id x = sb_id s \<longrightarrow> sb_problem_id x = None" for ss
      using that by (induction ss) (auto simp: f)
    moreover have "\<forall>x \<in> set (db_submissions (dm_db d)). sb_id x = sb_id s \<longrightarrow> sb_problem_id x = None"
      using d s(1) n by (auto simp: distinct_map inj_on_def)
    ultimately show ?thesis
      using v Some by (simp add: spares_def problem_rows_def persist_submission_result_def)
  qed
qed simp

lemma spares_step:
  assumes "site_step st sy e sy'" "\<not> grades e" "backend_inv (sy_worker sy)"
  shows "spares (sy_worker sy) (sy_worker sy')"
  using assms(1)
proof (cases rule: site_step.cases)
  case (request ca rq)
  then show ?thesis
    using assms(2) spares_request [of ca rq "sy_worker sy" st] by (cases rule: serve_worker [of st ca rq sy]) simp_all
next
  case turn
  then show ?thesis using spares_turn [OF assms(3)] by simp
next
  case stop
  then show ?thesis by (simp add: daemon_stop_def spares_def)
qed


section \<open>The invariant\<close>

text \<open>The result columns of a row that is marked are those of an evaluation of its own program
  on the test cases of its own problem.\<close>

definition told_truly :: "'w environment \<Rightarrow> problem_row list \<Rightarrow> submission_row \<Rightarrow> bool" where
  "told_truly en ps s \<longleftrightarrow>
     sb_status s = lit ''GRADING'' \<and> sb_telemetry s = None \<or>
     (\<exists>p \<in> set ps. \<exists>sm. sb_problem_id s = Some (pr_id p) \<and> graded sm s = s \<and>
        graded_by (en_formatting en) (en_driver en) (problem_job s p) (tc_data_list p) sm)"

definition work_ok :: "'w environment \<Rightarrow> flight \<Rightarrow> bool" where
  "work_ok en f \<longleftrightarrow>
     (case fl_work f of
        Inl exc \<Rightarrow> \<not> job_in_range (fl_job f)
      | Inr (rest, s) \<Rightarrow>
          \<exists>timeout outs. timeout_sec (gj_time_limit_ms (fl_job f)) = Inr timeout \<and>
            come_to (en_formatting en) (en_driver en) (fl_job f) timeout (fl_cases f) outs rest s)"

definition flight_ok :: "'w environment \<Rightarrow> database \<Rightarrow> flight \<Rightarrow> bool" where
  "flight_ok en db f \<longleftrightarrow>
     fl_row f \<in> set (problem_rows db) \<and> fl_problem f \<in> set (db_problems db) \<and>
     sb_problem_id (fl_row f) = Some (pr_id (fl_problem f)) \<and>
     sb_status (fl_row f) = lit ''GRADING'' \<and> sb_telemetry (fl_row f) = None \<and> work_ok en f"

definition busy_inv :: "('w, 'r) site \<Rightarrow> ('w, 'r) busy \<Rightarrow> bool" where
  "busy_inv st b \<longleftrightarrow>
     backend_inv (bs_daemon b) \<and> distinct (map fl_id (bs_flights b)) \<and>
     list_all (flight_ok (si_worker st) (bs_db b)) (bs_flights b) \<and>
     list_all (told_truly (si_worker st) (db_problems (bs_db b))) (problem_rows (bs_db b))"

lemma told_truly_more: "told_truly en ps s \<Longrightarrow> set ps \<subseteq> set ps' \<Longrightarrow> told_truly en ps' s"
  by (auto simp: told_truly_def)

lemma told_truly_list:
  "list_all (told_truly en ps) ss \<Longrightarrow> set ps \<subseteq> set ps' \<Longrightarrow> list_all (told_truly en ps') ss"
  using told_truly_more by (fastforce simp: list_all_iff)

lemma flight_ok_more:
  "flight_ok en db f \<Longrightarrow> set (db_problems db) \<subseteq> set (db_problems db') \<Longrightarrow>
   set (problem_rows db) \<subseteq> set (problem_rows db') \<Longrightarrow> flight_ok en db' f"
  by (auto simp: flight_ok_def)

lemma flights_ok_more:
  "list_all (flight_ok en db) fs \<Longrightarrow> set (db_problems db) \<subseteq> set (db_problems db') \<Longrightarrow>
   set (problem_rows db) \<subseteq> set (problem_rows db') \<Longrightarrow> list_all (flight_ok en db') fs"
  using flight_ok_more by (fastforce simp: list_all_iff)

text \<open>A grading that has just begun.\<close>

lemma start_work_ok: "fl_work f = start_work (fl_job f) (fl_cases f) \<Longrightarrow> work_ok en f"
  by (auto simp: work_ok_def start_work_def dest: job_in_range_valid(1) intro: come_to_start split: sum.split)

lemma begin_ok:
  assumes "begin_grading st ca i g d = (x, d')" "backend_inv d" "draws_fresh (ca_fresh ca) (dm_db d)"
  shows "backend_inv d' \<and> set (db_problems (dm_db d)) \<subseteq> set (db_problems (dm_db d')) \<and>
    (case x of
       Inl r \<Rightarrow> spares d d'
     | Inr f \<Rightarrow> flight_ok (si_worker st) (dm_db d') f \<and> fl_id f = ca_fresh ca 0 \<and>
         problem_rows (dm_db d') = problem_rows (dm_db d) @ [fl_row f])"
proof -
  let ?db0 = "seed_default_problems_if_empty (\<lambda>k. ca_fresh ca (k + 1)) (ca_now ca) (dm_db d)"
  have inv: "db_inv (dm_db d)" using assms(2) by (simp add: backend_inv_def)
  have s: "advances (dm_db d) ?db0" by (rule advance_seed [OF inv]) (use fresh_facts(5) [OF assms(3)] in simp)
  have served: "backend_inv (d\<lparr>dm_db := db\<rparr>) \<and> set (db_problems (dm_db d)) \<subseteq> set (db_problems db)"
    if "advances (dm_db d) db" for db
    using that served_inv [OF _ assms(2), of "d\<lparr>dm_db := db\<rparr>"] set_mono_prefix
    by (auto simp: served_def advances_def appends_def)
  show ?thesis
  proof (cases x)
    case (Inl r)
    then have "d' \<in> {d, d\<lparr>dm_db := ?db0\<rparr>}"
      using assms(1) by (auto simp: begin_grading_def start_grading_def Let_def
          split: reply.splits if_splits prod.splits started.splits option.splits)
    then show ?thesis using served [OF s] assms(2) Inl by (auto simp: spares_def)
  next
    case (Inr f)
    with assms(1) have "begin_grading st ca i g d = (Inr f, d')" by simp
    then show ?thesis
    proof (rule begin_started)
      fix u p db
      assume u: "get_current_user (si_jwt st) (ca_now ca) (ca_token ca) (dm_db d) = Reply u"
        and db: "db = ?db0" and p: "find_problem db i = Reply (Some p)"
        and f: "f = \<lparr>fl_row = grading_submission (ca_fresh ca 0) (ca_now ca) (us_id u) p g, fl_problem = p,
           fl_privileged = is_admin u,
           fl_work = start_work (problem_job (grading_submission (ca_fresh ca 0) (ca_now ca) (us_id u) p g) p)
             (tc_data_list p)\<rparr>"
        and d': "d' = d\<lparr>dm_db := db\<lparr>db_submissions := db_submissions db @ [fl_row f]\<rparr>\<rparr>"
      have row: "fl_id f = ca_fresh ca 0" "sb_user_id (fl_row f) = us_id u" "sb_problem_id (fl_row f) = Some (pr_id p)"
        "sb_status (fl_row f) = lit ''GRADING''" "sb_telemetry (fl_row f) = None" "fl_problem f = p"
        by (simp_all add: f fl_id_def grading_submission_def new_submission_def)
      have pm: "p \<in> set (db_problems db)" by (rule find_problem_stored [OF p])
      have same: "db_submissions db = db_submissions (dm_db d)" "db_users db = db_users (dm_db d)"
        by (simp_all add: db seed_default_problems_if_empty_def)
      have "advances db (db\<lparr>db_submissions := db_submissions db @ [fl_row f]\<rparr>)"
      proof (rule advance_add_submission)
        show "db_inv db" using s db by (simp add: advances_def)
        show "sb_id (fl_row f) \<notin> sb_id ` set (db_submissions db)"
          using fresh_facts(1) [OF assms(3)] row(1) same(1) by (simp add: fl_id_def)
      qed (use row(2,3) pm same(2) current_user_stored [OF u] in simp_all)
      then have "advances db (dm_db d')" by (simp add: d')
      then have "advances (dm_db d) (dm_db d')" using s db advances_trans by blast
      then have "backend_inv d' \<and> set (db_problems (dm_db d)) \<subseteq> set (db_problems (dm_db d'))"
        using served [of "dm_db d'"] by (simp add: d')
      moreover have "problem_rows (dm_db d') = problem_rows (dm_db d) @ [fl_row f]"
        using row(3) by (simp add: d' db problem_rows_def seed_default_problems_if_empty_def)
      moreover have "work_ok (si_worker st) f"
        by (rule start_work_ok) (simp add: f fl_job_def fl_cases_def)
      ultimately show ?thesis
        using row pm Inr by (simp add: flight_ok_def) (simp add: d')
    qed
  qed
qed


text \<open>A test case more.\<close>

lemma run_case_ok:
  assumes "run_case en f w = (f', w')" "work_ok en f"
  shows "work_ok en f' \<and> f' = f\<lparr>fl_work := fl_work f'\<rparr>"
proof (cases "timeout_sec (gj_time_limit_ms (fl_job f))")
  case (Inl exc)
  then have "f' = f" using assms(1) by (simp add: run_case_def)
  then show ?thesis using assms(2) by simp
next
  case (Inr timeout)
  show ?thesis
  proof (cases "fl_work f")
    case (Inl exc)
    then have "f' = f" using assms(1) by (simp add: run_case_def split: sum.splits)
    then show ?thesis using assms(2) by simp
  next
    case work: (Inr p)
    obtain rest s where p: "p = (rest, s)" by fastforce
    obtain x w1 where n: "grade_next (en_formatting en) (en_driver en) (fl_job f) timeout (rest, s) w = (x, w1)" by fastforce
    then have f': "f' = f\<lparr>fl_work := x\<rparr>" using assms(1) Inr work p by (simp add: run_case_def)
    obtain outs where o: "come_to (en_formatting en) (en_driver en) (fl_job f) timeout (fl_cases f) outs rest s"
      using assms(2) Inr work p by (auto simp: work_ok_def)
    show ?thesis
    proof (cases x)
      case (Inl exc)
      then have "\<not> job_in_range (fl_job f)"
        using grade_next_raises [OF n [unfolded Inl]] Inr job_in_range_valid [of "fl_job f"] by auto
      then show ?thesis by (simp add: f' work_ok_def Inl)
    next
      case more: (Inr y)
      obtain rest' s' where y: "y = (rest', s')" by fastforce
      from come_to_next [OF o n [unfolded more y]] Inr more y show ?thesis by (simp add: f' work_ok_def)
    qed
  qed
qed

text \<open>The commit of the result changes one row, in its result columns.\<close>

lemma graded_simps [simp]:
  "sb_problem_id (graded sm s) = sb_problem_id s" "graded sm (graded sm s) = graded sm s"
  "problem_job (graded sm s) p = problem_job s p"
  by (simp_all add: graded_def problem_job_def)

lemma carries_graded [simp]: "carries q (graded sm s) = carries q s"
  by (simp add: graded_def carries_def split: option.split json.split)

lemma finish_simps [simp]:
  "db_problems (finish_grading sm i db) = db_problems db" "db_users (finish_grading sm i db) = db_users db"
  "db_rooms (finish_grading sm i db) = db_rooms db" "db_members (finish_grading sm i db) = db_members db"
  "db_submissions (finish_grading sm i db) =
     map (\<lambda>s. if sb_id s = i then graded sm s else s) (db_submissions db)"
  "problem_rows (finish_grading sm i db) = map (\<lambda>s. if sb_id s = i then graded sm s else s) (problem_rows db)"
  by (simp_all add: finish_grading_def problem_rows_def filter_map comp_def if_distrib [of sb_problem_id])

lemma finish_inv: "backend_inv d \<Longrightarrow> backend_inv (d\<lparr>dm_db := finish_grading sm i (dm_db d)\<rparr>)"
proof -
  have same: "map g (map (\<lambda>s. if sb_id s = i then graded sm s else s) ss) = map g ss"
    if "\<And>s. g (graded sm s) = g s" for g :: "submission_row \<Rightarrow> 'x" and ss
    using that by (simp add: comp_def if_distrib [of g])
  have all: "list_all P (map (\<lambda>s. if sb_id s = i then graded sm s else s) ss) = list_all P ss"
    if "\<And>s. P (graded sm s) = P s" for P ss
    using that by (induction ss) simp_all
  have ex: "list_ex P (map (\<lambda>s. if sb_id s = i then graded sm s else s) ss) = list_ex P ss"
    if "\<And>s. P (graded sm s) = P s" for P ss
    using that by (induction ss) simp_all
  show "backend_inv d \<Longrightarrow> ?thesis"
    by (simp add: backend_inv_def db_inv_def queue_ok_def refs_ok_def rooms_inv_def same all ex del: map_map)
qed


lemma put_flight_ids [simp]:
  "map fl_id (map (\<lambda>x. if fl_id x = fl_id f then f else x) fs) = map fl_id fs"
  by simp

lemma flight_of_id:
  "distinct (map fl_id fs) \<Longrightarrow> f \<in> set fs \<Longrightarrow> x \<in> set fs \<Longrightarrow> fl_id x = fl_id f \<Longrightarrow> x = f"
  by (auto simp: distinct_map inj_on_def)

lemma row_of_id:
  "backend_inv d \<Longrightarrow> s \<in> set (problem_rows (dm_db d)) \<Longrightarrow> t \<in> set (problem_rows (dm_db d)) \<Longrightarrow> sb_id s = sb_id t \<Longrightarrow> s = t"
  by (auto simp: backend_inv_def db_inv_def problem_rows_def distinct_map inj_on_def)

text \<open>The end of a grading marks its own row, truly.\<close>

lemma conclusion_graded:
  assumes "flight_ok en db f" "loop_over (fl_work f)" "conclusion f = Inr sm"
  shows "graded_by (en_formatting en) (en_driver en) (fl_job f) (fl_cases f) sm"
proof -
  obtain s where w: "fl_work f = Inr ([], s)"
    using assms(2,3) by (cases "fl_work f") (auto simp: conclusion_def)
  then have "summarise (fl_job f) (fl_cases f) s = Inr sm" using assms(3) by (simp add: conclusion_def)
  then show ?thesis
    using assms(1) w come_to_end by (auto simp: flight_ok_def work_ok_def)
qed

lemma conclusion_true:
  assumes "flight_ok en db f" "loop_over (fl_work f)" "conclusion f = Inr sm"
  shows "told_truly en (db_problems db) (graded sm (fl_row f))"
  using assms(1) conclusion_graded [OF assms] by (auto simp: told_truly_def flight_ok_def fl_job_def fl_cases_def)

lemma end_ok:
  assumes "busy_inv st b" "f \<in> set (bs_flights b)" "loop_over (fl_work f)"
  shows "busy_inv st (drop_flight (fl_id f) (with_daemon (snd (store_grading f (bs_daemon b))) b))"
proof (cases "conclusion f")
  case (Inl exc)
  then show ?thesis using assms(1) by (auto simp: store_grading_def busy_inv_def list_all_iff distinct_map_filter)
next
  case (Inr sm)
  let ?d = "(bs_daemon b)\<lparr>dm_db := finish_grading sm (fl_id f) (bs_db b)\<rparr>"
  have inv: "backend_inv (bs_daemon b)" and fs: "distinct (map fl_id (bs_flights b))"
      "list_all (flight_ok (si_worker st) (bs_db b)) (bs_flights b)"
      "list_all (told_truly (si_worker st) (db_problems (bs_db b))) (problem_rows (bs_db b))"
    using assms(1) by (simp_all add: busy_inv_def)
  have f: "flight_ok (si_worker st) (bs_db b) f" using fs(2) assms(2) by (simp add: list_all_iff)
  have "flight_ok (si_worker st) (dm_db ?d) x" if "x \<in> set (bs_flights b)" "fl_id x \<noteq> fl_id f" for x
    using fs(2) that by (force simp: list_all_iff flight_ok_def fl_id_def)
  moreover have "told_truly (si_worker st) (db_problems (bs_db b)) (if sb_id s = fl_id f then graded sm s else s)"
    if "s \<in> set (problem_rows (bs_db b))" for s
  proof (cases "sb_id s = fl_id f")
    case True
    then have "s = fl_row f"
      using row_of_id [OF inv that, of "fl_row f"] f by (simp add: flight_ok_def fl_id_def)
    then show ?thesis using True conclusion_true [OF f assms(3) Inr] by simp
  next
    case False
    then show ?thesis using fs(3) that by (simp add: list_all_iff)
  qed
  ultimately have "list_all (flight_ok (si_worker st) (dm_db ?d)) (filter (\<lambda>x. fl_id x \<noteq> fl_id f) (bs_flights b))"
      "list_all (told_truly (si_worker st) (db_problems (bs_db b))) (problem_rows (dm_db ?d))"
    unfolding list_all_iff by (simp_all del: if_image_distrib)
  then show ?thesis
    using finish_inv [OF inv] fs(1) Inr by (simp add: store_grading_def busy_inv_def distinct_map_filter)
qed

lemma busy_step_inv:
  assumes "busy_step st b e b'" "site_ok st" "busy_inv st b"
  shows "busy_inv st b'"
proof -
  have inv: "backend_inv (bs_daemon b)" and fs: "distinct (map fl_id (bs_flights b))"
      "list_all (flight_ok (si_worker st) (bs_db b)) (bs_flights b)"
      "list_all (told_truly (si_worker st) (db_problems (bs_db b))) (problem_rows (bs_db b))"
    using assms(3) by (simp_all add: busy_inv_def)
  have grown: "list_all (flight_ok (si_worker st) db) (bs_flights b)"
      "list_all (told_truly (si_worker st) (db_problems db)) (problem_rows (bs_db b))"
    if "set (db_problems (bs_db b)) \<subseteq> set (db_problems db)" "set (problem_rows (bs_db b)) \<subseteq> set (problem_rows db)" for db
    using flights_ok_more [OF fs(2) that] told_truly_list [OF fs(3) that(1)] by simp_all
  from assms(1) show ?thesis
  proof (cases rule: busy_step.cases)
    case (other e0 sy)
    have s: "backend_inv (sy_worker sy)" "keeps (bs_db b) (dm_db (sy_worker sy))" "spares (bs_daemon b) (sy_worker sy)"
      using step_ok [OF other(3) assms(2) inv] spares_step [OF other(3,4) inv] by simp_all
    then have "set (db_problems (bs_db b)) \<subseteq> set (db_problems (dm_db (sy_worker sy)))"
      by (simp add: keeps_def set_mono_prefix)
    then show ?thesis
      using s(1,3) grown [of "dm_db (sy_worker sy)"] fs(1) other(2) by (simp add: busy_inv_def spares_def)
  next
    case (refused ca i g r d)
    then show ?thesis
      using begin_ok [OF refused(4) inv refused(3)] grown [of "dm_db d"] fs(1) by (simp add: busy_inv_def spares_def)
  next
    case (begins ca i g f d)
    note bg = begin_ok [OF begins(4) inv begins(3), simplified]
    have "fl_id f \<notin> fl_id ` set (bs_flights b)"
      using bg fresh_facts(1) [OF begins(3)] fs(2)
      by (auto simp: list_all_iff flight_ok_def problem_rows_def fl_id_def image_iff)
    then show ?thesis
      using bg grown [of "dm_db d"] fs(1) begins(2)
      by (auto simp: busy_inv_def told_truly_def flight_ok_def)
  next
    case (runs f f' w)
    have f: "flight_ok (si_worker st) (bs_db b) f" using fs(2) runs(3) by (simp add: list_all_iff)
    then have r: "work_ok (si_worker st) f'" "f' = f\<lparr>fl_work := fl_work f'\<rparr>"
      using run_case_ok [OF runs(4)] by (simp_all add: flight_ok_def)
    have id: "fl_row f' = fl_row f" "fl_problem f' = fl_problem f" by (subst r(2), simp)+
    then have "flight_ok (si_worker st) (bs_db b) f'" using f r(1) by (simp add: flight_ok_def)
    moreover have "backend_inv ((bs_daemon b)\<lparr>dm_world := w\<rparr>)" using inv by (simp add: backend_inv_def queue_ok_def)
    ultimately show ?thesis
      using runs(2) fs put_flight_ids [of f' "bs_flights b"]
      by (auto simp: busy_inv_def list_all_iff simp del: map_map put_flight_ids)
  next
    case (ends f)
    then show ?thesis using end_ok [OF assms(3)] by simp
  next
    case (dies f)
    then show ?thesis using assms(3) by (auto simp: busy_inv_def list_all_iff distinct_map_filter)
  qed
qed

lemma busy_run_snoc: "busy_run st b es b' \<Longrightarrow> busy_step st b' e b'' \<Longrightarrow> busy_run st b (es @ [e]) b''"
  by (induction rule: busy_run.induct) auto

lemma busy_run_inv: "busy_run st b es b' \<Longrightarrow> site_ok st \<Longrightarrow> busy_inv st b \<Longrightarrow> busy_inv st b'"
proof (induction rule: busy_run.induct)
  case (busy_more b e b' es b'')
  then show ?case using busy_step_inv by blast
qed

lemma busy_reachable_inv: "busy_reachable st b \<Longrightarrow> site_ok st \<Longrightarrow> busy_inv st b"
proof -
  have "busy_inv st b0" if "fresh_system (bs_system b0)" "bs_flights b0 = []" for b0
    using fresh_system_inv [OF that(1)] that
    by (simp add: busy_inv_def fresh_system_def problem_rows_def empty_database_def)
  then show "busy_reachable st b \<Longrightarrow> site_ok st \<Longrightarrow> ?thesis"
    unfolding busy_reachable_def using busy_run_inv by blast
qed

section \<open>What has been marked stays\<close>

lemma busy_step_final:
  assumes "busy_step st b e b'" "busy_inv st b"
    and "s \<in> set (problem_rows (bs_db b))" "sb_id s \<notin> fl_id ` set (bs_flights b)"
  shows "s \<in> set (problem_rows (bs_db b')) \<and> sb_id s \<notin> fl_id ` set (bs_flights b')"
proof -
  have inv: "backend_inv (bs_daemon b)" using assms(2) by (simp add: busy_inv_def)
  from assms(1) show ?thesis
  proof (cases rule: busy_step.cases)
    case (other e0 sy)
    then show ?thesis using spares_step [OF other(3,4) inv] assms(3,4) by (simp add: spares_def)
  next
    case (refused ca i g r d)
    then show ?thesis using begin_ok [OF refused(4) inv refused(3)] assms(3,4) by (simp add: spares_def)
  next
    case (begins ca i g f d)
    have "sb_id s \<noteq> ca_fresh ca 0"
      using fresh_facts(1) [OF begins(3)] assms(3) by (auto simp: problem_rows_def image_iff)
    then show ?thesis
      using begin_ok [OF begins(4) inv begins(3)] begins(2) assms(3,4) by auto
  next
    case (runs f f' w)
    have "f' = f\<lparr>fl_work := fl_work f'\<rparr>"
      using run_case_ok [OF runs(4)] assms(2) runs(3) by (auto simp: busy_inv_def list_all_iff flight_ok_def)
    then show ?thesis using runs(2,3) assms(3,4) by (auto simp: image_iff)
  next
    case (ends f)
    then have "sb_id s \<noteq> fl_id f" using assms(4) by auto
    then show ?thesis
      using ends(2) assms(3,4) by (auto simp: store_grading_def image_iff split: sum.split)
  next
    case (dies f)
    then show ?thesis using assms(3,4) by auto
  qed
qed

lemma busy_run_final:
  "busy_run st b es b' \<Longrightarrow> site_ok st \<Longrightarrow> busy_inv st b \<Longrightarrow> s \<in> set (problem_rows (bs_db b)) \<Longrightarrow>
   sb_id s \<notin> fl_id ` set (bs_flights b) \<Longrightarrow> s \<in> set (problem_rows (bs_db b'))"
proof (induction rule: busy_run.induct)
  case (busy_more b e b' es b'')
  then show ?case using busy_step_inv busy_step_final by blast
qed


section \<open>Progress\<close>

text \<open>How many test cases a grading still has to run.\<close>

definition remaining :: "flight \<Rightarrow> nat" where
  "remaining f = (case fl_work f of Inl exc \<Rightarrow> 0 | Inr (rest, s) \<Rightarrow> length rest)"

lemma remaining_over: "remaining f = 0 \<longleftrightarrow> loop_over (fl_work f)"
  by (auto simp: remaining_def split: sum.split)

lemma work_remaining:
  assumes "work_ok en f"
  shows "remaining f \<le> length (fl_cases f)"
  using assms by (auto simp: work_ok_def come_to_def remaining_def split: sum.splits)

lemma run_case_remaining:
  assumes "run_case en f w = (f', w')" "work_ok en f"
  shows "remaining f' \<le> remaining f - 1"
proof (cases "fl_work f")
  case (Inr x)
  obtain rest s where x: "x = (rest, s)" by fastforce
  then obtain timeout where t: "timeout_sec (gj_time_limit_ms (fl_job f)) = Inr timeout"
    using assms(2) Inr by (auto simp: work_ok_def)
  obtain y w1 where n: "grade_next (en_formatting en) (en_driver en) (fl_job f) timeout (rest, s) w = (y, w1)" by fastforce
  then have "f' = f\<lparr>fl_work := y\<rparr>" using assms(1) Inr x t by (simp add: run_case_def)
  then show ?thesis
    using n Inr x by (cases rest) (auto simp: remaining_def split: sum.splits prod.splits if_splits)
qed (use assms(1) in \<open>simp add: run_case_def remaining_def split: sum.splits\<close>)

text \<open>A grading in flight with the given row and problem, and at most \<open>n\<close> test cases to run.\<close>

definition flying :: "submission_row \<Rightarrow> problem_row \<Rightarrow> nat \<Rightarrow> ('w, 'r) busy \<Rightarrow> bool" where
  "flying row p n b \<longleftrightarrow>
     (\<exists>f \<in> set (bs_flights b). fl_row f = row \<and> fl_problem f = p \<and> remaining f \<le> n)"

lemma busy_step_flying:
  assumes "busy_step st b e b'" "busy_inv st b" "flying row p n b" "e \<notin> {Ends (sb_id row), Dies (sb_id row)}"
  shows "flying row p (n - (if e = Runs (sb_id row) then 1 else 0)) b'"
proof -
  obtain f where f: "f \<in> set (bs_flights b)" "fl_row f = row" "fl_problem f = p" "remaining f \<le> n"
    using assms(3) by (auto simp: flying_def)
  have id: "fl_id f = sb_id row" by (simp add: fl_id_def f(2))
  from assms(1) show ?thesis
  proof (cases rule: busy_step.cases)
    case (runs g g' w)
    have ok: "work_ok (si_worker st) g" using assms(2) runs(3) by (auto simp: busy_inv_def list_all_iff flight_ok_def)
    obtain x where g': "g' = g\<lparr>fl_work := x\<rparr>" using run_case_ok [OF runs(4) ok] by blast
    then have same: "fl_id g' = fl_id g" "fl_row g' = fl_row g" "fl_problem g' = fl_problem g" by simp_all
    show ?thesis
    proof (cases "fl_id g = fl_id f")
      case True
      then have "g = f" using flight_of_id [of "bs_flights b" f g] assms(2) f(1) runs(3) by (simp add: busy_inv_def)
      have "g' \<in> set (bs_flights b')" using runs(2,3) same(1) by (auto simp: image_iff)
      then show ?thesis
        using f(2-4) same(2,3) run_case_remaining [OF runs(4) ok] runs(1) id \<open>g = f\<close>
        unfolding flying_def by (intro bexI [of _ g']) auto
    next
      case False
      then have "f \<in> set (bs_flights b')" using runs(2) same(1) f(1) by (force simp: image_iff)
      then show ?thesis using f(2-4) runs(1) False id by (auto simp: flying_def)
    qed
  qed (use f id assms(4) in \<open>auto simp: flying_def\<close>)
qed

lemma busy_run_flying:
  "busy_run st b es b' \<Longrightarrow> site_ok st \<Longrightarrow> busy_inv st b \<Longrightarrow> flying row p n b \<Longrightarrow>
   Ends (sb_id row) \<notin> set es \<Longrightarrow> Dies (sb_id row) \<notin> set es \<Longrightarrow>
   flying row p (n - count_list es (Runs (sb_id row))) b'"
proof (induction arbitrary: n rule: busy_run.induct)
  case (busy_more b e b' es b'')
  have "flying row p (n - (if e = Runs (sb_id row) then 1 else 0)) b'"
    by (rule busy_step_flying [OF busy_more(1,5,6)]) (use busy_more(7,8) in auto)
  from busy_more(3) [OF busy_more(4) busy_step_inv [OF busy_more(1,4,5)] this] busy_more(7,8)
  show ?case by (auto simp: diff_diff_left)
qed simp

text \<open>At the end of its loop an admissible grading has a summary.\<close>

lemma conclusion_reached:
  assumes "flight_ok en db f" "loop_over (fl_work f)" "db_inv db"
    and "length (sb_source_code (fl_row f)) \<le> 65536" "list_all (\<lambda>tc. 0 \<le> tc_weight tc) (fl_cases f)"
  shows "\<exists>sm. conclusion f = Inr sm"
proof -
  have "problem_row_valid (fl_problem f)"
    using assms(1,3) by (simp add: flight_ok_def db_inv_def problems_inv_def list_all_iff)
  then have r: "job_in_range (fl_job f)"
    using assms(4) by (simp add: job_in_range_def fl_job_def problem_job_def problem_row_valid_def problem_base_valid_def)
  then obtain s timeout outs where w: "fl_work f = Inr ([], s)" "timeout_sec (gj_time_limit_ms (fl_job f)) = Inr timeout"
    "come_to (en_formatting en) (en_driver en) (fl_job f) timeout (fl_cases f) outs [] s"
    using assms(1,2) by (cases "fl_work f") (auto simp: flight_ok_def work_ok_def)
  from come_to_summary [OF w(3,2) r assms(5)] w(1) show ?thesis by (simp add: conclusion_def)
qed

lemma end_stores:
  assumes "busy_step st b (Ends i) b'" "busy_inv st b" "f \<in> set (bs_flights b)" "fl_id f = i" "conclusion f = Inr sm"
  shows "graded sm (fl_row f) \<in> set (problem_rows (bs_db b'))" "i \<notin> fl_id ` set (bs_flights b')"
proof -
  from assms(1) obtain g where g: "g \<in> set (bs_flights b)" "fl_id g = i"
    "b' = drop_flight i (with_daemon (snd (store_grading g (bs_daemon b))) b)" by (cases rule: busy_step.cases) auto
  then have "g = f" using flight_of_id [of "bs_flights b" f g] assms(2-4) by (simp add: busy_inv_def)
  have "fl_row f \<in> set (problem_rows (bs_db b))"
    using assms(2,3) by (auto simp: busy_inv_def list_all_iff flight_ok_def)
  then show "graded sm (fl_row f) \<in> set (problem_rows (bs_db b'))" "i \<notin> fl_id ` set (bs_flights b')"
    using g(3) \<open>g = f\<close> assms(4,5) by (auto simp: store_grading_def image_iff fl_id_def)
qed

end
