(* ===== verification/Grading_Overlap.thy ===== *)
theory Grading_Overlap
  imports Grading_Runs
begin

text \<open>
  The properties of gradings that overlap: what is on record is true in every reachable state,
  and a grading that gets its turns ends with its scorecard, for good.  A concrete site takes
  a submission to a seeded problem in the middle of other requests.
\<close>

section \<open>A concrete grading in flight\<close>

definition demo_busy :: "(nat, unit) busy" where
  "demo_busy = \<lparr>bs_system = demo_registered, bs_flights = []\<rparr>"

lemma demo_busy_reachable: "busy_reachable demo_site demo_busy"
proof -
  have "busy_step demo_site \<lparr>bs_system = demo_system, bs_flights = []\<rparr>
      (Other (Request (demo_call 7 []) (Register demo_account))) demo_busy"
    using busy_step.other [of demo_site "\<lparr>bs_system = demo_system, bs_flights = []\<rparr>"] demo_register_step
    by (simp add: demo_busy_def)
  then show ?thesis
    unfolding busy_reachable_def using demo_system_fresh by (metis busy_run.intros busy.select_convs)
qed

definition demo_two_sum :: problem_row where
  "demo_two_sum = two_sum (\<lambda>k. 101 + k) 0"

definition demo_flight :: flight where
  "demo_flight =
     \<lparr>fl_row = grading_submission 100 0 7 demo_two_sum demo_submission, fl_problem = demo_two_sum,
      fl_privileged = False,
      fl_work = start_work (problem_job (grading_submission 100 0 7 demo_two_sum demo_submission) demo_two_sum)
        (tc_data_list demo_two_sum)\<rparr>"

lemma two_sum_found:
  assumes "db_problems db = []"
  shows "find_problem (seed_default_problems_if_empty (\<lambda>k. 101 + k) 0 db) (lit ''two-sum'') = Reply (Some demo_two_sum)"
proof -
  have "uuid_of (lit ''two-sum'') = None" by (simp add: uuid_of_def lit_def strip_chars_def)
  then show ?thesis
    using assms
    by (simp add: find_problem_def seed_default_problems_if_empty_def demo_two_sum_def two_sum_def palindrome_def
        fib_problem_def)
qed

lemma demo_begins:
  obtains d where "begin_grading demo_site (demo_call 100 demo_token) (lit ''two-sum'') demo_submission
    (bs_daemon demo_busy) = (Inr demo_flight, d)"
proof -
  have c: "pr_test_cases demo_two_sum \<noteq> []" "ca_fresh (demo_call 100 demo_token) = (\<lambda>k. 100 + k)"
      "ca_now (demo_call 100 demo_token) = 0" "bs_daemon demo_busy = sy_worker demo_registered"
      "grading_submission_valid demo_submission" "us_id demo_user = 7" "\<not> is_admin demo_user"
    by (simp_all add: demo_two_sum_def two_sum_def demo_call_def demo_busy_def grading_submission_valid_def
        demo_submission_def demo_user_def is_admin_def lit_def)
  have "db_problems (dm_db (sy_worker demo_registered)) = []"
    by (simp add: demo_registered_def empty_database_def)
  from two_sum_found [OF this] c(1)
  have "\<exists>db. start_grading 100 0 7 (lit ''two-sum'') demo_submission
      (seed_default_problems_if_empty (\<lambda>k. 100 + (k + 1)) 0 (dm_db (sy_worker demo_registered))) =
      (Started demo_two_sum (grading_submission 100 0 7 demo_two_sum demo_submission), db)"
    by (simp add: start_grading_def Let_def add.commute add.left_commute)
  then show ?thesis
    using that demo_token_user [of 100] c unfolding begin_grading_def demo_flight_def by auto
qed


lemma runs_exist:
  "site_ok st \<Longrightarrow> busy_inv st b \<Longrightarrow> flying row p n b \<Longrightarrow> \<exists>b'. busy_run st b (replicate k (Runs (sb_id row))) b'"
proof (induction k arbitrary: b n)
  case (Suc k)
  obtain f where f: "f \<in> set (bs_flights b)" "fl_row f = row" using Suc.prems(3) by (auto simp: flying_def)
  obtain f' w where "run_case (si_worker st) f (dm_world (bs_daemon b)) = (f', w)" by fastforce
  from busy_step.runs [OF f(1) this] f(2) obtain b' where s: "busy_step st b (Runs (sb_id row)) b'"
    by (auto simp: fl_id_def)
  have "flying row p (n - 1) b'" using busy_step_flying [OF s Suc.prems(2,3)] by simp
  from Suc.IH [OF Suc.prems(1) busy_step_inv [OF s Suc.prems(1,2)] this] s show ?case by auto
qed (auto intro: busy_none)

lemma demo_site_ok: "site_ok demo_site"
  using demo_site_email by (simp add: site_ok_def)

lemma demo_begun:
  obtains b where "busy_reachable demo_site b" "demo_flight \<in> set (bs_flights b)"
proof -
  obtain d where d: "begin_grading demo_site (demo_call 100 demo_token) (lit ''two-sum'') demo_submission
      (bs_daemon demo_busy) = (Inr demo_flight, d)" by (rule demo_begins)
  let ?b = "(with_daemon d demo_busy)\<lparr>bs_flights := demo_flight # bs_flights demo_busy\<rparr>"
  have "busy_step demo_site demo_busy (Begins (demo_call 100 demo_token) (lit ''two-sum'') demo_submission) ?b"
    by (rule busy_step.begins [OF _ d]) (use demo_call_registered in \<open>simp add: demo_busy_def\<close>)
  then have "busy_reachable demo_site ?b"
    using demo_busy_reachable busy_run_snoc unfolding busy_reachable_def by blast
  then show ?thesis using that by simp
qed

section \<open>Properties\<close>





end
