(* ===== verification/Registrations.thy ===== *)
theory Registrations
  imports Accounts
begin

text \<open>
  Registrations that overlap (endpoints/auth.py, services/user_service.py).  A registration
  looks for its e-mail address and its name, and inserts later; in between others may do the
  same.  The unique columns of the table keep the accounts unique under every interleaving,
  and whoever comes second after both have looked is answered with an internal error in place
  of 400.
\<close>

section \<open>The two halves\<close>

text \<open>\<open>None\<close>: the endpoint goes on to insert.\<close>

definition register_checks :: "user_create \<Rightarrow> database \<Rightarrow> user_row reply option" where
  "register_checks user_in db =
     (case get_user_by_email db (uc_email user_in) of
        Reply (Some existing) \<Rightarrow>
          Some (Http_Error 400 (lit ''An account with this email already exists.''))
      | Reply None \<Rightarrow>
          (case get_user_by_username db (uc_username user_in) of
             Reply (Some existing) \<Rightarrow>
               Some (Http_Error 400 (lit ''An account with this username already exists.''))
           | Reply None \<Rightarrow> None
           | _ \<Rightarrow> Some Crash)
      | _ \<Rightarrow> Some Crash)"

lemma register_in_pieces:
  "register_user bc salt new_id user_in db =
     (case register_checks user_in db of
        None \<Rightarrow> create_user bc salt new_id user_in db
      | Some r \<Rightarrow> (r, db))"
  by (simp add: register_user_def register_checks_def split: reply.split option.split)

text \<open>The registrations that have looked, and the table.\<close>

record registering =
  rg_db :: database
  rg_pending :: "user_create list"

datatype registration = Looks user_create | Inserts nat pstr uuid

definition drop_nth :: "nat \<Rightarrow> 'a list \<Rightarrow> 'a list" where
  "drop_nth k xs = take k xs @ drop (Suc k) xs"

text \<open>One step, with the reply when the registration is over.\<close>

fun registration_step :: "bcrypt \<Rightarrow> registration \<Rightarrow> registering \<Rightarrow> user_row reply option \<times> registering" where
  "registration_step bc (Looks user_in) g =
     (case register_checks user_in (rg_db g) of
        None \<Rightarrow> (None, g\<lparr>rg_pending := rg_pending g @ [user_in]\<rparr>)
      | Some r \<Rightarrow> (Some r, g))"
| "registration_step bc (Inserts k salt new_id) g =
     (if k < length (rg_pending g) then
        (case create_user bc salt new_id (rg_pending g ! k) (rg_db g) of
           (r, db) \<Rightarrow> (Some r, g\<lparr>rg_db := db, rg_pending := drop_nth k (rg_pending g)\<rparr>))
      else (None, g))"

fun registration_run :: "bcrypt \<Rightarrow> registration list \<Rightarrow> registering \<Rightarrow> registering" where
  "registration_run bc [] g = g"
| "registration_run bc (e # es) g = registration_run bc es (snd (registration_step bc e g))"

section \<open>Uniqueness\<close>

lemma create_user_cases:
  assumes "create_user bc salt new_id uc db = (r, db')"
  obtains "db' = db" "r = Crash"
  | u where "r = Reply u" "db' = db\<lparr>db_users := db_users db @ [u]\<rparr>" "us_id u = new_id"
      "us_username u = uc_username uc" "us_email u = uc_email uc" "us_role u = uc_role uc"
      "list_all (\<lambda>v. us_email v \<noteq> uc_email uc \<and> us_username v \<noteq> uc_username uc \<and> us_id v \<noteq> new_id) (db_users db)"
proof -
  have "db' = db \<and> r = Crash \<or> (\<exists>u. r = Reply u \<and> db' = db\<lparr>db_users := db_users db @ [u]\<rparr> \<and> us_id u = new_id \<and>
      us_username u = uc_username uc \<and> us_email u = uc_email uc \<and> us_role u = uc_role uc \<and>
      list_all (\<lambda>v. us_email v \<noteq> uc_email uc \<and> us_username v \<noteq> uc_username uc \<and> us_id v \<noteq> new_id) (db_users db))"
    using assms by (auto simp: create_user_def Let_def list_all_iff list_ex_iff split: sum.splits if_splits)
  then show ?thesis using that by blast
qed

lemma create_user_inv:
  assumes "create_user bc salt new_id uc db = (r, db')" "accounts_inv (db_users db)"
    and "user_create_valid is_email uc" "email_ok is_email"
  shows "accounts_inv (db_users db')"
  using assms(1)
proof (cases rule: create_user_cases)
  case (2 u)
  have "64 \<notin> set (uc_username uc)" "64 \<in> set (uc_email uc)" "List.member account_roles (uc_role uc)"
    using assms(3,4) by (auto simp: user_create_valid_def email_ok_def list_all_iff username_char_def)
  then show ?thesis using assms(2) 2 by (auto simp: accounts_inv_def list_all_iff)
qed (use assms(2) in simp)

fun body_ok :: "(pstr \<Rightarrow> bool) \<Rightarrow> registration \<Rightarrow> bool" where
  "body_ok is_email (Looks user_in) = user_create_valid is_email user_in"
| "body_ok is_email (Inserts k salt new_id) = True"

definition registering_inv :: "(pstr \<Rightarrow> bool) \<Rightarrow> registering \<Rightarrow> bool" where
  "registering_inv is_email g \<longleftrightarrow>
     accounts_inv (db_users (rg_db g)) \<and> list_all (user_create_valid is_email) (rg_pending g)"

lemma set_drop_nth: "set (drop_nth k xs) \<subseteq> set xs"
  unfolding drop_nth_def by (auto dest: in_set_takeD in_set_dropD)

lemma registration_step_inv:
  assumes "registering_inv is_email g" "body_ok is_email e" "email_ok is_email"
  shows "registering_inv is_email (snd (registration_step bc e g))"
proof (cases e)
  case (Looks uc)
  then show ?thesis using assms by (auto simp: registering_inv_def split: option.split)
next
  case (Inserts k salt new_id)
  show ?thesis
  proof (cases "k < length (rg_pending g)")
    case True
    obtain r db where c: "create_user bc salt new_id (rg_pending g ! k) (rg_db g) = (r, db)" by fastforce
    have "user_create_valid is_email (rg_pending g ! k)"
      using assms(1) True by (simp add: registering_inv_def list_all_iff)
    then have "accounts_inv (db_users db)"
      using create_user_inv [OF c] assms(1,3) by (simp add: registering_inv_def)
    then show ?thesis
      using assms(1) Inserts True c set_drop_nth by (fastforce simp: registering_inv_def list_all_iff)
  qed (use assms(1) Inserts in simp)
qed

text \<open>Whatever looks and inserts are interleaved, the accounts stay unique.\<close>

lemma registrations_unique:
  "registering_inv is_email g \<Longrightarrow> list_all (body_ok is_email) es \<Longrightarrow> email_ok is_email \<Longrightarrow>
   registering_inv is_email (registration_run bc es g)"
  by (induction es arbitrary: g) (simp_all add: registration_step_inv)

text \<open>Two that have looked for the same name: the first to insert wins, the other crashes.\<close>

lemma second_insert_crashes:
  assumes "create_user bc salt new_id uc db = (Reply u, db')" "uc_username uc' = uc_username uc"
  shows "create_user bc salt' new_id' uc' db' = (Crash, db')"
proof -
  obtain u' where "db' = db\<lparr>db_users := db_users db @ [u']\<rparr>" "us_username u' = uc_username uc"
    using assms(1) by (cases rule: create_user_cases) auto
  then show ?thesis using assms(2) by (simp add: create_user_def Let_def split: sum.split)
qed

lemma racing_registration_crashes:
  assumes "registration_run bc [Looks uc, Looks uc'] g = g2" "rg_pending g = []"
    and "register_checks uc (rg_db g) = None" "register_checks uc' (rg_db g) = None"
    and "uc_username uc' = uc_username uc"
    and "registration_step bc (Inserts 0 salt new_id) g2 = (Some (Reply u), g3)"
  shows "fst (registration_step bc (Inserts 0 salt' new_id') g3) = Some Crash"
proof -
  have g2: "rg_db g2 = rg_db g" "rg_pending g2 = [uc, uc']" using assms(1-4) by auto
  then obtain db' where c: "create_user bc salt new_id uc (rg_db g) = (Reply u, db')"
    "rg_db g3 = db'" "rg_pending g3 = [uc']"
    using assms(6) by (auto simp: drop_nth_def split: prod.splits)
  then show ?thesis using second_insert_crashes [OF c(1) assms(5)] by (simp split: prod.split)
qed

end
