(* ===== verification/Responses.thy ===== *)
theory Responses
  imports Problem_Claims Rooms
begin

text \<open>
  The response models (backend/app/schemas): what of a row goes to the browser, as the JSON
  value that FastAPI renders.  \<open>show_time\<close> is pydantic's text of a timestamp; the columns
  \<open>created_at\<close> of accounts and memberships and \<open>updated_at\<close>, which no operation of the model
  reads, are arguments.  No reply depends on a password hash, a client can read a submission
  back from its reply, and the telemetry of a graded submission names every oracle.
\<close>

section \<open>Accounts\<close>

abbreviation field :: "string \<Rightarrow> json \<Rightarrow> pstr \<times> json" where
  "field name v \<equiv> (lit name, v)"

fun text_or_null :: "pstr option \<Rightarrow> json" where
  "text_or_null None = JNull"
| "text_or_null (Some s) = JStr s"

fun int_or_null :: "int option \<Rightarrow> json" where
  "int_or_null None = JNull"
| "int_or_null (Some i) = JInt i"

definition uuid_json :: "uuid \<Rightarrow> json" where
  "uuid_json i = JStr (show_uuid i)"

definition user_response :: "(int \<Rightarrow> pstr) \<Rightarrow> int \<Rightarrow> user_row \<Rightarrow> json" where
  "user_response show_time created_at u =
     JObj [field ''email'' (JStr (us_email u)), field ''username'' (JStr (us_username u)),
           field ''id'' (uuid_json (us_id u)), field ''role'' (JStr (us_role u)),
           field ''is_active'' (JBool (us_is_active u)), field ''created_at'' (JStr (show_time created_at))]"

section \<open>Submissions\<close>

definition verdict_json :: "test_case_verdict \<Rightarrow> json" where
  "verdict_json v =
     JObj [field ''test_case_id'' (JStr (tv_test_case_id v)), field ''order'' (JInt (tv_order v)),
           field ''status'' (JStr (verdict_value (tv_status v))), field ''passed'' (JBool (tv_passed v)),
           field ''duration_ms'' (JInt (tv_duration_ms v)), field ''memory_bytes'' (JInt (tv_memory_bytes v)),
           field ''is_hidden'' (JBool (tv_is_hidden v)), field ''weight'' (JInt (tv_weight v)),
           field ''earned_points'' (JInt (tv_earned_points v)),
           field ''input_data'' (text_or_null (tv_input_data v)),
           field ''expected_output'' (text_or_null (tv_expected_output v)),
           field ''actual_output'' (text_or_null (tv_actual_output v)),
           field ''diff'' (text_or_null (tv_diff v)),
           field ''error_message'' (text_or_null (tv_error_message v))]"

definition summary_fields :: "grading_summary \<Rightarrow> (pstr \<times> json) list" where
  "summary_fields sm =
     [field ''submission_id'' (JStr (gs_submission_id sm)), field ''problem_id'' (JStr (gs_problem_id sm)),
      field ''overall_status'' (JStr (verdict_value (gs_overall_status sm))),
      field ''total_score'' (JInt (gs_total_score sm)), field ''max_score'' (JInt (gs_max_score sm)),
      field ''percentage'' (JFloat (gs_percentage sm)), field ''passed_count'' (JInt (gs_passed_count sm)),
      field ''total_test_cases'' (JInt (gs_total_test_cases sm)),
      field ''execution_time_ms'' (JInt (gs_execution_time_ms sm)),
      field ''peak_memory_bytes'' (JInt (gs_peak_memory_bytes sm)),
      field ''compile_error'' (text_or_null (gs_compile_error sm)),
      field ''test_case_results'' (JArr (map verdict_json (gs_test_case_results sm)))]"

text \<open>The telemetry column holds the dumped summary with its metadata, or an empty object.\<close>

fun telemetry_json :: "grading_summary option \<Rightarrow> json" where
  "telemetry_json None = JObj []"
| "telemetry_json (Some sm) =
     JObj (summary_fields sm @ [field ''metadata'' (JObj (map (map_prod id JStr) (gs_metadata sm)))])"

definition submission_response :: "(int \<Rightarrow> pstr) \<Rightarrow> submission_row \<Rightarrow> json" where
  "submission_response show_time s =
     JObj [field ''id'' (uuid_json (sb_id s)), field ''user_id'' (uuid_json (sb_user_id s)),
           field ''language'' (JStr (sb_language s)), field ''source_code'' (JStr (sb_source_code s)),
           field ''stdin_data'' (text_or_null (sb_stdin_data s)), field ''status'' (JStr (sb_status s)),
           field ''exit_code'' (int_or_null (sb_exit_code s)),
           field ''execution_time_ms'' (int_or_null (sb_execution_time_ms s)),
           field ''peak_memory_bytes'' (int_or_null (sb_peak_memory_bytes s)),
           field ''output_summary'' (text_or_null (sb_output_summary s)),
           field ''telemetry'' (telemetry_json (sb_telemetry s)),
           field ''created_at'' (JStr (show_time (sb_created_at s)))]"

text \<open>The envelope of a page, of submissions and of rooms.\<close>

definition page_json :: "json list \<Rightarrow> nat \<Rightarrow> int \<Rightarrow> int \<Rightarrow> json" where
  "page_json items n_rows page page_size =
     JObj [field ''items'' (JArr items), field ''total'' (JInt (int n_rows)), field ''page'' (JInt page),
           field ''page_size'' (JInt page_size)]"

definition submission_list_response :: "(int \<Rightarrow> pstr) \<Rightarrow> submission_row list \<times> nat \<Rightarrow> int \<Rightarrow> int \<Rightarrow> json" where
  "submission_list_response show_time = (\<lambda>(rows, n_rows). page_json (map (submission_response show_time) rows) n_rows)"

section \<open>Problems\<close>

definition test_case_read :: "test_case_row \<Rightarrow> json" where
  "test_case_read tc =
     JObj [field ''id'' (uuid_json (te_id tc)), field ''is_hidden'' (JBool (te_is_hidden tc)),
           field ''weight'' (JInt (te_weight tc)), field ''order'' (JInt (te_order tc)),
           field ''explanation'' (text_or_null (te_explanation tc)),
           field ''input_data'' (JStr (te_input_data tc)), field ''expected_output'' (JStr (te_expected_output tc))]"

definition problem_base :: "(int \<Rightarrow> pstr) \<Rightarrow> problem_row \<Rightarrow> (pstr \<times> json) list" where
  "problem_base show_time p =
     [field ''title'' (JStr (pr_title p)), field ''slug'' (JStr (pr_slug p)),
      field ''description'' (JStr (pr_description p)), field ''difficulty'' (JStr (pr_difficulty p)),
      field ''time_limit_ms'' (JInt (pr_time_limit_ms p)), field ''memory_limit_mb'' (JInt (pr_memory_limit_mb p)),
      field ''is_published'' (JBool (pr_is_published p)), field ''id'' (uuid_json (pr_id p)),
      field ''created_at'' (JStr (show_time (pr_created_at p)))]"

definition problem_read_json :: "(int \<Rightarrow> pstr) \<Rightarrow> problem_read \<Rightarrow> json" where
  "problem_read_json show_time r =
     JObj (problem_base show_time (pd_problem r) @
       [field ''test_case_count'' (JInt (pd_test_case_count r)),
        field ''sample_cases_count'' (JInt (pd_sample_cases_count r))])"

definition problem_detail_json :: "(int \<Rightarrow> pstr) \<Rightarrow> problem_detail_read \<Rightarrow> json" where
  "problem_detail_json show_time r =
     JObj (problem_base show_time (dt_problem r) @
       [field ''sample_test_cases'' (JArr (map test_case_read (dt_sample_test_cases r))),
        field ''total_test_cases'' (JInt (dt_total_test_cases r)),
        field ''total_points'' (JInt (dt_total_points r))])"

text \<open>A scorecard leaves the metadata out.\<close>

definition grading_result_json :: "grading_result_read \<Rightarrow> json" where
  "grading_result_json r = JObj (summary_fields (gd_summary r))"

section \<open>Rooms\<close>

definition room_response :: "(int \<Rightarrow> pstr) \<Rightarrow> int \<Rightarrow> room_row \<Rightarrow> json" where
  "room_response show_time updated_at r =
     JObj [field ''id'' (uuid_json (ro_id r)), field ''name'' (JStr (ro_name r)),
           field ''owner_id'' (uuid_json (ro_owner_id r)), field ''language'' (JStr (ro_language r)),
           field ''current_code'' (JStr (ro_current_code r)), field ''is_active'' (JBool (ro_is_active r)),
           field ''max_members'' (JInt (ro_max_members r)),
           field ''created_at'' (JStr (show_time (ro_created_at r))),
           field ''updated_at'' (JStr (show_time updated_at))]"

text \<open>The field \<open>joined_at\<close> is written under its alias.\<close>

definition room_member_response :: "(int \<Rightarrow> pstr) \<Rightarrow> int \<Rightarrow> member_row \<Rightarrow> json" where
  "room_member_response show_time created_at m =
     JObj [field ''id'' (uuid_json (mb_id m)), field ''user_id'' (uuid_json (mb_user_id m)),
           field ''role'' (JStr (mb_role m)), field ''created_at'' (JStr (show_time created_at))]"

definition room_list_response ::
  "(int \<Rightarrow> pstr) \<Rightarrow> (uuid \<Rightarrow> int) \<Rightarrow> room_row list \<times> nat \<Rightarrow> int \<Rightarrow> int \<Rightarrow> json" where
  "room_list_response show_time updated_at =
     (\<lambda>(rows, n_rows). page_json (map (\<lambda>r. room_response show_time (updated_at (ro_id r)) r) rows) n_rows)"

section \<open>What a client reads\<close>

fun obj_get :: "string \<Rightarrow> json \<Rightarrow> json" where
  "obj_get name (JObj kvs) = dict_get (lit name) JNull kvs"
| "obj_get name _ = JNull"

fun arr_items :: "json \<Rightarrow> json list" where
  "arr_items (JArr xs) = xs"
| "arr_items _ = []"


text \<open>The columns of a submission that a client reads off its reply.\<close>

lemma submission_read_back:
  "obj_get ''id'' (submission_response show_time s) = JStr (show_uuid (sb_id s))"
  "obj_get ''source_code'' (submission_response show_time s) = JStr (sb_source_code s)"
  "obj_get ''status'' (submission_response show_time s) = JStr (sb_status s)"
  "obj_get ''output_summary'' (submission_response show_time s) = text_or_null (sb_output_summary s)"
  "obj_get ''telemetry'' (submission_response show_time s) = telemetry_json (sb_telemetry s)"
  by (simp_all add: submission_response_def uuid_json_def dict_get_def)

lemma results_read_back:
  "arr_items (obj_get ''test_case_results'' (telemetry_json (Some sm))) = map verdict_json (gs_test_case_results sm)"
  "obj_get ''input_data'' (verdict_json v) = text_or_null (tv_input_data v)"
  "obj_get ''expected_output'' (verdict_json v) = text_or_null (tv_expected_output v)"
  by (simp_all add: summary_fields_def verdict_json_def dict_get_def)

section \<open>What the replies give away\<close>

text \<open>No reply of the identity endpoint depends on a stored hash.\<close>

definition same_but_hashes :: "database \<Rightarrow> database \<Rightarrow> bool" where
  "same_but_hashes db db' \<longleftrightarrow>
     map (\<lambda>u. u\<lparr>us_hashed_password := []\<rparr>) (db_users db) = map (\<lambda>u. u\<lparr>us_hashed_password := []\<rparr>) (db_users db')"

lemma filter_hashes:
  assumes "\<And>u h. P (u\<lparr>us_hashed_password := h\<rparr>) = P u"
  shows "map (\<lambda>u. u\<lparr>us_hashed_password := []\<rparr>) (filter P us) =
    filter P (map (\<lambda>u. u\<lparr>us_hashed_password := []\<rparr>) us)"
  by (simp add: filter_map comp_def assms)

lemma user_response_hash: "user_response show_time c (u\<lparr>us_hashed_password := h\<rparr>) = user_response show_time c u"
  by (simp add: user_response_def)

lemma same_user_reply:
  assumes "u\<lparr>us_hashed_password := []\<rparr> = v\<lparr>us_hashed_password := []\<rparr>"
  shows "user_response show_time c u = user_response show_time c v" "us_is_active u = us_is_active v"
  using assms user_response_hash [of show_time c _ u] user_response_hash [of show_time c _ v]
  by metis (cases u; cases v; use assms in simp)

lemma same_lookup:
  assumes "map (\<lambda>u. u\<lparr>us_hashed_password := []\<rparr>) xs = map (\<lambda>u. u\<lparr>us_hashed_password := []\<rparr>) ys"
  obtains "xs = []" "ys = []"
  | x y where "xs = [x]" "ys = [y]" "us_is_active x = us_is_active y"
      "\<And>show_time c. user_response show_time c x = user_response show_time c y"
  | "one_or_none xs = Crash" "one_or_none ys = Crash"
proof (cases xs)
  case Nil
  then show ?thesis using that(1) assms by simp
next
  case (Cons x xs')
  then obtain y ys' where ys: "ys = y # ys'" "x\<lparr>us_hashed_password := []\<rparr> = y\<lparr>us_hashed_password := []\<rparr>"
    "map (\<lambda>u. u\<lparr>us_hashed_password := []\<rparr>) xs' = map (\<lambda>u. u\<lparr>us_hashed_password := []\<rparr>) ys'"
    using assms by (cases ys) auto
  show ?thesis
  proof (cases xs')
    case Nil
    then show ?thesis using that(2) Cons ys same_user_reply [OF ys(2)] by simp
  next
    case (Cons z zs)
    then obtain z' zs' where "ys' = z' # zs'" using ys(3) by (cases ys') auto
    then show ?thesis using that(3) \<open>xs = x # xs'\<close> Cons ys(1) by (simp add: one_or_none_def)
  qed
qed

lemma identity_hides_hashes:
  assumes "same_but_hashes db db'"
  shows "map_reply (user_response show_time c) (get_current_user jw now tok db) =
    map_reply (user_response show_time c) (get_current_user jw now tok db')"
proof -
  have "map_reply (user_response show_time c)
      (case one_or_none (filter (\<lambda>u. us_id u = i) (db_users db)) of
         Reply (Some user) \<Rightarrow> if us_is_active user then Reply user else Http_Error 400 (lit ''Inactive user account'')
       | Reply None \<Rightarrow> credentials_exception | Http_Error code m \<Rightarrow> Http_Error code m | Crash \<Rightarrow> Crash) =
    map_reply (user_response show_time c)
      (case one_or_none (filter (\<lambda>u. us_id u = i) (db_users db')) of
         Reply (Some user) \<Rightarrow> if us_is_active user then Reply user else Http_Error 400 (lit ''Inactive user account'')
       | Reply None \<Rightarrow> credentials_exception | Http_Error code m \<Rightarrow> Http_Error code m | Crash \<Rightarrow> Crash)" for i
  proof -
    have "map (\<lambda>u. u\<lparr>us_hashed_password := []\<rparr>) (filter (\<lambda>u. us_id u = i) (db_users db)) =
        map (\<lambda>u. u\<lparr>us_hashed_password := []\<rparr>) (filter (\<lambda>u. us_id u = i) (db_users db'))"
      using assms by (simp add: filter_hashes same_but_hashes_def)
    then show ?thesis by (cases rule: same_lookup) simp_all
  qed
  then show ?thesis
    by (simp add: get_current_user_def split: option.split json.split)
qed

text \<open>C30. The submission endpoint gives away every hidden oracle.  After grading, the JSON that
  its owner, an ordinary user, is answered for the details of the submission lists the input and
  the expected output of every test case of the problem, the hidden ones included.\<close>

theorem reply_leaks_oracles:
  assumes "submit_for_grading fmt exec fresh now i g u db w = (Reply sc, db', w')"
    and "fresh 0 \<notin> sb_id ` set (db_submissions db)"
  shows "\<exists>problem row.
    find_problem (seed_default_problems_if_empty (\<lambda>k. fresh (k + 1)) now db) i = Reply (Some problem) \<and>
    get_submission_details db' (fresh 0) u = Reply row \<and>
    mset (map (\<lambda>v. (obj_get ''input_data'' v, obj_get ''expected_output'' v))
      (arr_items (obj_get ''test_case_results'' (obj_get ''telemetry'' (submission_response show_time row))))) =
    mset (map (\<lambda>tc. (JStr (te_input_data tc), JStr (te_expected_output tc))) (pr_test_cases problem))"
proof -
  from details_leak_oracles [OF assms] obtain problem row sm where
    p: "find_problem (seed_default_problems_if_empty (\<lambda>k. fresh (k + 1)) now db) i = Reply (Some problem)"
      "get_submission_details db' (fresh 0) u = Reply row" "sb_telemetry row = Some sm" and
    m: "mset (map (\<lambda>v. (tv_input_data v, tv_expected_output v)) (gs_test_case_results sm)) =
      mset (map (\<lambda>tc. (Some (te_input_data tc), Some (te_expected_output tc))) (pr_test_cases problem))"
    by blast
  have "mset (map (\<lambda>v. (obj_get ''input_data'' v, obj_get ''expected_output'' v))
      (arr_items (obj_get ''test_case_results'' (obj_get ''telemetry'' (submission_response show_time row))))) =
      image_mset (map_prod text_or_null text_or_null)
        (mset (map (\<lambda>v. (tv_input_data v, tv_expected_output v)) (gs_test_case_results sm)))"
    by (simp add: submission_read_back(5) p(3) results_read_back multiset.map_comp comp_def del: telemetry_json.simps)
  also have "\<dots> = mset (map (\<lambda>tc. (JStr (te_input_data tc), JStr (te_expected_output tc))) (pr_test_cases problem))"
    unfolding m by (simp add: multiset.map_comp comp_def)
  finally show ?thesis using p(1,2) by blast
qed

theorem reply_leaks_oracles_witness:
  "\<exists>db' row. get_submission_details db' 9 demo_user = Reply row \<and> \<not> is_admin demo_user \<and>
     map (obj_get ''expected_output'') (arr_items (obj_get ''test_case_results''
       (obj_get ''telemetry'' (submission_response show_int row)))) = [JStr (lit ''1'')] \<and>
     list_all te_is_hidden (pr_test_cases demo_problem)"
proof -
  obtain sc db' w' where s: "submit_for_grading plain_fmt echo_driver (\<lambda>_. 9) 5 (lit ''echo'') demo_submission demo_user demo_db 0 =
     (Reply sc, db', w')" using demo_submits by (elim exE)
  from reply_leaks_oracles [OF s demo_db_fresh, of show_int] obtain row where
    r: "get_submission_details db' 9 demo_user = Reply row"
    and m: "mset (map (\<lambda>v. (obj_get ''input_data'' v, obj_get ''expected_output'' v))
      (arr_items (obj_get ''test_case_results'' (obj_get ''telemetry'' (submission_response show_int row))))) =
      {#(JStr (lit ''1''), JStr (lit ''1''))#}"
    unfolding demo_found by (auto simp: demo_problem_def)
  have "map (obj_get ''expected_output'') (arr_items (obj_get ''test_case_results''
       (obj_get ''telemetry'' (submission_response show_int row)))) = [JStr (lit ''1'')]"
    using arg_cong [OF m, of "image_mset snd"] by (simp flip: mset_map add: comp_def)
  then show ?thesis
    using r demo_user_not_admin by (intro exI conjI) (assumption+, simp add: demo_problem_def)
qed

end
