(* ===== verification/Worker_Lives.thy ===== *)
theory Worker_Lives
  imports Backend_Claims
begin

text \<open>
  The lives of the worker process (worker/daemon.py, from the start of the loop to the end of
  the program).  The loop pops a payload before it works on it and nothing puts it back, so a
  process that dies in the middle of a job, by a cancellation, a keyboard interrupt or a kill,
  takes the job with it: its submission is pending for ever, however often the worker is
  started again.
\<close>

section \<open>The process\<close>

text \<open>\<open>lf_redis\<close>: the process holds an open connection.\<close>

record ('w, 'r) life =
  lf_system :: "('w, 'r) system"
  lf_redis :: bool

abbreviation lf_daemon :: "('w, 'r) life \<Rightarrow> 'w daemon" where
  "lf_daemon l \<equiv> sy_worker (lf_system l)"

definition with_worker :: "'w daemon \<Rightarrow> ('w, 'r) life \<Rightarrow> ('w, 'r) life" where
  "with_worker d l = l\<lparr>lf_system := (lf_system l)\<lparr>sy_worker := d\<rparr>\<rparr>"

text \<open>\<open>start()\<close> up to the loop, and what follows it.\<close>

definition life_start :: "('w, 'r) life \<Rightarrow> ('w, 'r) life" where
  "life_start l = (with_worker ((lf_daemon l)\<lparr>dm_running := True\<rparr>) l)\<lparr>lf_redis := True\<rparr>"

definition life_leave :: "('w, 'r) life \<Rightarrow> ('w, 'r) life" where
  "life_leave l = (if lf_redis l then l\<lparr>lf_redis := False\<rparr> else l)"

text \<open>
  A job under way when the process is hit: the payload is popped, some frames are published,
  the sandboxes are in some state, and the row is not yet written.
\<close>

definition job_under_way :: "pstr list \<Rightarrow> 'w \<Rightarrow> 'w daemon \<Rightarrow> 'w daemon" where
  "job_under_way frames w d =
     d\<lparr>dm_queue := butlast (dm_queue d), dm_frames := dm_frames d @ frames, dm_world := w\<rparr>"

text \<open>\<open>CancelledError\<close> breaks the loop; \<open>KeyboardInterrupt\<close> escapes from it to the main program.\<close>

definition life_cancelled :: "('w, 'r) life \<Rightarrow> ('w, 'r) life" where
  "life_cancelled l = life_leave l"

definition life_interrupted :: "('w, 'r) life \<Rightarrow> ('w, 'r) life" where
  "life_interrupted l = with_worker (daemon_stop (lf_daemon l)) l"

inductive life_step :: "('w, 'r) site \<Rightarrow> ('w, 'r) life \<Rightarrow> ('w, 'r) life \<Rightarrow> bool" for st where
  started: "life_step st l (life_start l)"
| lives: "site_step st (lf_system l) e sy \<Longrightarrow> life_step st l (l\<lparr>lf_system := sy\<rparr>)"
| left: "\<not> dm_running (lf_daemon l) \<Longrightarrow> life_step st l (life_leave l)"
| cancelled: "life_step st l (life_cancelled l)"
| interrupted: "life_step st l (life_interrupted l)"
| cancelled_job: "dm_queue (lf_daemon l) \<noteq> [] \<Longrightarrow>
    life_step st l (life_cancelled (with_worker (job_under_way frames w (lf_daemon l)) l))"
| interrupted_job: "dm_queue (lf_daemon l) \<noteq> [] \<Longrightarrow>
    life_step st l (life_interrupted (with_worker (job_under_way frames w (lf_daemon l)) l))"

inductive life_run :: "('w, 'r) site \<Rightarrow> ('w, 'r) life \<Rightarrow> ('w, 'r) life \<Rightarrow> bool" for st where
  life_none: "life_run st l l"
| life_more: "life_step st l l' \<Longrightarrow> life_run st l' l'' \<Longrightarrow> life_run st l l''"

lemma life_simps [simp]:
  "lf_daemon (with_worker d l) = d" "lf_system (life_leave l) = lf_system l"
  "lf_daemon (life_start l) = (lf_daemon l)\<lparr>dm_running := True\<rparr>"
  "lf_system (life_cancelled l) = lf_system l"
  "lf_daemon (life_interrupted l) = (lf_daemon l)\<lparr>dm_running := False\<rparr>"
  by (simp_all add: with_worker_def life_start_def life_leave_def life_cancelled_def life_interrupted_def daemon_stop_def)

lemma under_way_simps [simp]:
  "dm_db (job_under_way frames w d) = dm_db d" "dm_queue (job_under_way frames w d) = butlast (dm_queue d)"
  by (simp_all add: job_under_way_def)

section \<open>A submission without a job\<close>

text \<open>It is stored as it is, and no payload on the queue carries it.\<close>

definition jobless :: "submission_row \<Rightarrow> 'w daemon \<Rightarrow> bool" where
  "jobless s d \<longleftrightarrow> s \<in> set (db_submissions (dm_db d)) \<and> list_all (\<lambda>p. \<not> carries p s) (dm_queue d)"

lemma jobless_turn:
  assumes "jobless s d" "backend_inv d"
  shows "jobless s (daemon_turn en d)"
proof (cases rule: daemon_turn_cases [of en d])
  case (2 q p)
  then obtain s' where s': "s' \<in> set (db_submissions (dm_db d))" "carries p s'"
    using assms(2) by (auto simp: backend_inv_def queue_ok_def list_ex_iff)
  have "\<not> carries p s" using assms(1) 2(1) by (simp add: jobless_def)
  then have "s' \<noteq> s" using s'(2) by blast
  then have id: "sb_id s \<noteq> sb_id s'"
    using assms s'(1) by (auto simp: jobless_def backend_inv_def db_inv_def distinct_map inj_on_def)
  obtain v where "dm_db (daemon_turn en d) = persist_submission_result (en_storable en) (show_uuid (sb_id s')) v (dm_db d)"
      "uuid_of (show_uuid (sb_id s')) = Some (sb_id s')"
    using carried_persists [OF s'(2), of en "d\<lparr>dm_queue := q\<rparr>"] 2(2) by auto
  then have "s \<in> set (db_submissions (dm_db (daemon_turn en d)))"
    using assms(1) id by (force simp: jobless_def persist_submission_result_def split: option.split)
  then show ?thesis using assms(1) 2(1,3) by (simp add: jobless_def)
qed (use assms in simp)

lemma request_queue:
  assumes "backend_inv d" "draws_fresh (ca_fresh ca) (dm_db d)" "headers_ok (ca_trace ca)" "body_text rq"
  shows "\<exists>ps. dm_queue (snd (handle_request st ca rq d)) = ps @ dm_queue d \<and>
    list_all (\<lambda>p. \<forall>s \<in> set (db_submissions (dm_db d)). \<not> carries p s) ps"
proof -
  have behind: "dm_queue (snd (as_user st ca (\<lambda>u. on_db c (ep u)) d)) = dm_queue d"
      "dm_queue (snd (as_admin st ca (\<lambda>u. on_db c (ep u)) d)) = dm_queue d"
    for c and ep :: "user_row \<Rightarrow> database \<Rightarrow> 'x reply \<times> database"
    by (simp_all add: as_user_def as_admin_def on_db_def split: reply.split prod.split)
  show ?thesis
  proof (cases rq)
    case (Submit_Code sub_in up)
    show ?thesis
    proof (cases "get_current_user (si_jwt st) (ca_now ca) (ca_token ca) (dm_db d)")
      case (Reply u)
      obtain r db ps where s: "submit_code (si_show_float st) (si_python_exe st) (si_registry st) up (ca_trace ca)
          (ca_fresh ca 0) (ca_now ca) u sub_in (dm_db d) = (r, db, ps)" by (metis prod_cases3)
      have q: "dm_queue (snd (handle_request st ca rq d)) = rev ps @ dm_queue d"
        using s Reply Submit_Code by (simp add: serve_submission_def as_user_def fold_enqueue)
      from s have "list_all (\<lambda>p. \<forall>s \<in> set (db_submissions (dm_db d)). \<not> carries p s) (rev ps)"
      proof (cases rule: submit_cases)
        case (2 row payload)
        have "carries payload row"
          by (rule payload_carries [OF 2(1) _ assms(3) fresh_facts(3) [OF assms(2)] 2(2)])
            (use assms(4) Submit_Code in simp)
        then have "sb_id s = ca_fresh ca 0" if "carries payload s" for s
          using carries_same_id [OF that] created_row(2) [OF 2(2)] by simp
        then show ?thesis using fresh_facts(1) [OF assms(2)] 2(5) by (fastforce simp: image_iff)
      qed simp_all
      then show ?thesis using q by blast
    qed (use Submit_Code in \<open>simp_all add: serve_submission_def as_user_def\<close>)
  next
    case (Submit_Problem i g)
    then show ?thesis by (simp add: serve_grading_def as_user_def split: reply.split prod.split)
  qed (simp_all add: behind serve_registration_def on_db_def split: prod.split)
qed

lemma jobless_request:
  assumes "jobless s d" "backend_inv d" "draws_fresh (ca_fresh ca) (dm_db d)" "headers_ok (ca_trace ca)" "body_text rq"
    and "email_ok (si_is_email st)"
  shows "jobless s (snd (handle_request st ca rq d))"
proof -
  have "served d (snd (handle_request st ca rq d))" by (rule handle_request_served [OF assms(6,2-5)])
  then have "s \<in> set (db_submissions (dm_db (snd (handle_request st ca rq d))))"
    using assms(1) set_mono_prefix by (fastforce simp: served_def advances_def appends_def jobless_def)
  then show ?thesis
    using assms(1) request_queue [OF assms(2-5), of st] by (auto simp: jobless_def list_all_iff)
qed

lemma life_step_ok:
  assumes "life_step st l l'" "site_ok st" "backend_inv (lf_daemon l)"
  shows "backend_inv (lf_daemon l') \<and> (jobless s (lf_daemon l) \<longrightarrow> jobless s (lf_daemon l'))"
proof -
  have popped: "backend_inv (d\<lparr>dm_queue := butlast q, dm_frames := f, dm_world := w\<rparr>)"
      "jobless s d \<Longrightarrow> jobless s (d\<lparr>dm_queue := butlast q, dm_frames := f, dm_world := w\<rparr>)"
    if "backend_inv d" "dm_queue d = q" for d :: "'a daemon" and q f w
    using that by (auto simp: backend_inv_def queue_ok_def jobless_def list_all_iff dest: in_set_butlastD)
  from assms(1) show ?thesis
  proof (cases rule: life_step.cases)
    case (lives e sy)
    have "jobless s (sy_worker sy)" if "jobless s (lf_daemon l)"
      using lives(2)
    proof (cases rule: site_step.cases)
      case (request ca rq)
      then show ?thesis
        using jobless_request [OF that assms(3) request(3-5), of st] assms(2) that
        by (cases rule: serve_worker [of st ca rq "lf_system l"]) (simp_all add: site_ok_def)
    next
      case turn
      then show ?thesis using jobless_turn [OF that assms(3)] by simp
    next
      case stop
      then show ?thesis using that by (simp add: daemon_stop_def jobless_def)
    qed
    then show ?thesis using step_ok [OF lives(2) assms(2,3)] lives(1) by simp
  qed (use assms(3) popped [OF assms(3) refl] in
      \<open>auto simp: job_under_way_def backend_inv_def queue_ok_def jobless_def\<close>)
qed


lemma life_run_ok:
  "life_run st l l' \<Longrightarrow> site_ok st \<Longrightarrow> backend_inv (lf_daemon l) \<Longrightarrow> jobless s (lf_daemon l) \<Longrightarrow>
   backend_inv (lf_daemon l') \<and> jobless s (lf_daemon l')"
proof (induction rule: life_run.induct)
  case (life_more l l' l'')
  then show ?case using life_step_ok [OF life_more(1)] by blast
qed simp

section \<open>Properties\<close>

text \<open>C36. A job that is under way when its worker dies is lost.  From any state the backend
  reaches, when the process is cancelled or interrupted in the middle of the only job of a
  submission, then in every later state, whatever requests are served and however often the
  worker is started again and turns, the row of that submission is still what it was when the
  job began, and no payload on the queue will run it.\<close>

theorem killed_job_is_lost:
  assumes "email_ok (si_is_email st)" and "reachable st (lf_system l)"
    and "s \<in> set (db_submissions (dm_db (lf_daemon l)))"
    and "dm_queue (lf_daemon l) = q @ [p]" and "carries p s" and "list_all (\<lambda>p. \<not> carries p s) q"
    and "l' = life_cancelled (with_worker (job_under_way frames w (lf_daemon l)) l) \<or>
         l' = life_interrupted (with_worker (job_under_way frames w (lf_daemon l)) l)"
    and "life_run st l' l''"
  shows "s \<in> set (db_submissions (dm_db (lf_daemon l''))) \<and>
         list_all (\<lambda>p. \<not> carries p s) (dm_queue (lf_daemon l''))"
proof -
  have ok: "site_ok st" using assms(1) by (simp add: site_ok_def)
  have inv: "backend_inv (lf_daemon l)" by (rule reachable_inv [OF assms(2) ok])
  have "life_step st l l'"
    using assms(4,7) life_step.cancelled_job [of l st frames w] life_step.interrupted_job [of l st frames w] by auto
  then have "backend_inv (lf_daemon l')" using life_step_ok [OF _ ok inv] by blast
  moreover have "jobless s (lf_daemon l')" using assms(3,4,6,7) by (auto simp: jobless_def)
  ultimately show ?thesis using life_run_ok [OF assms(8) ok] by (simp add: jobless_def)
qed

theorem killed_job_is_lost_witness:
  "\<exists>(l :: (nat, unit) life) s. length (dm_queue (lf_daemon l)) = 1 \<and>
     s \<in> set (db_submissions (dm_db (daemon_turn demo_env (lf_daemon (life_start
       (life_cancelled (with_worker (job_under_way [] 0 (lf_daemon l)) l)))))))"
proof -
  obtain sy1 where s: "serve demo_site (demo_call 100 demo_token) (Submit_Code demo_source True) demo_registered = (202, sy1)"
    and q: "length (dm_queue (sy_worker sy1)) = 1" by (rule demo_submit)
  have w: "headers_ok (ca_trace (demo_call 100 demo_token))" "submitted_text demo_source" "si_worker demo_site = demo_env"
    by (simp_all add: demo_source_def headers_ok_def demo_call_def submitted_text_def demo_site_def)
  have step: "site_step demo_site demo_registered (Request (demo_call 100 demo_token) (Submit_Code demo_source True)) sy1"
    using site_step.request [OF demo_call_registered w(1), of "Submit_Code demo_source True" demo_site] w(2) s by simp
  have r: "reachable demo_site sy1"
    using demo_registered_reachable site_run_snoc [OF _ step] unfolding reachable_def by blast
  define l where "l = \<lparr>lf_system = sy1, lf_redis = True\<rparr>"
  obtain p where p: "dm_queue (lf_daemon l) = [] @ [p]" using q by (cases "dm_queue (sy_worker sy1)") (auto simp: l_def)
  have "backend_inv (sy_worker sy1)" using reachable_inv [OF r] demo_site_email by (simp add: site_ok_def)
  then obtain t where t: "t \<in> set (db_submissions (dm_db (lf_daemon l)))" "carries p t"
    using p by (auto simp: backend_inv_def queue_ok_def list_ex_iff l_def)
  let ?l' = "life_cancelled (with_worker (job_under_way [] 0 (lf_daemon l)) l)"
  let ?l'' = "(life_start ?l')\<lparr>lf_system := (lf_system (life_start ?l'))\<lparr>sy_worker :=
      daemon_turn demo_env (lf_daemon (life_start ?l'))\<rparr>\<rparr>"
  have "life_step demo_site (life_start ?l') ?l''"
    using life_step.lives [OF site_step.turn [of demo_site "lf_system (life_start ?l')"]] w(3) by simp
  then have "life_run demo_site ?l' ?l''" using life_step.started by (blast intro: life_run.intros)
  moreover have "reachable demo_site (lf_system l)" using r by (simp add: l_def)
  ultimately have "t \<in> set (db_submissions (dm_db (lf_daemon ?l'')))"
    using killed_job_is_lost [OF demo_site_email _ t(1) p t(2), of ?l' "[]" 0 ?l''] by simp
  then show ?thesis using q by (intro exI [of _ l] exI [of _ t]) (simp add: l_def)
qed

end
