(* ===== verification/Migration_Env.thy ===== *)
theory Migration_Env
  imports Schema_Migrations
begin

text \<open>
  How migrations are run (backend/alembic/env.py): the URL put into alembic's configuration,
  the offline mode that writes a script and the online mode that connects, and the one
  transaction around all migrations.  The configuration parser is an argument; a migration
  does to the schema what its operations do, and a transaction of the database is all or
  nothing.  Migrations that run leave the schema the models need; when one fails, the schema
  is as before, the connection is closed, and the engine is not disposed of.
\<close>

section \<open>The environment\<close>

datatype env_step =
    Configure_Offline pstr | Configure_Online | Begin_Transaction | Run_Migrations
  | Commit_Transaction | Rollback_Transaction
  | Connect pstr | Disconnect | Dispose_Engine

text \<open>\<open>config.set_main_option\<close> and \<open>config.get_main_option\<close>: the parser keeps a value and
  interpolates it when it is read; either may raise.\<close>

record parser =
  cp_set :: "pstr \<Rightarrow> py_exn + pstr"
  cp_get :: "pstr \<Rightarrow> py_exn + pstr"

definition configured_url :: "parser \<Rightarrow> pstr \<Rightarrow> py_exn + pstr" where
  "configured_url cp database_url =
     (case cp_set cp database_url of Inl exc \<Rightarrow> Inl exc | Inr stored \<Rightarrow> cp_get cp stored)"

text \<open>The migrations that are pending, one after the other.\<close>

definition run_pending :: "migration list \<Rightarrow> schema \<Rightarrow> schema option" where
  "run_pending ms sch = run_ddl (concat (map mi_upgrade ms)) sch"

text \<open>\<open>with context.begin_transaction(): context.run_migrations()\<close>.\<close>

definition in_transaction :: "migration list \<Rightarrow> schema \<Rightarrow> env_step list \<times> bool \<times> schema" where
  "in_transaction ms sch =
     (case run_pending ms sch of
        Some sch' \<Rightarrow> ([Begin_Transaction, Run_Migrations, Commit_Transaction], True, sch')
      | None \<Rightarrow> ([Begin_Transaction, Run_Migrations, Rollback_Transaction], False, sch))"

text \<open>Offline, the statements are written out and no database is touched.\<close>

definition run_migrations_offline :: "pstr \<Rightarrow> migration list \<Rightarrow> schema \<Rightarrow> env_step list \<times> bool \<times> schema" where
  "run_migrations_offline url ms sch =
     (Configure_Offline url # [Begin_Transaction, Run_Migrations, Commit_Transaction], True, sch)"

definition do_run_migrations :: "migration list \<Rightarrow> schema \<Rightarrow> env_step list \<times> bool \<times> schema" where
  "do_run_migrations ms sch = (case in_transaction ms sch of (tr, ok, sch') \<Rightarrow> (Configure_Online # tr, ok, sch'))"

text \<open>\<open>async with connectable.connect()\<close> closes on every way out; \<open>dispose()\<close> comes after it.\<close>

definition run_async_migrations :: "pstr \<Rightarrow> migration list \<Rightarrow> schema \<Rightarrow> env_step list \<times> bool \<times> schema" where
  "run_async_migrations url ms sch =
     (case do_run_migrations ms sch of
        (tr, True, sch') \<Rightarrow> (Connect url # tr @ [Disconnect, Dispose_Engine], True, sch')
      | (tr, False, sch') \<Rightarrow> (Connect url # tr @ [Disconnect], False, sch'))"

text \<open>The module itself: the option is set before the mode is looked at.\<close>

definition run_env ::
  "parser \<Rightarrow> pstr \<Rightarrow> bool \<Rightarrow> migration list \<Rightarrow> schema \<Rightarrow> env_step list \<times> bool \<times> schema" where
  "run_env cp database_url offline ms sch =
     (case configured_url cp database_url of
        Inl exc \<Rightarrow> ([], False, sch)
      | Inr url \<Rightarrow>
          if offline then run_migrations_offline url ms sch else run_async_migrations url ms sch)"

section \<open>All or nothing\<close>

lemma in_transaction_cases:
  obtains sch' where "run_pending ms sch = Some sch'"
      "in_transaction ms sch = ([Begin_Transaction, Run_Migrations, Commit_Transaction], True, sch')"
  | "run_pending ms sch = None"
      "in_transaction ms sch = ([Begin_Transaction, Run_Migrations, Rollback_Transaction], False, sch)"
  by (cases "run_pending ms sch") (simp_all add: in_transaction_def)

lemma run_env_result:
  assumes "configured_url cp database_url = Inr url" "run_env cp database_url False ms sch = (tr, ok, sch')"
  shows "if ok then run_pending ms sch = Some sch' else sch' = sch \<and> run_pending ms sch = None"
  using assms
  by (cases rule: in_transaction_cases [of ms sch])
    (auto simp: run_env_def run_async_migrations_def do_run_migrations_def)

lemma env_closes:
  assumes "run_env cp database_url offline ms sch = (tr, ok, sch')"
  shows "count_list tr Disconnect = length (filter (\<lambda>s. \<exists>u. s = Connect u) tr)"
    "count_list tr Commit_Transaction + count_list tr Rollback_Transaction = count_list tr Begin_Transaction"
  using assms
  by (cases rule: in_transaction_cases [of ms sch];
      auto simp: run_env_def run_async_migrations_def do_run_migrations_def run_migrations_offline_def
        split: sum.splits if_splits)+

lemma failed_run_keeps_engine:
  assumes "configured_url cp database_url = Inr url" "run_pending ms sch = None"
  shows "run_env cp database_url False ms sch =
    ([Connect url, Configure_Online, Begin_Transaction, Run_Migrations, Rollback_Transaction, Disconnect], False, sch)"
  using assms by (simp add: run_env_def run_async_migrations_def do_run_migrations_def in_transaction_def)

text \<open>The revision a database is at, and what is pending from there to the head.\<close>

definition schema_at :: "nat \<Rightarrow> schema option" where
  "schema_at n = run_pending (take n migrations) []"

lemma pending_from:
  assumes "schema_at n = Some sch"
  shows "run_pending (drop n migrations) sch = run_pending migrations []"
proof -
  have "run_pending migrations [] = run_pending (take n migrations @ drop n migrations) []" by simp
  also have "\<dots> = run_pending (drop n migrations) sch"
    using assms by (simp add: run_pending_def schema_at_def run_ddl_append del: append_take_drop_id)
  finally show ?thesis by simp
qed

lemma head_reached: "\<exists>sch. run_pending migrations [] = Some sch \<and> schema_agrees sch models"
proof -
  have "(case run_ddl (concat (map mi_upgrade migrations)) [] of
      Some sch \<Rightarrow> schema_agrees sch models | None \<Rightarrow> False)" by code_simp
  then show ?thesis by (auto simp: run_pending_def split: option.splits)
qed

text \<open>An upgrade from any revision brings the tables the models declare.\<close>

lemma upgrade_to_head:
  assumes "configured_url cp database_url = Inr url" "schema_at n = Some sch"
    and "run_env cp database_url False (drop n migrations) sch = (tr, ok, sch')"
  shows "ok" "schema_agrees sch' models" "Dispose_Engine \<in> set tr"
proof -
  obtain hd where h: "run_pending (drop n migrations) sch = Some hd" "schema_agrees hd models"
    using head_reached pending_from [OF assms(2)] by auto
  then have "(tr, ok, sch') = ([Connect url, Configure_Online, Begin_Transaction, Run_Migrations,
      Commit_Transaction, Disconnect, Dispose_Engine], True, hd)"
    using assms(1,3) by (simp add: run_env_def run_async_migrations_def do_run_migrations_def in_transaction_def)
  then show "ok" "schema_agrees sch' models" "Dispose_Engine \<in> set tr"
    using h(2) by simp_all
qed

end
