(* ===== verification/Microvm_Readers.thy ===== *)
theory Microvm_Readers
  imports Microvm_Sandbox
begin

text \<open>
  The line readers of the micro-VM driver (worker/sandbox/microvm_sandbox.py:
  \<open>read_stream\<close>, \<open>monitor_output\<close> and \<open>_consume_to_list\<close>), which the driver defines and never
  calls: it reads the pipes only after the guest has exited.  A stream is the list of lines
  \<open>readline\<close> returns; an empty one ends it.  The two readers of \<open>monitor_output\<close> share one
  consumer and run in any interleaving.
\<close>

abbreviation line_feed :: "bool \<Rightarrow> nat list \<Rightarrow> feed" where
  "line_feed is_stderr raw \<equiv> (if is_stderr then Err (decode_utf8 raw) else Out (decode_utf8 raw))"

fun consume_to_list :: "bool \<Rightarrow> nat list list \<Rightarrow> stream_consumer \<Rightarrow> pstr list \<times> stream_consumer" where
  "consume_to_list is_stderr [] c = ([], c)"
| "consume_to_list is_stderr (raw # stream) c =
     (if raw = [] then ([], c)
      else
        (case consume_to_list is_stderr stream (snd (consume (line_feed is_stderr raw) c)) of
           (lines, c') \<Rightarrow> (decode_utf8 raw # lines, c')))"

text \<open>The generator sends the line it read on, not the chunk the consumer made of it.\<close>

fun read_stream :: "bool \<Rightarrow> nat list list \<Rightarrow> stream_consumer \<Rightarrow> stream_chunk list \<times> stream_consumer" where
  "read_stream is_stderr [] c = ([], c)"
| "read_stream is_stderr (raw # stream) c =
     (if raw = [] then ([], c)
      else
        (case consume (line_feed is_stderr raw) c of
           (reply_chunk, c1) \<Rightarrow>
             (case read_stream is_stderr stream c1 of
                (chunks, c') \<Rightarrow>
                  ((if reply_chunk = None then []
                    else [chunk (if is_stderr then STDERR else STDOUT) (decode_utf8 raw)]) @ chunks, c'))))"

definition monitor_output ::
  "nat list list \<Rightarrow> nat list list \<Rightarrow> stream_consumer \<Rightarrow> stream_consumer set" where
  "monitor_output out err c =
     (\<lambda>fs. snd (run_sink consume fs c)) ` shuffles (map (line_feed False) out) (map (line_feed True) err)"

text \<open>A reader alone: every line comes back, whatever the ceiling.\<close>

lemma consume_to_list_all:
  "[] \<notin> set stream \<Longrightarrow>
   consume_to_list is_stderr stream c = (map decode_utf8 stream, consumed (map (line_feed is_stderr) stream) c)"
  by (induction stream arbitrary: c) (auto simp: Let_def)

lemma consume_accepts:
  "fst (consume f c) = None \<longleftrightarrow> sc_limit_exceeded c"
  by (cases f) (simp_all add: consume_stdout_def consume_stderr_def Let_def)

text \<open>What is sent on are whole lines, up to and including the one that crosses the ceiling.\<close>

lemma read_stream_whole_lines:
  "[] \<notin> set stream \<Longrightarrow>
   \<exists>n. fst (read_stream is_stderr stream c) =
       map (\<lambda>l. chunk (if is_stderr then STDERR else STDOUT) (decode_utf8 l)) (take n stream)"
proof (induction stream arbitrary: c)
  case (Cons raw stream)
  obtain reply_chunk c1 where s: "consume (line_feed is_stderr raw) c = (reply_chunk, c1)" by fastforce
  show ?case
  proof (cases "reply_chunk = None")
    case True
    then have "sc_limit_exceeded c" using consume_accepts [of "line_feed is_stderr raw" c] s by simp
    then have closed: "consume f c = (None, c)" for f by (rule consume_closed)
    have "fst (read_stream is_stderr ls c) = []" for ls
    proof (induction ls)
      case (Cons l ls)
      then show ?case by (simp add: closed del: consume.simps split: prod.split)
    qed simp
    then have "fst (read_stream is_stderr (raw # stream) c) = map g (take 0 (raw # stream))" for g
      by (simp only: take_0 list.map)
    then show ?thesis by blast
  next
    case False
    obtain cs c2 where r: "read_stream is_stderr stream c1 = (cs, c2)" by fastforce
    then obtain n where n: "cs = map (\<lambda>l. chunk (if is_stderr then STDERR else STDOUT) (decode_utf8 l)) (take n stream)"
      using Cons by (metis fst_conv list.set_intros(2))
    have "raw \<noteq> []" using Cons.prems by auto
    then have "fst (read_stream is_stderr (raw # stream) c) =
        chunk (if is_stderr then STDERR else STDOUT) (decode_utf8 raw) # cs"
      using False by (simp only: read_stream.simps s r prod.case if_False append.simps fst_conv)
    then show ?thesis unfolding n by (intro exI [of _ "Suc n"]) simp
  qed
qed simp

text \<open>However the two readers interleave, the shared consumer stays under its ceiling.\<close>

lemma monitor_bounded:
  assumes "c' \<in> monitor_output out err (new_consumer m)"
  shows "kept_bytes c' \<le> nat m"
proof -
  obtain fs where fs: "fs \<in> shuffles (map (line_feed False) out) (map (line_feed True) err)"
    "c' = snd (run_sink consume fs (new_consumer m))" using assms by (auto simp: monitor_output_def)
  have "set fs = set (map (line_feed False) out) \<union> set (map (line_feed True) err)" by (rule set_shuffles [OF fs(1)])
  then have "list_all feed_ok fs" by (auto simp: list_all_iff)
  from sink.run_bounded [OF consumer_inv_new this, of m] show ?thesis
    unfolding fs(2) by (simp add: new_consumer_def)
qed

end
