(* ===== verification/Benchmarks.thy ===== *)
theory Benchmarks
  imports Sandbox_Factory "HOL-Library.Multiset"
begin

text \<open>
  What the benchmark scripts make of their measurements (worker/sandbox/benchmark/harness.py,
  benchmarks/benchmark_engine.py).  The clock is an argument that reads the state of the host;
  so are \<open>math.sqrt\<close> and the power with exponent 2, which Python takes from the C library.
  Times are floats as Binary64 has them, and \<open>sum\<close> is the compensated sum of Python 3.12, the
  version of the containers.
\<close>

section \<open>Arithmetic of floats\<close>

fun float_add :: "pyfloat \<Rightarrow> pyfloat \<Rightarrow> pyfloat" where
  "float_add NaN _ = NaN"
| "float_add _ NaN = NaN"
| "float_add (Fin a) (Fin b) = fl (a + b)"
| "float_add (Fin _) y = y"
| "float_add x (Fin _) = x"
| "float_add PInf y = (if y = PInf then PInf else NaN)"
| "float_add NInf y = (if y = NInf then NInf else NaN)"

fun float_sign :: "pyfloat \<Rightarrow> rat" where
  "float_sign (Fin a) = sgn a"
| "float_sign PInf = 1"
| "float_sign NInf = - 1"
| "float_sign NaN = 0"

definition float_mul :: "pyfloat \<Rightarrow> pyfloat \<Rightarrow> pyfloat" where
  "float_mul x y =
     (case (x, y) of
        (Fin a, Fin b) \<Rightarrow> fl (a * b)
      | _ \<Rightarrow>
          if float_sign x * float_sign y = 0 then NaN
          else if 0 < float_sign x * float_sign y then PInf else NInf)"

text \<open>\<open>round(x, 2)\<close>.\<close>

fun float_round2 :: "pyfloat \<Rightarrow> pyfloat" where
  "float_round2 (Fin a) = fl (of_int (rnd_even (a * 100)) / 100)"
| "float_round2 x = x"

text \<open>\<open>sum\<close> of a list of floats: the running sum and what its roundings lost.\<close>

definition sum_step :: "pyfloat \<times> pyfloat \<Rightarrow> pyfloat \<Rightarrow> pyfloat \<times> pyfloat" where
  "sum_step acc x =
     (case acc of
        (hi, lo) \<Rightarrow>
          (let t = float_add hi x
           in (t, float_add lo
                    (if float_le (float_abs x) (float_abs hi) then float_add (float_sub hi t) x
                     else float_add (float_sub x t) hi))))"

definition py_sum :: "pyfloat list \<Rightarrow> pyfloat" where
  "py_sum xs =
     (case xs of
        [] \<Rightarrow> Fin 0
      | x # rest \<Rightarrow>
          (case foldl sum_step (x, Fin 0) rest of
             (hi, lo) \<Rightarrow> if lo \<noteq> Fin 0 \<and> is_finite lo then float_add hi lo else hi))"

definition int_float :: "int \<Rightarrow> py_exn + pyfloat" where
  "int_float n = (case fl (of_int n) of Fin a \<Rightarrow> Inr (Fin a) | _ \<Rightarrow> Inl OverflowError)"

text \<open>\<open>sum(xs) / len(xs)\<close>.\<close>

definition average :: "pyfloat list \<Rightarrow> py_exn + pyfloat" where
  "average xs =
     (if xs = [] then Inl (OtherError (lit ''division by zero''))
      else Inr (float_div (py_sum xs) (fl (of_nat (length xs)))))"

section \<open>The harness of the drivers\<close>

record driver_benchmark =
  bm_driver_type :: pstr
  bm_backend_technology :: pstr
  bm_startup_latency_ms :: pyfloat
  bm_execution_duration_ms :: pyfloat
  bm_total_latency_ms :: pyfloat
  bm_memory_overhead_mb :: pyfloat
  bm_isolation_layer :: pstr
  bm_hardware_accelerated :: bool
  bm_status :: pstr
  bm_stdout :: pstr

definition benchmark_code :: pstr where
  "benchmark_code =
     lit ''import sys'' @ [10] @ lit ''print('' @ [39] @ lit ''BENCHMARK_OK'' @ [39] @ lit '')'' @ [10]"

text \<open>One iteration: the startup share, the share of the program, and the result.\<close>

definition measure_once ::
  "('w \<Rightarrow> pyfloat \<times> 'w) \<Rightarrow> 'w driver \<Rightarrow> execution_request \<Rightarrow> 'w
     \<Rightarrow> (py_exn + (pyfloat \<times> pyfloat \<times> execution_result)) \<times> 'w" where
  "measure_once perf_counter execute rq w =
     (case perf_counter w of
        (t0, w1) \<Rightarrow>
          (case execute w1 rq of
             (Inl exc, w2) \<Rightarrow> (Inl exc, w2)
           | (Inr res, w2) \<Rightarrow>
               (case perf_counter w2 of
                  (t1, w3) \<Rightarrow>
                    (case int_float (rs_execution_time_ms res) of
                       Inl exc \<Rightarrow> (Inl exc, w3)
                     | Inr exec_ms \<Rightarrow>
                         (let total_ms = float_mul (float_sub t1 t0) (Fin 1000);
                              startup_ms = float_max (Fin 0) (float_sub total_ms exec_ms)
                          in (Inr (startup_ms, exec_ms, res), w3))))))"

fun measure ::
  "('w \<Rightarrow> pyfloat \<times> 'w) \<Rightarrow> 'w driver \<Rightarrow> execution_request \<Rightarrow> nat \<Rightarrow> 'w
     \<Rightarrow> (py_exn + (pyfloat \<times> pyfloat \<times> execution_result) list) \<times> 'w" where
  "measure perf_counter execute rq 0 w = (Inr [], w)"
| "measure perf_counter execute rq (Suc n) w =
     (case measure_once perf_counter execute rq w of
        (Inl exc, w1) \<Rightarrow> (Inl exc, w1)
      | (Inr m, w1) \<Rightarrow>
          (case measure perf_counter execute rq n w1 of
             (Inl exc, w2) \<Rightarrow> (Inl exc, w2)
           | (Inr ms, w2) \<Rightarrow> (Inr (m # ms), w2)))"

text \<open>The isolation, the backend, the overhead and the acceleration the row names.\<close>

definition isolation_metadata :: "platform \<Rightarrow> sandbox_driver_type \<Rightarrow> pstr \<times> pstr \<times> pyfloat \<times> bool" where
  "isolation_metadata pf driver_type =
     (if driver_type = DT_MICROVM then
        (lit ''Hardware Virtualization (KVM / Micro-VM)'', virtualization_backend pf, Fin 8, is_kvm_available pf)
      else if driver_type = DT_DOCKER then
        (lit ''Kernel Namespaces + cgroups v2 + Seccomp'', lit ''OCI_RUNC_CONTAINER'', Fin (5 / 2), False)
      else (lit ''Subprocess OS Process Isolation'', lit ''HOST_SUBPROCESS'', Fin 1, False))"

definition benchmark_row ::
  "platform \<Rightarrow> sandbox_driver_type \<Rightarrow> (pyfloat \<times> pyfloat \<times> execution_result) list \<Rightarrow> py_exn + driver_benchmark" where
  "benchmark_row pf driver_type ms =
     (case average (map fst ms) of
        Inl exc \<Rightarrow> Inl exc
      | Inr avg_startup \<Rightarrow>
          (case average (map (fst \<circ> snd) ms) of
             Inl exc \<Rightarrow> Inl exc
           | Inr avg_exec \<Rightarrow>
               (case isolation_metadata pf driver_type of
                  (isolation, backend, mem_overhead, hw_accel) \<Rightarrow>
                    (let last_result = snd (snd (last ms))
                     in Inr \<lparr>bm_driver_type = driver_value driver_type,
                             bm_backend_technology = backend,
                             bm_startup_latency_ms = float_round2 avg_startup,
                             bm_execution_duration_ms = float_round2 avg_exec,
                             bm_total_latency_ms = float_round2 (float_add avg_startup avg_exec),
                             bm_memory_overhead_mb = mem_overhead,
                             bm_isolation_layer = isolation,
                             bm_hardware_accelerated = hw_accel,
                             bm_status = status_value (rs_status last_result),
                             bm_stdout = py_strip (rs_stdout last_result)\<rparr>))))"

text \<open>\<open>drive\<close> is the \<open>execute\<close> of a choice of the factory, \<open>driver_of\<close> on a real host.\<close>

definition benchmark_driver ::
  "surroundings \<Rightarrow> (sandbox_choice \<Rightarrow> 'w driver) \<Rightarrow> ('w \<Rightarrow> pyfloat \<times> 'w) \<Rightarrow> sandbox_driver_type \<Rightarrow> pstr \<Rightarrow> int
     \<Rightarrow> 'w \<Rightarrow> (py_exn + driver_benchmark) \<times> 'w" where
  "benchmark_driver sr drive perf_counter driver_type language iterations w =
     (case measure perf_counter (drive (create_sandbox sr (driver_value driver_type) False None 1 128))
             ((default_request benchmark_code)\<lparr>rq_language := language\<rparr>) (nat iterations) w of
        (Inl exc, w1) \<Rightarrow> (Inl exc, w1)
      | (Inr ms, w1) \<Rightarrow> (benchmark_row (sr_platform sr) driver_type ms, w1))"

datatype suite_row = Measured driver_benchmark | Error_Row pstr pstr

fun row_driver :: "suite_row \<Rightarrow> pstr" where
  "row_driver (Measured b) = bm_driver_type b"
| "row_driver (Error_Row d err) = d"

fun suite_rows ::
  "(sandbox_driver_type \<Rightarrow> 'w \<Rightarrow> (py_exn + driver_benchmark) \<times> 'w) \<Rightarrow> sandbox_driver_type list \<Rightarrow> 'w
     \<Rightarrow> suite_row list \<times> 'w" where
  "suite_rows bench [] w = ([], w)"
| "suite_rows bench (d # ds) w =
     (case bench d w of
        (res, w1) \<Rightarrow>
          (case suite_rows bench ds w1 of
             (rows, w2) \<Rightarrow>
               ((case res of Inl err \<Rightarrow> Error_Row (driver_value d) (exn_str err) | Inr b \<Rightarrow> Measured b) # rows, w2)))"

definition run_comparative_suite ::
  "surroundings \<Rightarrow> (sandbox_choice \<Rightarrow> 'w driver) \<Rightarrow> ('w \<Rightarrow> pyfloat \<times> 'w) \<Rightarrow> 'w \<Rightarrow> suite_row list \<times> 'w" where
  "run_comparative_suite sr drive perf_counter =
     suite_rows (\<lambda>d. benchmark_driver sr drive perf_counter d (lit ''python'') 2) [DT_PROCESS, DT_MICROVM]"

section \<open>Statistics\<close>

fun float_insort :: "pyfloat \<Rightarrow> pyfloat list \<Rightarrow> pyfloat list" where
  "float_insort x [] = [x]"
| "float_insort x (y # ys) = (if float_less y x then y # float_insort x ys else x # y # ys)"

definition float_sorted :: "pyfloat list \<Rightarrow> pyfloat list" where
  "float_sorted xs = foldr float_insort xs []"

record stats =
  st_min :: pyfloat
  st_p50 :: pyfloat
  st_p90 :: pyfloat
  st_p95 :: pyfloat
  st_p99 :: pyfloat
  st_max :: pyfloat
  st_mean :: pyfloat
  st_stddev :: pyfloat

text \<open>\<open>percentile(p)\<close> of a sorted list that is not empty; \<open>p\<close> is the exact value of the literal.\<close>

definition percentile :: "pyfloat list \<Rightarrow> rat \<Rightarrow> pyfloat" where
  "percentile sorted_v p =
     (case float_mul (fl (of_nat (length sorted_v - 1))) (fl p) of
        Fin k \<Rightarrow>
          (if \<lfloor>k\<rfloor> = \<lceil>k\<rceil> then sorted_v ! nat \<lfloor>k\<rfloor>
           else float_add (float_mul (sorted_v ! nat \<lfloor>k\<rfloor>) (fl (of_int \<lceil>k\<rceil> - k)))
                  (float_mul (sorted_v ! nat \<lceil>k\<rceil>) (fl (k - of_int \<lfloor>k\<rfloor>))))
      | _ \<Rightarrow> NaN)"

definition compute_percentiles ::
  "(pyfloat \<Rightarrow> pyfloat) \<Rightarrow> (pyfloat \<Rightarrow> pyfloat) \<Rightarrow> pyfloat list \<Rightarrow> stats" where
  "compute_percentiles square sqrt_of values =
     (if values = [] then
        \<lparr>st_min = Fin 0, st_p50 = Fin 0, st_p90 = Fin 0, st_p95 = Fin 0, st_p99 = Fin 0,
         st_max = Fin 0, st_mean = Fin 0, st_stddev = Fin 0\<rparr>
      else
        let sorted_v = float_sorted values; n = length sorted_v; n_float = fl (of_nat n);
            mean_val = float_div (py_sum sorted_v) n_float;
            variance =
              (if 1 < n then float_div (py_sum (map (\<lambda>x. square (float_sub x mean_val)) sorted_v)) n_float
               else Fin 0)
        in \<lparr>st_min = float_round2 (hd sorted_v),
            st_p50 = float_round2 (percentile sorted_v (1 / 2)),
            st_p90 = float_round2 (percentile sorted_v (9 / 10)),
            st_p95 = float_round2 (percentile sorted_v (95 / 100)),
            st_p99 = float_round2 (percentile sorted_v (99 / 100)),
            st_max = float_round2 (last sorted_v),
            st_mean = float_round2 mean_val,
            st_stddev = float_round2 (sqrt_of variance)\<rparr>)"

section \<open>The verdict on adversarial programs\<close>

datatype probe = Fork_Bomb | Memory_Exhaustion | Network_Exfiltration | Rootfs_Tampering | Infinite_Loop

definition adversarial_workloads :: "probe list" where
  "adversarial_workloads =
     [Fork_Bomb, Memory_Exhaustion, Network_Exfiltration, Rootfs_Tampering, Infinite_Loop]"

definition says :: "string \<Rightarrow> pstr \<Rightarrow> bool" where
  "says needle text = py_contains (lit needle) (py_lower text)"

fun is_contained :: "probe \<Rightarrow> pyfloat \<Rightarrow> execution_result \<Rightarrow> bool" where
  "is_contained Infinite_Loop elapsed_ms res \<longleftrightarrow>
     rs_status res = ES_TIME_LIMIT_EXCEEDED \<or> float_le (Fin 1900) elapsed_ms \<or>
     says ''timed out'' (rs_stderr res)"
| "is_contained Fork_Bomb elapsed_ms res \<longleftrightarrow>
     says ''fork constrained'' (rs_stdout res) \<or> says ''eagain'' (rs_stderr res) \<or>
     says ''not supported'' (rs_stderr res) \<or>
     rs_status res \<in> {ES_COMPLETED, ES_RUNTIME_ERROR, ES_RESOURCE_LIMIT_EXCEEDED}"
| "is_contained Memory_Exhaustion elapsed_ms res \<longleftrightarrow>
     says ''constrained'' (rs_stdout res) \<or> says ''memoryerror'' (rs_stderr res) \<or>
     rs_status res \<in> {ES_COMPLETED, ES_RUNTIME_ERROR, ES_MEMORY_LIMIT_EXCEEDED}"
| "is_contained Network_Exfiltration elapsed_ms res \<longleftrightarrow>
     (says ''isolated'' (rs_stdout res) \<or> says ''error'' (rs_stdout res) \<or>
      says ''network isolated'' (rs_stdout res)) \<and> \<not> says ''vulnerability'' (rs_stdout res)"
| "is_contained Rootfs_Tampering elapsed_ms res \<longleftrightarrow>
     says ''rootfs protected'' (rs_stdout res) \<or> says ''permissionerror'' (rs_stderr res) \<or>
     \<not> says ''tampered'' (rs_stdout res)"

fun containment_mechanism :: "probe \<Rightarrow> pstr" where
  "containment_mechanism Infinite_Loop = lit ''Watchdog Timer (SIGKILL / Cancelation)''"
| "containment_mechanism Fork_Bomb = lit ''OS Process Boundary / Cgroups pids.max''"
| "containment_mechanism Memory_Exhaustion = lit ''Virtual Memory Boundary / Cgroups memory.max''"
| "containment_mechanism Network_Exfiltration = lit ''Network Namespace Isolation / no-net''"
| "containment_mechanism Rootfs_Tampering = lit ''Read-Only Root Filesystem (--read-only)''"

text \<open>The report of a probe, without its description, which is a constant text.\<close>

record probe_report =
  pr_status :: pstr
  pr_elapsed_ms :: pyfloat
  pr_contained :: bool
  pr_mechanism :: pstr

definition judge :: "probe \<Rightarrow> pyfloat \<Rightarrow> execution_result \<Rightarrow> probe_report" where
  "judge p elapsed_ms res =
     \<lparr>pr_status = status_value (rs_status res), pr_elapsed_ms = elapsed_ms,
      pr_contained = is_contained p elapsed_ms res, pr_mechanism = containment_mechanism p\<rparr>"

text \<open>The probes one after the other; \<open>code\<close> gives their programs.\<close>

fun run_probes ::
  "('w \<Rightarrow> pyfloat \<times> 'w) \<Rightarrow> 'w driver \<Rightarrow> (probe \<Rightarrow> pstr) \<Rightarrow> probe list \<Rightarrow> 'w
     \<Rightarrow> (py_exn + (probe \<times> probe_report) list) \<times> 'w" where
  "run_probes perf_counter execute code [] w = (Inr [], w)"
| "run_probes perf_counter execute code (p # ps) w =
     (case perf_counter w of
        (t0, w1) \<Rightarrow>
          (case execute w1 ((default_request (code p))\<lparr>rq_timeout_seconds := Fin 2, rq_max_output_bytes := 64 * 1024\<rparr>) of
             (Inl exc, w2) \<Rightarrow> (Inl exc, w2)
           | (Inr res, w2) \<Rightarrow>
               (case perf_counter w2 of
                  (t1, w3) \<Rightarrow>
                    (case run_probes perf_counter execute code ps w3 of
                       (Inl exc, w4) \<Rightarrow> (Inl exc, w4)
                     | (Inr reports, w4) \<Rightarrow>
                         (Inr ((p, judge p (float_round2 (float_mul (float_sub t1 t0) (Fin 1000))) res) # reports), w4)))))"

record containment =
  cn_rate_pct :: pyfloat
  cn_total :: nat
  cn_contained :: nat
  cn_probes :: "(probe \<times> probe_report) list"

definition containment_of :: "(probe \<times> probe_report) list \<Rightarrow> containment" where
  "containment_of reports =
     (let total = length adversarial_workloads; contained = length (filter (pr_contained \<circ> snd) reports)
      in \<lparr>cn_rate_pct = float_round1 (float_mul (fl (of_nat contained / of_nat total)) (Fin 100)),
          cn_total = total, cn_contained = contained, cn_probes = reports\<rparr>)"

definition benchmark_containment ::
  "('w \<Rightarrow> pyfloat \<times> 'w) \<Rightarrow> 'w driver \<Rightarrow> (probe \<Rightarrow> pstr) \<Rightarrow> 'w \<Rightarrow> (py_exn + containment) \<times> 'w" where
  "benchmark_containment perf_counter execute code w =
     (case run_probes perf_counter execute code adversarial_workloads w of
        (Inl exc, w1) \<Rightarrow> (Inl exc, w1)
      | (Inr reports, w1) \<Rightarrow> (Inr (containment_of reports), w1))"

section \<open>What the reports are worth\<close>

text \<open>A measured row names what was asked for: the driver that ran is not consulted.  Where
  Docker cannot be reached the row of Docker holds the figures of a plain subprocess under the
  name of container isolation.\<close>

lemma row_metadata:
  assumes "benchmark_row pf d ms = Inr b"
  shows "(bm_isolation_layer b, bm_backend_technology b, bm_memory_overhead_mb b,
          bm_hardware_accelerated b) = isolation_metadata pf d \<and> bm_driver_type b = driver_value d"
  using assms by (auto simp: benchmark_row_def Let_def split: sum.splits prod.splits)

lemma harness_labels_the_request:
  assumes "\<not> sr_docker sr"
    and "benchmark_driver sr drive clock DT_DOCKER language n w = (Inr b, w1)"
  shows "bm_backend_technology b = lit ''OCI_RUNC_CONTAINER'' \<and>
         fst (measure clock (drive Process_Box)
                ((default_request benchmark_code)\<lparr>rq_language := language\<rparr>) (nat n) w) \<noteq> Inr [] \<and>
         create_sandbox sr (driver_value DT_DOCKER) False None 1 128 = Process_Box"
proof -
  have l: "py_lower (lit ''docker'') = lit ''docker''"
    by (simp add: py_lower_def lower_char_def lit_def)
  have c: "create_sandbox sr (driver_value DT_DOCKER) False None 1 128 = Process_Box"
    using assms(1) l by (simp add: create_sandbox_def try_docker_def lit_def)
  obtain ms where ms: "measure clock (drive Process_Box)
        ((default_request benchmark_code)\<lparr>rq_language := language\<rparr>) (nat n) w = (Inr ms, w1)"
      and b: "benchmark_row (sr_platform sr) DT_DOCKER ms = Inr b"
    using assms(2) unfolding benchmark_driver_def c by (auto split: prod.splits sum.splits)
  have "ms \<noteq> []" using b by (auto simp: benchmark_row_def average_def)
  with row_metadata [OF b] ms c show ?thesis by (simp add: isolation_metadata_def)
qed

text \<open>The suite always answers, with a row for each of its drivers in order; a driver that
  raises costs its own row only.\<close>

lemma suite_rows_drivers:
  assumes "\<And>d w b. fst (bench d w) = Inr b \<Longrightarrow> bm_driver_type b = driver_value d"
  shows "map row_driver (fst (suite_rows bench ds w)) = map driver_value ds"
proof (induction ds arbitrary: w)
  case (Cons d ds)
  obtain res w1 where r: "bench d w = (res, w1)" by (cases "bench d w")
  then show ?case using Cons.IH [of w1] assms [of d w]
    by (auto split: sum.splits prod.splits)
qed simp

lemma suite_always_reports:
  "map row_driver (fst (run_comparative_suite sr drive clock w)) = [lit ''process'', lit ''microvm'']"
  unfolding run_comparative_suite_def
  by (subst suite_rows_drivers)
    (auto simp: benchmark_driver_def dest: row_metadata split: prod.splits sum.splits)

lemma startup_never_negative:
  "fst (measure clock execute rq n w) = Inr ms \<Longrightarrow> \<forall>m \<in> set ms. \<not> float_less (fst m) (Fin 0)"
proof (induction n arbitrary: w ms)
  case (Suc n)
  obtain m w1 where m: "measure_once clock execute rq w = (Inr m, w1)"
    using Suc.prems by (auto split: prod.splits sum.splits)
  obtain ms' where ms': "fst (measure clock execute rq n w1) = Inr ms'" "ms = m # ms'"
    using Suc.prems m by (auto split: prod.splits sum.splits)
  have pos: "\<not> float_less (float_max (Fin 0) x) (Fin 0)" for x by (cases x) (auto simp: float_max_def)
  have "\<not> float_less (fst m) (Fin 0)"
    using m pos by (auto simp: measure_once_def Let_def split: prod.splits sum.splits)
  with Suc.IH [OF ms'(1)] ms'(2) show ?case by simp
qed simp

text \<open>The order of the measurements does not matter.\<close>

lemma float_insort_Fin: "float_insort (Fin a) (map Fin bs) = map Fin (insort a bs)"
  by (induction bs) auto

lemma float_sorted_Fin: "float_sorted (map Fin as) = map Fin (sort as)"
  unfolding float_sorted_def sort_conv_fold [symmetric]
  by (induction as) (simp_all add: float_insort_Fin)

lemma percentiles_order_irrelevant:
  assumes "mset as = mset bs"
  shows "compute_percentiles sq rt (map Fin as) = compute_percentiles sq rt (map Fin bs)"
proof -
  have "sort as = sort bs" using assms by (intro properties_for_sort) simp_all
  moreover have "as = [] \<longleftrightarrow> bs = []" using assms by auto
  ultimately show ?thesis
    unfolding compute_percentiles_def float_sorted_Fin by simp
qed

text \<open>Every probe is run and reported, unless the sandbox raises.\<close>

lemma probes_all_reported:
  "run_probes clock execute code ps w = (Inr reports, w1) \<Longrightarrow> map fst reports = ps"
  by (induction clock execute code ps w arbitrary: reports w1 rule: run_probes.induct)
    (auto split: prod.splits sum.splits)

lemma every_probe_counted:
  assumes "benchmark_containment clock execute code w = (Inr c, w1)"
  shows "map fst (cn_probes c) = adversarial_workloads \<and> cn_contained c \<le> cn_total c"
proof -
  obtain reports where r: "run_probes clock execute code adversarial_workloads w = (Inr reports, w1)"
      "c = containment_of reports"
    using assms by (auto simp: benchmark_containment_def split: prod.splits sum.splits)
  have m: "map fst reports = adversarial_workloads" using r(1) by (rule probes_all_reported)
  then have "length reports = length adversarial_workloads" by (metis length_map)
  then show ?thesis
    using m r(2) length_filter_le [of "pr_contained \<circ> snd" reports] by (simp add: containment_of_def Let_def)
qed

text \<open>The verdict calls breaches contained: a fork bomb or an allocation of 2 GB that simply
  completes, and a program that reports having written to all of the system's files.\<close>

lemma breach_counts_as_contained:
  "is_contained Fork_Bomb t (default_result ES_COMPLETED) \<and>
   is_contained Memory_Exhaustion t (default_result ES_COMPLETED) \<and>
   is_contained Rootfs_Tampering t
     ((default_result ES_COMPLETED)\<lparr>rs_stdout := lit ''Rootfs protected: 0/3''\<rparr>)"
  by (simp add: default_result_def says_def py_lower_def lower_char_def lit_def)

end
